(* ===== verification/Wasi_Prelude.thy ===== *)
theory Wasi_Prelude
  imports Main "HOL-Library.Word" "HOL-Library.AList" "HOL-Library.State_Monad"
begin

text \<open>
  Shared material of the development: the machine-integer types of the Go sources, guest memory
  as a byte list with slices, the little-endian codec of \<^verbatim>\<open>encoding/binary\<close>, association lists as Go
  maps, and a weakest-precondition calculus for the state monad in which the handlers are written.
  The collections \<open>wp_simps\<close> (evaluation of \<open>wp\<close> along a program) and \<open>mem_simps\<close> (reading and
  writing byte ranges) carry the component proofs.
\<close>

unbundle bit_operations_syntax

named_theorems wp_simps \<open>evaluation of wp along a monadic program\<close>
named_theorems mem_simps \<open>reading and writing byte ranges of guest memory\<close>

type_synonym u8 = "8 word"
type_synonym u16 = "16 word"
type_synonym u32 = "32 word"
type_synonym u64 = "64 word"
type_synonym bytes = "u8 list"

section \<open>Word facts\<close>

lemma unat_u32_bound [simp]: "unat (a :: u32) < 4294967296"
  using unsigned_less [of a, where 'a = nat] by simp

lemma unat_u64_bound [simp]: "unat (a :: u64) < 18446744073709551616"
  using unsigned_less [of a, where 'a = nat] by simp

lemma unat_ucast_u32_u64 [simp]: "unat (ucast (a :: u32) :: u64) = unat a"
  by (simp add: unsigned_ucast_eq take_bit_nat_eq_self_iff order.strict_trans [OF unat_u32_bound])

lemma ucast_u32_u64_sum_le:
  fixes a b :: u32
  assumes "n < 2 ^ 63"
  shows "(ucast a :: u64) + ucast b \<le> of_nat n \<longleftrightarrow> unat a + unat b \<le> n"
proof -
  have "unat ((ucast a :: u64) + ucast b) = unat a + unat b"
    using unat_u32_bound [of a] unat_u32_bound [of b]
    by (simp add: unat_word_ariths mod_less del: unat_u32_bound)
  moreover have "unat (of_nat n :: u64) = n"
    using assms by (simp add: unat_of_nat)
  ultimately show ?thesis by (simp add: word_le_nat_alt)
qed

lemma word_and_not_zero_iff:
  fixes a b :: "'a::len word"
  shows "a AND NOT b = 0 \<longleftrightarrow> (\<forall>n < LENGTH('a). bit a n \<longrightarrow> bit b n)"
  by (auto simp: bit_eq_iff bit_simps)

lemma word_and_subset_trans:
  fixes a b c :: "'a::len word"
  assumes "a AND NOT b = 0" and "b AND NOT c = 0"
  shows "a AND NOT c = 0"
  using assms by (simp add: word_and_not_zero_iff)

section \<open>Byte slices\<close>

text \<open>\<open>mem_slice off n m\<close> is Go's \<^verbatim>\<open>m[off:off+n]\<close>; \<open>mem_put off bs m\<close> is the memory after
  \<^verbatim>\<open>copy(m[off:], bs)\<close> when the target range lies inside \<open>m\<close>.\<close>

definition mem_slice :: "nat \<Rightarrow> nat \<Rightarrow> bytes \<Rightarrow> bytes" where
  "mem_slice off n m = take n (drop off m)"

definition mem_put :: "nat \<Rightarrow> bytes \<Rightarrow> bytes \<Rightarrow> bytes" where
  "mem_put off bs m = take off m @ bs @ drop (off + length bs) m"

lemma length_mem_put [simp, mem_simps]:
  "off + length bs \<le> length m \<Longrightarrow> length (mem_put off bs m) = length m"
  by (simp add: mem_put_def)

lemma length_mem_slice [simp, mem_simps]:
  "off + n \<le> length m \<Longrightarrow> length (mem_slice off n m) = n"
  by (simp add: mem_slice_def)

lemma mem_slice_put_same [mem_simps]:
  "off + length bs \<le> length m \<Longrightarrow> n = length bs \<Longrightarrow> mem_slice off n (mem_put off bs m) = bs"
  by (simp add: mem_slice_def mem_put_def)

lemma nth_mem_put:
  assumes "off + length bs \<le> length m" and "i < length m"
  shows "mem_put off bs m ! i = (if off \<le> i \<and> i < off + length bs then bs ! (i - off) else m ! i)"
  using assms by (auto simp: mem_put_def nth_append min_def)

lemma nth_mem_slice: "i < n \<Longrightarrow> off + n \<le> length m \<Longrightarrow> mem_slice off n m ! i = m ! (off + i)"
  by (simp add: mem_slice_def)

lemma mem_slice_put_disjoint [mem_simps]:
  assumes "off + length bs \<le> length m" and "a + n \<le> length m"
    and "a + n \<le> off \<or> off + length bs \<le> a"
  shows "mem_slice a n (mem_put off bs m) = mem_slice a n m"
  using assms by (intro nth_equalityI) (auto simp: nth_mem_slice nth_mem_put)

lemma mem_slice_put_inside:
  assumes "off + length bs \<le> length m" and "off \<le> a" and "a + n \<le> off + length bs"
  shows "mem_slice a n (mem_put off bs m) = mem_slice (a - off) n bs"
  using assms by (intro nth_equalityI) (auto simp: nth_mem_slice nth_mem_put)

lemma mem_put_nil [simp]: "mem_put off [] m = m"
  by (simp add: mem_put_def)

section \<open>Little-endian integers\<close>

fun le_bytes :: "nat \<Rightarrow> 'a::len word \<Rightarrow> bytes" where
  "le_bytes 0 w = []"
| "le_bytes (Suc n) w = ucast w # le_bytes n (drop_bit 8 w)"

fun le_word :: "bytes \<Rightarrow> 'a::len word" where
  "le_word [] = 0"
| "le_word (b # bs) = ucast b OR push_bit 8 (le_word bs)"

lemma length_le_bytes [simp]: "length (le_bytes n w) = n"
  by (induction n arbitrary: w) auto

lemma le_word_le_bytes_take_bit: "le_word (le_bytes n w) = take_bit (8 * n) (w :: 'a::len word)"
proof (induction n arbitrary: w)
  case 0
  then show ?case by simp
next
  case (Suc n)
  have "ucast (ucast w :: u8) OR push_bit 8 (take_bit (8 * n) (drop_bit 8 w)) = take_bit (8 * Suc n) w"
    by (rule bit_word_eqI) (auto simp: bit_simps)
  with Suc show ?case by simp
qed

lemma le_word_le_bytes:
  "LENGTH('a) \<le> 8 * n \<Longrightarrow> le_word (le_bytes n w) = (w :: 'a::len word)"
  by (simp add: le_word_le_bytes_take_bit take_bit_word_eq_self)

lemma le_bytes_le_word:
  assumes "8 * length bs \<le> LENGTH('a)"
  shows "le_bytes (length bs) (le_word bs :: 'a::len word) = bs"
  using assms
proof (induction bs)
  case Nil
  then show ?case by simp
next
  case (Cons b bs)
  let ?w = "le_word bs :: 'a word"
  have len: "8 \<le> LENGTH('a)" "8 * length bs \<le> LENGTH('a)" "8 * Suc (length bs) \<le> LENGTH('a)"
    using Cons.prems by simp_all
  have "(ucast (ucast b OR push_bit 8 ?w) :: u8) = b"
    using len by (intro bit_word_eqI) (auto simp: bit_simps)
  moreover have "drop_bit 8 (ucast b OR push_bit 8 ?w) = take_bit (LENGTH('a) - 8) ?w"
    by (rule bit_word_eqI) (auto simp: bit_simps dest: bit_imp_le_length)
  moreover have "take_bit (LENGTH('a) - 8) ?w = ?w"
  proof -
    have "?w = take_bit (8 * length bs) ?w"
      using le_word_le_bytes_take_bit [of "length bs" ?w] Cons.IH [OF len(2)] by simp
    moreover have "min (LENGTH('a) - 8) (8 * length bs) = 8 * length bs"
      using len by simp
    ultimately show ?thesis by (metis take_bit_take_bit)
  qed
  ultimately show ?case using Cons.IH [OF len(2)] by simp
qed

section \<open>Go maps as association lists\<close>

lemma length_AList_update:
  "length (AList.update k v al) = (if k \<in> fst ` set al then length al else Suc (length al))"
  by (induction al) auto

lemma length_AList_delete:
  "distinct (map fst al) \<Longrightarrow>
     length (AList.delete k al) = (if k \<in> fst ` set al then length al - 1 else length al)"
proof (induction al)
  case Nil
  then show ?case by simp
next
  case (Cons x al)
  have "AList.delete (fst x) al = al" if "fst x \<notin> fst ` set al"
    using that by simp
  moreover have "0 < length al" if "k \<in> fst ` set al"
    using that by (cases al) auto
  ultimately show ?case using Cons by (cases x) auto
qed

lemma map_of_in_fst: "map_of al k = Some v \<Longrightarrow> k \<in> fst ` set al"
  by (metis domI dom_map_of_conv_image_fst)

lemma map_of_update [simp]:
  "map_of (AList.update k v al) k' = (if k' = k then Some v else map_of al k')"
  by (simp add: AList.update_conv')

lemma map_of_delete_if [simp]:
  "map_of (AList.delete k al) k' = (if k' = k then None else map_of al k')"
  by (simp add: AList.delete_conv')

lemma set_AList_delete: "set (AList.delete k al) = {x \<in> set al. fst x \<noteq> k}"
  by (auto simp: AList.delete_eq)

lemma set_AList_update:
  "distinct (map fst al) \<Longrightarrow> set (AList.update k v al) = insert (k, v) {x \<in> set al. fst x \<noteq> k}"
proof (induction al)
  case Nil
  then show ?case by simp
next
  case (Cons x al)
  have "{y \<in> set al. fst y \<noteq> fst x} = set al" if "fst x \<notin> fst ` set al"
    using that by (auto, metis imageI fst_conv)
  with Cons show ?case by (cases x) auto
qed

section \<open>A weakest-precondition calculus for the state monad\<close>

definition gets :: "('s \<Rightarrow> 'a) \<Rightarrow> ('s, 'a) state" where
  "gets f = State (\<lambda>s. (f s, s))"

definition modify :: "('s \<Rightarrow> 's) \<Rightarrow> ('s, unit) state" where
  "modify f = State (\<lambda>s. ((), f s))"

abbreviation ret :: "'a \<Rightarrow> ('s, 'a) state" where
  "ret \<equiv> State_Monad.return"

definition wp :: "('s, 'a) state \<Rightarrow> ('a \<Rightarrow> 's \<Rightarrow> bool) \<Rightarrow> 's \<Rightarrow> bool" where
  "wp m Q s = (case run_state m s of (a, s') \<Rightarrow> Q a s')"

lemma run_gets [simp]: "run_state (gets f) s = (f s, s)"
  by (simp add: gets_def)

lemma run_modify [simp]: "run_state (modify f) s = ((), f s)"
  by (simp add: modify_def)

lemma wp_return [wp_simps]: "wp (ret a) Q s = Q a s"
  by (simp add: wp_def)

lemma wp_bind [wp_simps]: "wp (m \<bind> f) Q s = wp m (\<lambda>a. wp (f a) Q) s"
  by (simp add: wp_def split: prod.splits)

lemma wp_gets [wp_simps]: "wp (gets f) Q s = Q (f s) s"
  by (simp add: wp_def)

lemma wp_modify [wp_simps]: "wp (modify f) Q s = Q () (f s)"
  by (simp add: wp_def)

lemma wp_if [wp_simps]: "wp (if b then m else n) Q s = (if b then wp m Q s else wp n Q s)"
  by simp

lemma wp_let [wp_simps]: "wp (let x = t in f x) Q s = wp (f t) Q s"
  by simp

lemma wp_case_prod [wp_simps]: "wp (case x of (a, b) \<Rightarrow> f a b) Q s = (case x of (a, b) \<Rightarrow> wp (f a b) Q s)"
  by (simp split: prod.splits)

lemma wp_case_option [wp_simps]:
  "wp (case x of None \<Rightarrow> m | Some a \<Rightarrow> f a) Q s = (case x of None \<Rightarrow> wp m Q s | Some a \<Rightarrow> wp (f a) Q s)"
  by (simp split: option.splits)

lemma wp_case_sum [wp_simps]:
  "wp (case x of Inl e \<Rightarrow> f e | Inr a \<Rightarrow> g a) Q s = (case x of Inl e \<Rightarrow> wp (f e) Q s | Inr a \<Rightarrow> wp (g a) Q s)"
  by (simp split: sum.splits)

lemma wp_mono: "wp m P s \<Longrightarrow> (\<And>a t. P a t \<Longrightarrow> Q a t) \<Longrightarrow> wp m Q s"
  by (auto simp: wp_def split: prod.splits)

lemma wp_conj: "wp m (\<lambda>a t. P a t \<and> Q a t) s \<longleftrightarrow> wp m P s \<and> wp m Q s"
  by (auto simp: wp_def split: prod.splits)

lemma wp_run: "wp m Q s \<longleftrightarrow> Q (fst (run_state m s)) (snd (run_state m s))"
  by (simp add: wp_def split: prod.splits)

lemma wp_runI: "wp m Q s \<Longrightarrow> run_state m s = (a, t) \<Longrightarrow> Q a t"
  by (simp add: wp_def)

lemma state_bind_cong [fundef_cong]:
  "m = m' \<Longrightarrow> (\<And>a. f a = f' a) \<Longrightarrow> State_Monad.bind m f = State_Monad.bind m' f'"
  by (metis ext)

end
