(* ===== verification/Go_Std.thy ===== *)
theory Go_Std
  imports Wasi_Prelude
begin

text \<open>
  The parts of Go's standard library that the sources use on strings and errors. A Go string is a
  sequence of bytes, here an Isabelle \<^typ>\<open>string\<close>; a result of \<open>-1\<close> of an index function is
  \<^term>\<open>None\<close>. An \<^verbatim>\<open>error\<close> value is a \<open>goerr\<close>: a kernel error number (\<^verbatim>\<open>syscall.Errno\<close>), one of the
  sentinel errors the code compares with, or a wrapper (\<^verbatim>\<open>*os.PathError\<close>, \<^verbatim>\<open>fmt.Errorf("%w")\<close>);
  a nil error is \<^term>\<open>None\<close> of the option type.
\<close>

section \<open>Bytes and strings\<close>

definition string_bytes :: "string \<Rightarrow> bytes" where
  "string_bytes s = map of_char s"

definition bytes_string :: "bytes \<Rightarrow> string" where
  "bytes_string bs = map (\<lambda>b. char_of (unat b)) bs"

lemma unat_of_char [simp]: "unat (of_char c :: u8) = of_char c"
proof -
  have "(of_char c :: u8) = of_nat (of_char c)" by (simp add: of_char_def)
  moreover have "of_char c < (256 :: nat)" by simp
  ultimately show ?thesis by (simp only: unat_of_nat) simp
qed

lemma bytes_string_bytes [simp]: "bytes_string (string_bytes s) = s"
  by (simp add: bytes_string_def string_bytes_def comp_def)

lemma length_string_bytes [simp]: "length (string_bytes s) = length s"
  by (simp add: string_bytes_def)

lemma length_bytes_string [simp]: "length (bytes_string s) = length s"
  by (simp add: bytes_string_def)

section \<open>Package strings\<close>

definition hasPrefix :: "string \<Rightarrow> string \<Rightarrow> bool" where
  "hasPrefix s pre = (take (length pre) s = pre)"

definition hasSuffix :: "string \<Rightarrow> string \<Rightarrow> bool" where
  "hasSuffix s suf = (length suf \<le> length s \<and> drop (length s - length suf) s = suf)"

fun indexByte :: "string \<Rightarrow> char \<Rightarrow> nat option" where
  "indexByte [] c = None"
| "indexByte (x # xs) c = (if x = c then Some 0 else map_option Suc (indexByte xs c))"

definition lastIndexByte :: "string \<Rightarrow> char \<Rightarrow> nat option" where
  "lastIndexByte s c = map_option (\<lambda>i. length s - 1 - i) (indexByte (rev s) c)"

definition trimRight :: "string \<Rightarrow> string \<Rightarrow> string" where
  "trimRight s cutset = rev (dropWhile (\<lambda>c. c \<in> set cutset) (rev s))"

text \<open>\<^verbatim>\<open>strings.Split(s, sep)\<close> for a one-byte separator.\<close>

fun split_on :: "char \<Rightarrow> string \<Rightarrow> string list" where
  "split_on c [] = [[]]"
| "split_on c (x # xs) =
     (if x = c then [] # split_on c xs
      else (case split_on c xs of [] \<Rightarrow> [[x]] | y # ys \<Rightarrow> (x # y) # ys))"

text \<open>\<^verbatim>\<open>strings.Cut(s, sep)\<close> for a one-byte separator.\<close>

definition cut :: "string \<Rightarrow> char \<Rightarrow> string \<times> string \<times> bool" where
  "cut s c = (case indexByte s c of
      Some i \<Rightarrow> (take i s, drop (Suc i) s, True)
    | None \<Rightarrow> (s, [], False))"

lemma indexByte_None [simp]: "indexByte s c = None \<longleftrightarrow> c \<notin> set s"
  by (induction s) auto

lemma indexByte_Some:
  "indexByte s c = Some i \<longleftrightarrow> i < length s \<and> s ! i = c \<and> c \<notin> set (take i s)"
proof (induction s arbitrary: i)
  case Nil
  then show ?case by simp
next
  case (Cons x xs)
  then show ?case by (cases i) auto
qed

lemma lastIndexByte_None [simp]: "lastIndexByte s c = None \<longleftrightarrow> c \<notin> set s"
  by (simp add: lastIndexByte_def)

lemma lastIndexByte_Some:
  assumes "lastIndexByte s c = Some i"
  shows "i < length s \<and> s ! i = c \<and> c \<notin> set (drop (Suc i) s)"
proof -
  from assms obtain j where j: "indexByte (rev s) c = Some j" and i: "i = length s - 1 - j"
    by (auto simp: lastIndexByte_def)
  then have "j < length s" and "rev s ! j = c" and "c \<notin> set (take j (rev s))"
    by (simp_all add: indexByte_Some)
  moreover have "take j (rev s) = rev (drop (Suc i) s)"
    using i \<open>j < length s\<close> by (simp add: take_rev Suc_diff_Suc)
  ultimately show ?thesis using i by (simp add: rev_nth)
qed

lemma split_on_ne [simp]: "split_on c s \<noteq> []"
  by (cases s) (auto split: list.splits)

lemma split_on_no_sep: "x \<in> set (split_on c s) \<Longrightarrow> c \<notin> set x"
proof (induction s arbitrary: x)
  case Nil
  then show ?case by simp
next
  case (Cons y ys)
  then show ?case by (cases "split_on c ys") (auto split: if_splits)
qed

lemma split_on_no_sep_id: "c \<notin> set s \<Longrightarrow> split_on c s = [s]"
  by (induction s) auto

lemma split_on_append_sep:
  assumes "c \<notin> set a"
  shows "split_on c (a @ c # b) = a # split_on c b"
  using assms by (induction a) auto

lemma hasPrefix_slash [simp]: "hasPrefix (x # xs) [c] = (x = c)" "hasPrefix [] [c] = False"
  by (auto simp: hasPrefix_def)

lemma hasSuffix_single: "hasSuffix s [c] \<longleftrightarrow> s \<noteq> [] \<and> last s = c"
  by (cases s rule: rev_cases) (auto simp: hasSuffix_def)

lemma trimRight_append_last:
  "trimRight (s @ [x]) cutset = (if x \<in> set cutset then trimRight s cutset else s @ [x])"
  by (simp add: trimRight_def)

lemma trimRight_nil [simp]: "trimRight [] cutset = []"
  by (simp add: trimRight_def)

section \<open>Paths\<close>

text \<open>\<^verbatim>\<open>path.Clean\<close>. The output buffer is the string \<open>out\<close>; \<open>dotdot\<close> is the length below which a parent step
  must not cut it.\<close>

text \<open>The end of the buffer after a parent step: back to the last slash at or above \<open>dotdot\<close>.\<close>

fun backtrack :: "nat \<Rightarrow> string \<Rightarrow> nat \<Rightarrow> nat" where
  "backtrack dotdot out 0 = 0"
| "backtrack dotdot out (Suc w) =
     (if w > dotdot \<and> out ! w \<noteq> CHR ''/'' then backtrack dotdot out w else w)"

definition atEnd :: "string \<Rightarrow> bool" where
  "atEnd s \<longleftrightarrow> s = [] \<or> hd s = CHR ''/''"

function cleanLoop :: "bool \<Rightarrow> string \<Rightarrow> string \<Rightarrow> nat \<Rightarrow> string" where
  "cleanLoop rooted s out dotdot =
     (if s = [] then out
      else if hd s = CHR ''/'' then cleanLoop rooted (tl s) out dotdot
      else if hd s = CHR ''.'' \<and> atEnd (tl s) then cleanLoop rooted (tl s) out dotdot
      else if take 2 s = ''..'' \<and> atEnd (drop 2 s) then
        (if length out > dotdot then cleanLoop rooted (drop 2 s) (take (backtrack dotdot out (length out)) out) dotdot
         else if \<not> rooted then
           (let out' = (if length out > 0 then out @ ''/'' else out) @ ''..'' in
            cleanLoop rooted (drop 2 s) out' (length out'))
         else cleanLoop rooted (drop 2 s) out dotdot)
      else cleanLoop rooted (dropWhile (\<lambda>c. c \<noteq> CHR ''/'') s)
        ((if rooted \<and> length out \<noteq> 1 \<or> \<not> rooted \<and> length out \<noteq> 0 then out @ ''/'' else out) @
          takeWhile (\<lambda>c. c \<noteq> CHR ''/'') s) dotdot)"
  by pat_completeness auto

lemma dropWhile_shorter: "s \<noteq> [] \<Longrightarrow> P (hd s) \<Longrightarrow> length (dropWhile P s) < length s"
  by (cases s) (auto simp: le_imp_less_Suc length_dropWhile_le)

termination cleanLoop
  by (relation "measure (\<lambda>(rooted, s, out, dotdot). length s)") (auto simp: dropWhile_shorter)

declare cleanLoop.simps [simp del]

definition clean :: "string \<Rightarrow> string" where
  "clean path =
     (if path = [] then ''.''
      else (let rooted = (hd path = CHR ''/'');
                out = (if rooted then cleanLoop True (tl path) ''/'' 1 else cleanLoop False path [] 0)
            in if out = [] then ''.'' else out))"

text \<open>\<^verbatim>\<open>filepath.Join\<close> of two elements.\<close>

definition joinPath :: "string \<Rightarrow> string \<Rightarrow> string" where
  "joinPath dir name =
     (if dir \<noteq> [] then clean (dir @ ''/'' @ name) else if name \<noteq> [] then clean name else [])"

section \<open>Errors\<close>

datatype sysErrno =
    EPERM | E2BIG | EACCES | EAGAIN | EINTR | ENOSPC | EDQUOT | ENOMEM | EMFILE | ENFILE | EFBIG
  | EOVERFLOW | EBUSY | EPIPE | EXDEV | ENOENT | ENOTEMPTY | EEXIST | EBADF | EINVAL | EISDIR
  | ENOTDIR | ELOOP | ENAMETOOLONG | EROFS | ESPIPE | ENOTSUP | ENOSYS
  | EALREADY | EDEADLK | EILSEQ | EINPROGRESS | ENODEV | ENOLCK | ENOTRECOVERABLE | ENOTTY | ENXIO
  | ETXTBSY | OtherErrno nat

datatype goerr =
    Errno sysErrno
  | ErrPermission | ErrExist | ErrNotExist | ErrClosed
  | EOF | ErrShortWrite | ErrNoProgress
  | CtxCanceled | CtxDeadlineExceeded
  | ErrPollUnsupported | ErrUnsupportedClock | ErrClockOverflow | ErrWouldBlock
  | OtherError string
  | Wrapped goerr

text \<open>\<^verbatim>\<open>errors.Is(err, target)\<close>: the chain of wrapped errors is searched for the target; a
  \<^verbatim>\<open>syscall.Errno\<close> also answers for the portable sentinels of package \<^verbatim>\<open>os\<close>.\<close>

fun errnoIs :: "sysErrno \<Rightarrow> goerr \<Rightarrow> bool" where
  "errnoIs n ErrPermission = (n = EACCES \<or> n = EPERM)"
| "errnoIs n ErrExist = (n = EEXIST \<or> n = ENOTEMPTY)"
| "errnoIs n ErrNotExist = (n = ENOENT)"
| "errnoIs n t = (t = Errno n)"

fun errorsIs :: "goerr \<Rightarrow> goerr \<Rightarrow> bool" where
  "errorsIs (Wrapped e) t = (t = Wrapped e \<or> errorsIs e t)"
| "errorsIs (Errno n) t = errnoIs n t"
| "errorsIs e t = (t = e)"

lemma errorsIs_refl [simp]: "errorsIs e e"
  by (cases e) auto

end
