(* ===== verification/Abi.thy ===== *)
theory Abi
  imports Go_Std
begin

text \<open>
  The Preview 1 binary interface of \<^verbatim>\<open>internal/core/abi.go\<close>, \<^verbatim>\<open>abi_unix.go\<close> and the constants of
  \<^verbatim>\<open>core.go\<close>: error numbers, file types, rights, the mapping of host errors to WASI error numbers
  (\<open>errno\<close>) and of file modes to WASI file types (\<open>filetype\<close>). The Linux build is modelled.
\<close>

section \<open>Error numbers\<close>

abbreviation (input) wasiOK :: u64 where "wasiOK \<equiv> 0"
abbreviation (input) wasiEBadf :: u64 where "wasiEBadf \<equiv> 8"
abbreviation (input) wasiEInval :: u64 where "wasiEInval \<equiv> 28"
abbreviation (input) wasiESpipe :: u64 where "wasiESpipe \<equiv> 70"
abbreviation (input) wasiENotsup :: u64 where "wasiENotsup \<equiv> 58"
abbreviation (input) wasiE2big :: u64 where "wasiE2big \<equiv> 1"
abbreviation (input) wasiEAcces :: u64 where "wasiEAcces \<equiv> 2"
abbreviation (input) wasiEAgain :: u64 where "wasiEAgain \<equiv> 6"
abbreviation (input) wasiEBusy :: u64 where "wasiEBusy \<equiv> 10"
abbreviation (input) wasiEDquot :: u64 where "wasiEDquot \<equiv> 19"
abbreviation (input) wasiEExist :: u64 where "wasiEExist \<equiv> 20"
abbreviation (input) wasiEFault :: u64 where "wasiEFault \<equiv> 21"
abbreviation (input) wasiEFbig :: u64 where "wasiEFbig \<equiv> 22"
abbreviation (input) wasiEIntr :: u64 where "wasiEIntr \<equiv> 27"
abbreviation (input) wasiEIo :: u64 where "wasiEIo \<equiv> 29"
abbreviation (input) wasiEIsdir :: u64 where "wasiEIsdir \<equiv> 31"
abbreviation (input) wasiELoop :: u64 where "wasiELoop \<equiv> 32"
abbreviation (input) wasiEMfile :: u64 where "wasiEMfile \<equiv> 33"
abbreviation (input) wasiENametoolong :: u64 where "wasiENametoolong \<equiv> 37"
abbreviation (input) wasiENfile :: u64 where "wasiENfile \<equiv> 41"
abbreviation (input) wasiENoent :: u64 where "wasiENoent \<equiv> 44"
abbreviation (input) wasiENomem :: u64 where "wasiENomem \<equiv> 48"
abbreviation (input) wasiENospc :: u64 where "wasiENospc \<equiv> 51"
abbreviation (input) wasiENosys :: u64 where "wasiENosys \<equiv> 52"
abbreviation (input) wasiENotdir :: u64 where "wasiENotdir \<equiv> 54"
abbreviation (input) wasiENotempty :: u64 where "wasiENotempty \<equiv> 55"
abbreviation (input) wasiENotsock :: u64 where "wasiENotsock \<equiv> 57"
abbreviation (input) wasiEOverflow :: u64 where "wasiEOverflow \<equiv> 61"
abbreviation (input) wasiEPerm :: u64 where "wasiEPerm \<equiv> 63"
abbreviation (input) wasiEPipe :: u64 where "wasiEPipe \<equiv> 64"
abbreviation (input) wasiERofs :: u64 where "wasiERofs \<equiv> 69"
abbreviation (input) wasiENotcapable :: u64 where "wasiENotcapable \<equiv> 76"
abbreviation (input) wasiEXdev :: u64 where "wasiEXdev \<equiv> 75"

abbreviation (input) maxInt64Value :: u64 where "maxInt64Value \<equiv> 0x7fffffffffffffff"

section \<open>File types\<close>

abbreviation (input) filetypeUnknown :: u8 where "filetypeUnknown \<equiv> 0"
abbreviation (input) filetypeBlockDevice :: u8 where "filetypeBlockDevice \<equiv> 1"
abbreviation (input) filetypeCharacterDevice :: u8 where "filetypeCharacterDevice \<equiv> 2"
abbreviation (input) filetypeDirectory :: u8 where "filetypeDirectory \<equiv> 3"
abbreviation (input) filetypeRegularFile :: u8 where "filetypeRegularFile \<equiv> 4"
abbreviation (input) filetypeSocketDgram :: u8 where "filetypeSocketDgram \<equiv> 5"
abbreviation (input) filetypeSocketStream :: u8 where "filetypeSocketStream \<equiv> 6"
abbreviation (input) filetypeSymlink :: u8 where "filetypeSymlink \<equiv> 7"

section \<open>Rights\<close>

abbreviation (input) rightFDDataSync :: u64 where "rightFDDataSync \<equiv> 0x1"
abbreviation (input) rightFDRead :: u64 where "rightFDRead \<equiv> 0x2"
abbreviation (input) rightFDSeek :: u64 where "rightFDSeek \<equiv> 0x4"
abbreviation (input) rightFDStatSetFlags :: u64 where "rightFDStatSetFlags \<equiv> 0x8"
abbreviation (input) rightFDSync :: u64 where "rightFDSync \<equiv> 0x10"
abbreviation (input) rightFDTell :: u64 where "rightFDTell \<equiv> 0x20"
abbreviation (input) rightFDWrite :: u64 where "rightFDWrite \<equiv> 0x40"
abbreviation (input) rightFDAdvise :: u64 where "rightFDAdvise \<equiv> 0x80"
abbreviation (input) rightFDAllocate :: u64 where "rightFDAllocate \<equiv> 0x100"
abbreviation (input) rightPathCreateDirectory :: u64 where "rightPathCreateDirectory \<equiv> 0x200"
abbreviation (input) rightPathCreateFile :: u64 where "rightPathCreateFile \<equiv> 0x400"
abbreviation (input) rightPathLinkSource :: u64 where "rightPathLinkSource \<equiv> 0x800"
abbreviation (input) rightPathLinkTarget :: u64 where "rightPathLinkTarget \<equiv> 0x1000"
abbreviation (input) rightPathOpen :: u64 where "rightPathOpen \<equiv> 0x2000"
abbreviation (input) rightFDReadDir :: u64 where "rightFDReadDir \<equiv> 0x4000"
abbreviation (input) rightPathReadlink :: u64 where "rightPathReadlink \<equiv> 0x8000"
abbreviation (input) rightPathRenameSource :: u64 where "rightPathRenameSource \<equiv> 0x10000"
abbreviation (input) rightPathRenameTarget :: u64 where "rightPathRenameTarget \<equiv> 0x20000"
abbreviation (input) rightPathFilestatGet :: u64 where "rightPathFilestatGet \<equiv> 0x40000"
abbreviation (input) rightPathFilestatSetSize :: u64 where "rightPathFilestatSetSize \<equiv> 0x80000"
abbreviation (input) rightPathFilestatSetTimes :: u64 where "rightPathFilestatSetTimes \<equiv> 0x100000"
abbreviation (input) rightFDFilestatGet :: u64 where "rightFDFilestatGet \<equiv> 0x200000"
abbreviation (input) rightFDFilestatSetSize :: u64 where "rightFDFilestatSetSize \<equiv> 0x400000"
abbreviation (input) rightFDFilestatSetTimes :: u64 where "rightFDFilestatSetTimes \<equiv> 0x800000"
abbreviation (input) rightPathSymlink :: u64 where "rightPathSymlink \<equiv> 0x1000000"
abbreviation (input) rightPathRemoveDirectory :: u64 where "rightPathRemoveDirectory \<equiv> 0x2000000"
abbreviation (input) rightPathUnlinkFile :: u64 where "rightPathUnlinkFile \<equiv> 0x4000000"
abbreviation (input) rightPollFDReadWrite :: u64 where "rightPollFDReadWrite \<equiv> 0x8000000"
abbreviation (input) rightSockShutdown :: u64 where "rightSockShutdown \<equiv> 0x10000000"

definition allRights :: u64 where
  "allRights = push_bit 29 1 - 1"

definition directoryRights :: u64 where
  "directoryRights = rightPathCreateDirectory OR rightPathCreateFile OR
     rightPathLinkSource OR rightPathLinkTarget OR rightPathOpen OR rightFDReadDir OR
     rightPathReadlink OR rightPathRenameSource OR rightPathRenameTarget OR
     rightPathFilestatGet OR rightPathFilestatSetSize OR rightPathFilestatSetTimes OR rightFDFilestatGet OR
     rightFDFilestatSetTimes OR rightPathSymlink OR rightPathRemoveDirectory OR
     rightPathUnlinkFile"

definition directoryReadRights :: u64 where
  "directoryReadRights = rightPathOpen OR rightFDReadDir OR rightPathReadlink OR
     rightPathFilestatGet OR rightFDFilestatGet OR rightPollFDReadWrite"

definition fileReadRights :: u64 where
  "fileReadRights = rightFDRead OR rightFDSeek OR rightFDTell OR rightFDAdvise OR
     rightFDFilestatGet OR rightPollFDReadWrite"

definition fileWriteRights :: u64 where
  "fileWriteRights = rightFDWrite OR rightFDDataSync OR rightFDSync OR
     rightFDStatSetFlags OR rightFDAllocate OR rightFDFilestatSetSize OR
     rightFDFilestatSetTimes OR rightPollFDReadWrite"

definition directoryMutationRights :: u64 where
  "directoryMutationRights = rightPathCreateDirectory OR rightPathCreateFile OR
     rightPathLinkSource OR rightPathLinkTarget OR rightPathRenameSource OR
     rightPathRenameTarget OR rightPathSymlink OR rightPathRemoveDirectory OR
     rightPathUnlinkFile"

lemmas rights_masks = directoryRights_def directoryReadRights_def fileReadRights_def
  fileWriteRights_def directoryMutationRights_def

section \<open>Host errors to error numbers\<close>

definition platformErrno :: "goerr \<Rightarrow> u64 option" where
  "platformErrno err =
     (if errorsIs err (Errno ENOTSUP) then Some wasiENotsup
      else if errorsIs err (Errno ENOSYS) then Some wasiENosys
      else None)"

definition errno :: "goerr option \<Rightarrow> u64" where
  "errno e = (case e of None \<Rightarrow> wasiOK | Some err \<Rightarrow>
     (case platformErrno err of Some code \<Rightarrow> code | None \<Rightarrow>
       if errorsIs err (Errno EPERM) then wasiEPerm
       else if errorsIs err (Errno E2BIG) then wasiE2big
       else if errorsIs err ErrPermission \<or> errorsIs err (Errno EACCES) then wasiEAcces
       else if errorsIs err (Errno EAGAIN) then wasiEAgain
       else if errorsIs err (Errno EINTR) then wasiEIntr
       else if errorsIs err (Errno ENOSPC) then wasiENospc
       else if errorsIs err (Errno EDQUOT) then wasiEDquot
       else if errorsIs err (Errno ENOMEM) then wasiENomem
       else if errorsIs err (Errno EMFILE) then wasiEMfile
       else if errorsIs err (Errno ENFILE) then wasiENfile
       else if errorsIs err (Errno EFBIG) then wasiEFbig
       else if errorsIs err (Errno EOVERFLOW) then wasiEOverflow
       else if errorsIs err (Errno EBUSY) then wasiEBusy
       else if errorsIs err (Errno EPIPE) then wasiEPipe
       else if errorsIs err (Errno EXDEV) then wasiEXdev
       else if errorsIs err ErrNotExist \<or> errorsIs err (Errno ENOENT) then wasiENoent
       else if errorsIs err (Errno ENOTEMPTY) then wasiENotempty
       else if errorsIs err ErrExist \<or> errorsIs err (Errno EEXIST) then wasiEExist
       else if errorsIs err (Errno EBADF) then wasiEBadf
       else if errorsIs err (Errno EINVAL) then wasiEInval
       else if errorsIs err (Errno EISDIR) then wasiEIsdir
       else if errorsIs err (Errno ENOTDIR) then wasiENotdir
       else if errorsIs err (Errno ELOOP) then wasiELoop
       else if errorsIs err (Errno ENAMETOOLONG) then wasiENametoolong
       else if errorsIs err (Errno EROFS) then wasiERofs
       else if errorsIs err (Errno ESPIPE) then wasiESpipe
       else wasiEIo))"

definition capabilityErr :: "goerr \<Rightarrow> u64" where
  "capabilityErr err = (if errorsIs err (Errno EXDEV) then wasiENotcapable else errno (Some err))"

section \<open>File information\<close>

text \<open>\<^verbatim>\<open>os.FileInfo\<close> as the code reads it: the mode bits of \<^verbatim>\<open>io/fs\<close>, the size (an \<^verbatim>\<open>int64\<close>), the
  modification time in nanoseconds since the epoch and, when the host supplies it, the fields of
  \<^verbatim>\<open>syscall.Stat_t\<close>. 64-bit signed fields are words in two's complement.\<close>

type_synonym time = int

record stat_t =
  st_dev :: u64
  st_ino :: u64
  st_nlink :: u64
  st_atim_sec :: u64
  st_atim_nsec :: u64
  st_ctim_sec :: u64
  st_ctim_nsec :: u64

record finfo =
  fi_mode :: u32
  fi_size :: u64
  fi_mtime :: time
  fi_sys :: "stat_t option"

abbreviation (input) modeDir :: u32 where "modeDir \<equiv> 0x80000000"
abbreviation (input) modeSymlink :: u32 where "modeSymlink \<equiv> 0x08000000"
abbreviation (input) modeDevice :: u32 where "modeDevice \<equiv> 0x04000000"
abbreviation (input) modeNamedPipe :: u32 where "modeNamedPipe \<equiv> 0x02000000"
abbreviation (input) modeSocket :: u32 where "modeSocket \<equiv> 0x01000000"
abbreviation (input) modeCharDevice :: u32 where "modeCharDevice \<equiv> 0x00200000"
abbreviation (input) modeIrregular :: u32 where "modeIrregular \<equiv> 0x00080000"

definition isDir :: "finfo \<Rightarrow> bool" where
  "isDir info = (fi_mode info AND modeDir \<noteq> 0)"

definition isRegular :: "finfo \<Rightarrow> bool" where
  "isRegular info = (fi_mode info AND (modeDir OR modeSymlink OR modeNamedPipe OR modeSocket OR
     modeDevice OR modeCharDevice OR modeIrregular) = 0)"

definition filetype :: "finfo \<Rightarrow> u8" where
  "filetype info =
     (if isDir info then filetypeDirectory
      else if isRegular info then filetypeRegularFile
      else if fi_mode info AND modeSymlink \<noteq> 0 then filetypeSymlink
      else if fi_mode info AND modeCharDevice \<noteq> 0 then filetypeCharacterDevice
      else if fi_mode info AND modeDevice \<noteq> 0 then filetypeBlockDevice
      else if fi_mode info AND modeSocket \<noteq> 0 then filetypeSocketStream
      else filetypeUnknown)"

section \<open>Properties\<close>

lemma errno_None [simp]: "errno None = 0"
  by (simp add: errno_def)

lemma errno_Some_nonzero [simp]: "errno (Some e) \<noteq> 0"
  by (simp add: errno_def platformErrno_def)

lemma errno_eq_zero_iff [simp]: "errno e = 0 \<longleftrightarrow> e = None"
  by (cases e) simp_all

lemma capabilityErr_nonzero [simp]: "capabilityErr e \<noteq> 0"
  by (simp add: capabilityErr_def)

lemma directory_not_regular: "isDir info \<Longrightarrow> \<not> isRegular info"
proof
  assume "isDir info" "isRegular info"
  then have "fi_mode info AND modeDir \<noteq> 0" "(fi_mode info AND 0x8f280000) AND modeDir = 0"
    by (simp_all add: isDir_def isRegular_def)
  then show False by (simp add: and.assoc)
qed

end
