(* ===== verification/Wasi_State.thy ===== *)
theory Wasi_State
  imports Abi
begin

text \<open>
  The state a Preview 1 host call works on, and its interface to the host.

  The host (kernel, \<^verbatim>\<open>golang.org/x/sys/unix\<close>, the file methods of package \<^verbatim>\<open>os\<close>, configured streams,
  clocks and randomness) is not part of the repository: it is a parameter
  \<open>H :: hostcall \<Rightarrow> 'w \<Rightarrow> hostres \<times> 'w\<close> over an arbitrary world \<^typ>\<open>'w\<close>, asked one
  \<open>hostcall\<close> at a time. Three fields of the state record what a proof needs to know about those
  calls and the code does not store: \<open>s_log\<close> is the sequence of host calls made so far, \<open>s_live\<close> the
  set of open file objects and \<open>s_panic\<close> is set when a slice expression of the Go code is out of range,
  where Go would panic. A loop that ends only when the host lets it (retrying an interrupted system
  call, waiting in \<^verbatim>\<open>poll_oneoff\<close>) makes at most \<open>s_fuel\<close> rounds and sets \<open>s_stuck\<close> when they are used up.
\<close>

section \<open>Host calls\<close>

text \<open>A file object is an \<^verbatim>\<open>*os.File\<close> or a raw descriptor. It is named by the capability root it was
  reached from (0: a configured stream, \<open>Suc i\<close>: the \<open>i\<close>-th preopen) and a serial number that is not
  reused.\<close>

type_synonym fileid = "nat \<times> nat"

text \<open>A configured \<^verbatim>\<open>io.Reader\<close> or \<^verbatim>\<open>io.Writer\<close>: nil, an \<^verbatim>\<open>*os.File\<close>, or another implementation, with
  what the type assertions of \<^verbatim>\<open>poll.go\<close> find out about it (does it implement \<^verbatim>\<open>Pollable\<close>, has it a
  \<^verbatim>\<open>Bytes\<close> method).\<close>

datatype stream = NilStream | OsFile fileid | CustomStream nat (isPollable: bool) (hasBytes: bool)

text \<open>A \<^verbatim>\<open>ClockSource\<close>: the system clock of \<^verbatim>\<open>clock.go\<close> or another implementation.\<close>

datatype clockSource = SystemClock | CustomClock nat

record dirent =
  de_name :: string

text \<open>One constructor per host operation the Linux build of \<^verbatim>\<open>internal/core\<close> performs. The last
  argument of the opening operations is the number of the file object that a successful result is
  bound to.\<close>

datatype hostcall =
    HStat fileid
  | HClose fileid
  | HRead fileid nat
  | HWrite fileid bytes
  | HReadAt fileid nat u64
  | HSeek fileid u64 nat
  | HSync fileid
  | HTruncate fileid u64
  | HReadDir fileid nat
  | HStreamRead nat nat
  | HStreamWrite nat bytes
  | HSysRead fileid nat
  | HSysWrite fileid bytes
  | HPwrite fileid bytes u64
  | HOsOpen string fileid
  | HGetwd
  | HOpenat2 fileid string u64 u64 u64 fileid
  | HOpenat fileid string u64 u64 fileid
  | HDup fileid fileid
  | HReadlinkat fileid string nat
  | HMkdirat fileid string u32
  | HLinkat fileid string fileid string
  | HUnlinkat fileid string bool
  | HRenameat fileid string fileid string
  | HSymlinkat string fileid string
  | HUtimes fileid string time time bool
  | HGetfl fileid
  | HSetfl fileid u64
  | HFallocate fileid u64 u64
  | HClock nat nat
  | HNow
  | HSince
  | HMonoNow
  | HRandom "nat option" nat
  | HFstat fileid
  | HPollFile fileid u8
  | HStreamReady nat u8
  | HWait "stream list" "u64 option"
  | HPause u64

datatype hostres =
    ROk
  | RErr goerr
  | RInfo finfo
  | RIO bytes int "goerr option"
  | RInt u64
  | RDir "dirent list" "goerr option"
  | RStr string
  | RBool bool
  | RClock u64 u64 "goerr option"

type_synonym 'w host = "hostcall \<Rightarrow> 'w \<Rightarrow> hostres \<times> 'w"

text \<open>A reply of the wrong shape cannot come from the host; it reads as an error.\<close>

definition badReply :: goerr where
  "badReply = OtherError ''bad reply''"

fun asErr :: "hostres \<Rightarrow> goerr option" where
  "asErr ROk = None"
| "asErr (RErr e) = Some e"
| "asErr _ = Some badReply"

fun asInfo :: "hostres \<Rightarrow> goerr + finfo" where
  "asInfo (RInfo i) = Inr i"
| "asInfo (RErr e) = Inl e"
| "asInfo _ = Inl badReply"

fun asInt :: "hostres \<Rightarrow> goerr + u64" where
  "asInt (RInt i) = Inr i"
| "asInt (RErr e) = Inl e"
| "asInt _ = Inl badReply"

fun asStr :: "hostres \<Rightarrow> goerr + string" where
  "asStr (RStr i) = Inr i"
| "asStr (RErr e) = Inl e"
| "asStr _ = Inl badReply"

text \<open>The result \<open>(n, err)\<close> of a Read or Write method with the bytes the buffer holds afterwards.\<close>

fun asIO :: "hostres \<Rightarrow> bytes \<times> int \<times> goerr option" where
  "asIO (RIO b n e) = (b, n, e)"
| "asIO (RErr e) = ([], 0, Some e)"
| "asIO _ = ([], 0, Some badReply)"

fun asDir :: "hostres \<Rightarrow> dirent list \<times> goerr option" where
  "asDir (RDir d e) = (d, e)"
| "asDir (RErr e) = ([], Some e)"
| "asDir _ = ([], Some badReply)"

fun asBool :: "hostres \<Rightarrow> bool" where
  "asBool (RBool b) = b"
| "asBool _ = False"

fun asClock :: "hostres \<Rightarrow> u64 \<times> u64 \<times> goerr option" where
  "asClock (RClock n r e) = (n, r, e)"
| "asClock (RErr e) = (0, 0, Some e)"
| "asClock _ = (0, 0, Some badReply)"

section \<open>Flags of the Linux build\<close>

abbreviation (input) O_WRONLY :: u64 where "O_WRONLY \<equiv> 1"
abbreviation (input) O_RDWR :: u64 where "O_RDWR \<equiv> 2"
abbreviation (input) O_ACCMODE :: u64 where "O_ACCMODE \<equiv> 3"
abbreviation (input) O_CREAT :: u64 where "O_CREAT \<equiv> 0x40"
abbreviation (input) O_EXCL :: u64 where "O_EXCL \<equiv> 0x80"
abbreviation (input) O_TRUNC :: u64 where "O_TRUNC \<equiv> 0x200"
abbreviation (input) O_APPEND :: u64 where "O_APPEND \<equiv> 0x400"
abbreviation (input) O_NONBLOCK :: u64 where "O_NONBLOCK \<equiv> 0x800"
abbreviation (input) O_DIRECTORY :: u64 where "O_DIRECTORY \<equiv> 0x10000"
abbreviation (input) O_NOFOLLOW :: u64 where "O_NOFOLLOW \<equiv> 0x20000"
abbreviation (input) O_CLOEXEC :: u64 where "O_CLOEXEC \<equiv> 0x80000"
abbreviation (input) O_PATH :: u64 where "O_PATH \<equiv> 0x200000"

text \<open>\<^verbatim>\<open>RESOLVE_BENEATH | RESOLVE_NO_MAGICLINKS\<close>.\<close>

definition secureResolve :: u64 where
  "secureResolve = 0x8 OR 0x2"

section \<open>Configuration and descriptor table\<close>

record preopen =
  GuestPath :: string
  HostPath :: string
  Read :: bool
  Write :: bool
  MutateDirectory :: bool

record config =
  c_Stdout :: stream
  c_Stderr :: stream
  c_Stdin :: stream
  c_Args :: "string list"
  c_Env :: "string list"
  c_Clocks :: "clockSource option"
  c_Context :: "nat option"
  c_Rand :: "nat option"
  c_Mounts :: "preopen list"
  c_MaxOpenFiles :: u32
  c_MaxIOVecs :: u32
  c_MaxSubscriptionsPerPoll :: u32

record fdEntry =
  e_file :: "fileid option"
  e_reader :: stream
  e_writer :: stream
  e_mount :: string
  e_root :: string
  e_preopen :: string
  e_flags :: u16
  e_rights :: u64
  e_inheriting :: u64
  e_dirIter :: "fileid option"
  e_dirCookie :: u64
  e_dirIssued :: u64

definition nilEntry :: fdEntry where
  "nilEntry = \<lparr>e_file = None, e_reader = NilStream, e_writer = NilStream, e_mount = [], e_root = [],
     e_preopen = [], e_flags = 0, e_rights = 0, e_inheriting = 0, e_dirIter = None, e_dirCookie = 0,
     e_dirIssued = 0\<rparr>"

record fsState =
  fs_fds :: "(u32 \<times> fdEntry) list"
  fs_nextFD :: u32
  fs_maxFDs :: u32
  fs_cancelled :: bool
  fs_closed :: bool

record 'w st =
  s_mem :: bytes
  s_fs :: fsState
  s_world :: 'w
  s_log :: "hostcall list"
  s_live :: "fileid set"
  s_next :: nat
  s_panic :: bool
  s_fuel :: nat
  s_stuck :: bool

abbreviation fds :: "'w st \<Rightarrow> (u32 \<times> fdEntry) list" where
  "fds s \<equiv> fs_fds (s_fs s)"

section \<open>Primitive steps\<close>

definition hostCall :: "'w host \<Rightarrow> hostcall \<Rightarrow> ('w st, hostres) state" where
  "hostCall H c = State (\<lambda>s. case H c (s_world s) of
     (r, w) \<Rightarrow> (r, s\<lparr>s_world := w, s_log := s_log s @ [c]\<rparr>))"

definition hostOpen :: "'w host \<Rightarrow> nat \<Rightarrow> (fileid \<Rightarrow> hostcall) \<Rightarrow> ('w st, goerr + fileid) state" where
  "hostOpen H root mk = do {
     n \<leftarrow> gets s_next;
     r \<leftarrow> hostCall H (mk (root, n));
     case asErr r of
       Some e \<Rightarrow> ret (Inl e)
     | None \<Rightarrow> do {
         modify (\<lambda>s. s\<lparr>s_live := insert (root, n) (s_live s), s_next := Suc n\<rparr>);
         ret (Inr (root, n)) } }"

definition hostClose :: "'w host \<Rightarrow> fileid \<Rightarrow> ('w st, goerr option) state" where
  "hostClose H f = do {
     r \<leftarrow> hostCall H (HClose f);
     modify (\<lambda>s. s\<lparr>s_live := s_live s - {f}\<rparr>);
     ret (asErr r) }"

text \<open>\<^verbatim>\<open>(*os.File).ReadDir(n)\<close> returns at most \<open>n\<close> entries.\<close>

definition hostReadDir :: "'w host \<Rightarrow> fileid \<Rightarrow> nat \<Rightarrow> ('w st, dirent list \<times> goerr option) state" where
  "hostReadDir H f n = do {
     r \<leftarrow> hostCall H (HReadDir f n);
     ret (case asDir r of (es, e) \<Rightarrow> (take n es, e)) }"

definition stuck :: "('w st, unit) state" where
  "stuck = modify (\<lambda>s. s\<lparr>s_stuck := True\<rparr>)"

definition hostStat :: "'w host \<Rightarrow> fileid \<Rightarrow> ('w st, goerr + finfo) state" where
  "hostStat H f = do { r \<leftarrow> hostCall H (HStat f); ret (asInfo r) }"

text \<open>\<^verbatim>\<open>copy(mem[off:], bs)\<close> and the \<^verbatim>\<open>Put\<close> functions of \<^verbatim>\<open>encoding/binary\<close>.\<close>

definition memStore :: "nat \<Rightarrow> bytes \<Rightarrow> ('w st, unit) state" where
  "memStore off bs = modify (\<lambda>s.
     if off + length bs \<le> length (s_mem s) then s\<lparr>s_mem := mem_put off bs (s_mem s)\<rparr>
     else s\<lparr>s_panic := True\<rparr>)"

definition memLoad :: "nat \<Rightarrow> nat \<Rightarrow> ('w st, bytes) state" where
  "memLoad off n = State (\<lambda>s.
     if off + n \<le> length (s_mem s) then (mem_slice off n (s_mem s), s)
     else (replicate n 0, s\<lparr>s_panic := True\<rparr>))"

text \<open>\<^verbatim>\<open>Plugin.entry\<close>, and the assignment of fields of an entry through its pointer.\<close>

definition entry :: "u32 \<Rightarrow> ('w st, u64 + fdEntry) state" where
  "entry fd = gets (\<lambda>s. case map_of (fds s) fd of None \<Rightarrow> Inl wasiEBadf | Some f \<Rightarrow> Inr f)"

definition putEntry :: "u32 \<Rightarrow> fdEntry \<Rightarrow> ('w st, unit) state" where
  "putEntry fd f = modify (\<lambda>s.
     if map_of (fds s) fd = None then s
     else s\<lparr>s_fs := (s_fs s)\<lparr>fs_fds := AList.update fd f (fds s)\<rparr>\<rparr>)"

definition deleteEntry :: "u32 \<Rightarrow> ('w st, unit) state" where
  "deleteEntry fd = modify (\<lambda>s. s\<lparr>s_fs := (s_fs s)\<lparr>fs_fds := AList.delete fd (fds s)\<rparr>\<rparr>)"

definition require :: "fdEntry \<Rightarrow> u64 \<Rightarrow> u64" where
  "require f right = (if e_rights f AND right \<noteq> right then wasiENotcapable else wasiOK)"

text \<open>The two checks that open most handlers: \<^verbatim>\<open>f, code := e.entry(fd); if code == 0 { code = require(f, right) }\<close>.\<close>

definition entryRight :: "u32 \<Rightarrow> u64 \<Rightarrow> ('w st, u64 + fdEntry) state" where
  "entryRight fd right = do {
     r \<leftarrow> entry fd;
     ret (case r of
         Inl code \<Rightarrow> Inl code
       | Inr f \<Rightarrow> (if require f right \<noteq> wasiOK then Inl (require f right) else Inr f)) }"

abbreviation arg32 :: "u64 list \<Rightarrow> nat \<Rightarrow> u32" where
  "arg32 p i \<equiv> ucast (p ! i)"

lemma require_ok [simp]: "require f right = 0 \<longleftrightarrow> e_rights f AND right = right"
  by (simp add: require_def)

section \<open>Triples\<close>

text \<open>\<open>triple P m Q R\<close>: started in a state that satisfies \<open>P\<close>, the program \<open>m\<close> ends with a value \<open>r\<close>
  that satisfies \<open>R\<close> in a state that satisfies \<open>Q r\<close>. The rules of the collection \<open>vcg\<close> follow the shape
  of a handler; a component adds the specifications of its own operations.\<close>

definition triple :: "('s \<Rightarrow> bool) \<Rightarrow> ('s, 'a) state \<Rightarrow> ('a \<Rightarrow> 's \<Rightarrow> bool) \<Rightarrow> ('a \<Rightarrow> bool) \<Rightarrow> bool" where
  "triple P m Q R \<longleftrightarrow> (\<forall>s. P s \<longrightarrow> wp m (\<lambda>r t. Q r t \<and> R r) s)"

named_theorems vcg \<open>structural rules of triples and specifications of operations\<close>

lemma tripleD: "triple P m Q R \<Longrightarrow> P s \<Longrightarrow> run_state m s = (r, t) \<Longrightarrow> Q r t \<and> R r"
  by (auto simp: triple_def wp_def)

lemma triple_runD:
  "triple P m Q R \<Longrightarrow> P s \<Longrightarrow> Q (fst (run_state m s)) (snd (run_state m s)) \<and> R (fst (run_state m s))"
  by (auto simp: triple_def wp_run)

lemma triple_return: "R a \<Longrightarrow> (\<And>s. P s \<Longrightarrow> Q a s) \<Longrightarrow> triple P (ret a) Q R"
  by (simp add: triple_def wp_simps)

lemma triple_bind [vcg]:
  "triple P m Q' R' \<Longrightarrow> (\<And>a. R' a \<Longrightarrow> triple (Q' a) (f a) Q R) \<Longrightarrow> triple P (m \<bind> f) Q R"
  by (fastforce simp: triple_def wp_simps elim: wp_mono)

lemma triple_if [vcg]:
  "(b \<Longrightarrow> triple P m Q R) \<Longrightarrow> (\<not> b \<Longrightarrow> triple P n Q R) \<Longrightarrow> triple P (if b then m else n) Q R"
  by simp

lemma triple_let [vcg]: "(\<And>x. x = t \<Longrightarrow> triple P (f x) Q R) \<Longrightarrow> triple P (let x = t in f x) Q R"
  by simp

lemma triple_case_option [vcg]:
  "(x = None \<Longrightarrow> triple P m Q R) \<Longrightarrow> (\<And>a. x = Some a \<Longrightarrow> triple P (f a) Q R) \<Longrightarrow>
     triple P (case x of None \<Rightarrow> m | Some a \<Rightarrow> f a) Q R"
  by (cases x) auto

lemma triple_case_sum [vcg]:
  "(\<And>e. x = Inl e \<Longrightarrow> triple P (f e) Q R) \<Longrightarrow> (\<And>a. x = Inr a \<Longrightarrow> triple P (g a) Q R) \<Longrightarrow>
     triple P (case x of Inl e \<Rightarrow> f e | Inr a \<Rightarrow> g a) Q R"
  by (cases x) auto

lemma triple_case_prod [vcg]:
  "(\<And>a b. x = (a, b) \<Longrightarrow> triple P (f a b) Q R) \<Longrightarrow> triple P (case x of (a, b) \<Rightarrow> f a b) Q R"
  by (cases x) auto

lemma triple_weaken:
  "triple P m Q R \<Longrightarrow> (\<And>r. R r \<Longrightarrow> R' r) \<Longrightarrow> (\<And>r t. R r \<Longrightarrow> Q r t \<Longrightarrow> Q' r t) \<Longrightarrow> triple P m Q' R'"
  by (fastforce simp: triple_def elim: wp_mono)

lemma triple_wp: "(\<And>s. P s \<Longrightarrow> wp m (\<lambda>r t. Q r t \<and> R r) s) \<Longrightarrow> triple P m Q R"
  by (simp add: triple_def)

lemma wp_hostCall [wp_simps]:
  "wp (hostCall H c) Q s =
     (case H c (s_world s) of (r, w) \<Rightarrow> Q r (s\<lparr>s_world := w, s_log := s_log s @ [c]\<rparr>))"
  by (simp add: wp_def hostCall_def split: prod.splits)

lemma wp_memStore [wp_simps]:
  "wp (memStore off bs) Q s =
     (if off + length bs \<le> length (s_mem s) then Q () (s\<lparr>s_mem := mem_put off bs (s_mem s)\<rparr>)
      else Q () (s\<lparr>s_panic := True\<rparr>))"
  by (simp add: memStore_def wp_simps)

lemma wp_memLoad [wp_simps]:
  "wp (memLoad off n) Q s =
     (if off + n \<le> length (s_mem s) then Q (mem_slice off n (s_mem s)) s
      else Q (replicate n 0) (s\<lparr>s_panic := True\<rparr>))"
  by (simp add: memLoad_def wp_def)

lemma wp_entry [wp_simps]:
  "wp (entry fd) Q s = Q (case map_of (fds s) fd of None \<Rightarrow> Inl wasiEBadf | Some f \<Rightarrow> Inr f) s"
  by (simp add: entry_def wp_simps)

lemma run_hostCall [simp]:
  "run_state (hostCall H c) s =
     (fst (H c (s_world s)), s\<lparr>s_world := snd (H c (s_world s)), s_log := s_log s @ [c]\<rparr>)"
  by (simp add: hostCall_def split: prod.splits)

lemma run_entry [simp]:
  "run_state (entry fd) s = (case map_of (fds s) fd of None \<Rightarrow> Inl wasiEBadf | Some f \<Rightarrow> Inr f, s)"
  by (simp add: entry_def)

lemma run_entryRight:
  "run_state (entryRight fd right) s =
     (case map_of (fds s) fd of None \<Rightarrow> Inl wasiEBadf
      | Some f \<Rightarrow> (if e_rights f AND right = right then Inr f else Inl wasiENotcapable), s)"
  by (auto simp: entryRight_def require_def split: option.splits)

end
