(* ===== verification/Guest_Memory.thy ===== *)
theory Guest_Memory
  imports Wasi_State
begin

text \<open>
  Bounds-checked access to guest memory: the memory helpers of \<^verbatim>\<open>internal/core/core.go\<close>
  (\<open>le32\<close>, \<open>putLe32\<close>, \<open>putLe64\<close>, \<open>validMemoryRange\<close>, \<open>writeCounts\<close>, \<open>writeStrings\<close>) and of \<^verbatim>\<open>fs.go\<close>
  (\<open>guestBytes\<close>, \<open>iovecs\<close>, \<open>writeFilestat\<close>). A Go slice \<^verbatim>\<open>mem[a:a+n]\<close> that aliases guest memory is the
  pair \<open>(a, n)\<close>. Every access goes through \<open>memLoad\<close> and \<open>memStore\<close>, which record a panic when Go's
  bounds check would fail.
\<close>

definition validMemoryRange :: "bytes \<Rightarrow> u32 \<Rightarrow> u32 \<Rightarrow> bool" where
  "validMemoryRange mem off sz \<longleftrightarrow> (ucast off :: u64) + ucast sz \<le> of_nat (length mem)"

definition le32 :: "u32 \<Rightarrow> ('w st, u32 option) state" where
  "le32 off = do {
     mem \<leftarrow> gets s_mem;
     if \<not> validMemoryRange mem off 4 then ret None
     else do { b \<leftarrow> memLoad (unat off) 4; ret (Some (le_word b)) } }"

definition putLe32 :: "u32 \<Rightarrow> u32 \<Rightarrow> ('w st, bool) state" where
  "putLe32 off v = do {
     mem \<leftarrow> gets s_mem;
     if \<not> validMemoryRange mem off 4 then ret False
     else do { memStore (unat off) (le_bytes 4 v); ret True } }"

definition putLe64 :: "u32 \<Rightarrow> u64 \<Rightarrow> ('w st, bool) state" where
  "putLe64 off v = do {
     mem \<leftarrow> gets s_mem;
     if \<not> validMemoryRange mem off 8 then ret False
     else do { memStore (unat off) (le_bytes 8 v); ret True } }"

definition guestBytes :: "u32 \<Rightarrow> u32 \<Rightarrow> ('w st, string \<times> u64) state" where
  "guestBytes ptr n = do {
     mem \<leftarrow> gets s_mem;
     if (ucast ptr :: u64) + ucast n > of_nat (length mem) then ret ([], wasiEFault)
     else do {
       b \<leftarrow> memLoad (unat ptr) (unat n);
       if indexByte (bytes_string b) (CHR 0x00) \<noteq> None then ret ([], wasiEInval)
       else ret (bytes_string b, wasiOK) } }"

section \<open>Argument and environment lists\<close>

definition writeCounts :: "u32 \<Rightarrow> u32 \<Rightarrow> string list \<Rightarrow> ('w st, u64) state" where
  "writeCounts countPtr sizePtr items = do {
     let total = foldl (\<lambda>t s. t + (length s + 1)) 0 items;
     ok \<leftarrow> putLe32 countPtr (of_nat (length items));
     if \<not> ok then ret wasiEFault
     else do {
       ok \<leftarrow> putLe32 sizePtr (of_nat total);
       if \<not> ok then ret wasiEFault else ret wasiOK } }"

fun writeStringsLoop :: "u32 \<Rightarrow> nat \<Rightarrow> u64 \<Rightarrow> string list \<Rightarrow> ('w st, u64) state" where
  "writeStringsLoop ptrArray i cur [] = ret wasiOK"
| "writeStringsLoop ptrArray i cur (s # items) = do {
     mem \<leftarrow> gets s_mem;
     let entry = (ucast ptrArray :: u64) + of_nat i * 4;
     if entry + 4 > of_nat (length mem) \<or> cur + of_nat (length s) + 1 > of_nat (length mem) \<or>
        cur > ucast (NOT 0 :: u32)
     then ret wasiEFault
     else do {
       memStore (unat entry) (le_bytes 4 (ucast cur :: u32));
       memStore (unat cur) (string_bytes s);
       memStore (unat (cur + of_nat (length s))) [0];
       writeStringsLoop ptrArray (Suc i) (cur + (of_nat (length s) + 1)) items } }"

definition writeStrings :: "u32 \<Rightarrow> u32 \<Rightarrow> string list \<Rightarrow> ('w st, u64) state" where
  "writeStrings ptrArray buf items = writeStringsLoop ptrArray 0 (ucast buf) items"

section \<open>I/O vectors\<close>

fun iovecsLoop :: "u32 \<Rightarrow> u64 \<Rightarrow> (nat \<times> nat) list \<Rightarrow> u32 list \<Rightarrow> ('w st, (nat \<times> nat) list \<times> u64) state" where
  "iovecsLoop ptr tot bufs [] = ret (bufs, wasiOK)"
| "iovecsLoop ptr tot bufs (i # is) = do {
     mem \<leftarrow> gets s_mem;
     b \<leftarrow> memLoad (unat (ptr + i * 8)) 4;
     let base = (le_word b :: u32);
     b \<leftarrow> memLoad (unat (ptr + i * 8 + 4)) 4;
     let n = (le_word b :: u32);
     if (ucast base :: u64) + ucast n > of_nat (length mem) then ret ([], wasiEFault)
     else do {
       let tot = tot + ucast n;
       if tot > ucast (NOT 0 :: u32) then ret ([], wasiEOverflow)
       else iovecsLoop ptr tot (bufs @ [(unat base, unat n)]) is } }"

definition iovecs :: "config \<Rightarrow> u32 \<Rightarrow> u32 \<Rightarrow> ('w st, (nat \<times> nat) list \<times> u64) state" where
  "iovecs cfg ptr count = do {
     mem \<leftarrow> gets s_mem;
     if count > c_MaxIOVecs cfg then ret ([], wasiENomem)
     else if (ucast ptr :: u64) + ucast count * 8 > of_nat (length mem) then ret ([], wasiEFault)
     else iovecsLoop ptr 0 [] (map of_nat [0..<unat count]) }"

section \<open>File metadata\<close>

text \<open>\<^verbatim>\<open>UnixNano\<close> and the conversions between \<^verbatim>\<open>int64\<close> and \<^verbatim>\<open>uint64\<close> are two's complement.\<close>

definition unixNano :: "time \<Rightarrow> u64" where
  "unixNano t = word_of_int t"

definition hostFileStat :: "finfo \<Rightarrow> u64 \<times> u64 \<times> u64 \<times> u64 \<times> u64" where
  "hostFileStat info = (case fi_sys info of
      None \<Rightarrow> (1, 1, 1, unixNano (fi_mtime info), unixNano (fi_mtime info))
    | Some st \<Rightarrow> (st_dev st, st_ino st, st_nlink st,
        st_atim_sec st * 1000000000 + st_atim_nsec st,
        st_ctim_sec st * 1000000000 + st_ctim_nsec st))"

definition hostInode :: "finfo \<Rightarrow> u64" where
  "hostInode info = (case fi_sys info of Some st \<Rightarrow> st_ino st | None \<Rightarrow> 0)"

definition writeFilestat :: "u32 \<Rightarrow> finfo \<Rightarrow> ('w st, u64) state" where
  "writeFilestat ptr info = do {
     mem \<leftarrow> gets s_mem;
     if (ucast ptr :: u64) + 64 > of_nat (length mem) then ret wasiEFault
     else do {
       let b = unat ptr;
       memStore b (replicate 64 0);
       let (dev, ino, nlink, atim, ctim) = hostFileStat info;
       memStore b (le_bytes 8 dev);
       memStore (b + 8) (le_bytes 8 ino);
       memStore (b + 16) [filetype info];
       memStore (b + 24) (le_bytes 8 nlink);
       memStore (b + 32) (le_bytes 8 (fi_size info));
       memStore (b + 40) (le_bytes 8 atim);
       memStore (b + 48) (le_bytes 8 (unixNano (fi_mtime info)));
       memStore (b + 56) (le_bytes 8 ctim);
       ret wasiOK } }"

section \<open>Bounds\<close>

text \<open>A 32-bit guest memory has at most \<open>2 ^ 32\<close> bytes, so the 64-bit comparisons of the code are exact.\<close>

lemma u64_of_nat_le: "n < 2 ^ 63 \<Longrightarrow> m < 2 ^ 63 \<Longrightarrow> (of_nat m :: u64) \<le> of_nat n \<longleftrightarrow> m \<le> n"
  by (simp add: word_le_nat_alt unat_of_nat)

lemma unat_add_of_nat: "unat (a :: u64) + n < 2 ^ 64 \<Longrightarrow> unat (a + of_nat n) = unat a + n"
  by (simp add: unat_word_ariths unat_of_nat)

lemma unat_max_u32 [simp]: "unat (- 1 :: u32) = 4294967295"
  by (simp add: unsigned_minus_1_eq_mask mask_eq_exp_minus_1)

lemma ucast_u32_of_nat: "(ucast (a :: u32) :: u64) = of_nat (unat a)"
  by simp

lemma validMemoryRange_iff:
  "length mem \<le> 4294967296 \<Longrightarrow> validMemoryRange mem off sz \<longleftrightarrow> unat off + unat sz \<le> length mem"
  by (simp add: validMemoryRange_def ucast_u32_u64_sum_le)

lemma range_check_iff:
  "length mem \<le> 4294967296 \<Longrightarrow>
     (ucast (off :: u32) :: u64) + ucast (sz :: u32) > of_nat (length mem) \<longleftrightarrow>
     unat off + unat sz > length mem"
  by (simp add: ucast_u32_u64_sum_le not_le [symmetric] del: not_le)

lemma range_check_scaled:
  fixes off cnt :: u32
  assumes "length mem \<le> 4294967296" and "k < 4294967296"
  shows "(ucast off :: u64) + ucast cnt * of_nat k > of_nat (length mem) \<longleftrightarrow>
     unat off + unat cnt * k > length mem"
proof -
  have c: "unat cnt \<le> 4294967295" and o: "unat off \<le> 4294967295"
    using unat_u32_bound [of cnt] unat_u32_bound [of off] by linarith+
  have "unat cnt * k \<le> 4294967295 * 4294967295"
    using assms c by (intro mult_le_mono) simp_all
  with o have "unat off + unat cnt * k < 2 ^ 64" by simp
  then have "unat ((ucast off :: u64) + ucast cnt * of_nat k) = unat off + unat cnt * k"
    by (simp add: ucast_u32_of_nat unat_of_nat flip: of_nat_add of_nat_mult del: of_nat_unat)
  then show ?thesis
    using assms by (simp add: word_less_nat_alt unat_of_nat)
qed

text \<open>The same facts for a memory of \<open>N\<close> bytes, as rewrite rules.\<close>

lemma range_le_N:
  "N \<le> 4294967296 \<Longrightarrow> (ucast (off :: u32) :: u64) + ucast (sz :: u32) \<le> of_nat N \<longleftrightarrow> unat off + unat sz \<le> N"
  by (simp add: ucast_u32_u64_sum_le)

lemma range_less_N:
  "N \<le> 4294967296 \<Longrightarrow> of_nat N < (ucast (off :: u32) :: u64) + ucast (sz :: u32) \<longleftrightarrow> N < unat off + unat sz"
  by (simp add: range_le_N not_le [symmetric] del: not_le)

lemma range_nat_le_N:
  assumes "N \<le> 4294967296" and "k \<le> 4294967296"
  shows "(ucast (off :: u32) :: u64) + of_nat k \<le> of_nat N \<longleftrightarrow> unat off + k \<le> N"
proof -
  have "unat off \<le> 4294967295" using unat_u32_bound [of off] by linarith
  then have "unat ((ucast off :: u64) + of_nat k) = unat off + k"
    using assms unat_add_of_nat [of "ucast off" k] by simp
  then show ?thesis
    using assms by (simp add: word_le_nat_alt unat_of_nat)
qed

lemma range_numeral_N:
  assumes "N \<le> 4294967296" and "numeral k \<le> (4294967296 :: nat)"
  shows "(ucast (off :: u32) :: u64) + numeral k \<le> of_nat N \<longleftrightarrow> unat off + numeral k \<le> N"
    and "of_nat N < (ucast (off :: u32) :: u64) + numeral k \<longleftrightarrow> N < unat off + numeral k"
  using range_nat_le_N [OF assms, of off] by (simp_all add: not_le [symmetric] del: not_le)

lemma range_scaled_N:
  assumes "N \<le> 4294967296" and "numeral k < (4294967296 :: nat)"
  shows "of_nat N < (ucast (off :: u32) :: u64) + ucast (cnt :: u32) * numeral k \<longleftrightarrow>
    N < unat off + unat cnt * numeral k"
  using range_check_scaled [of "replicate N 0" "numeral k" off cnt] assms by simp

lemma validMemoryRange_N:
  "length mem = N \<Longrightarrow> N \<le> 4294967296 \<Longrightarrow> validMemoryRange mem off sz \<longleftrightarrow> unat off + unat sz \<le> N"
  by (simp add: validMemoryRange_iff)

lemmas range_simps = range_le_N range_less_N range_numeral_N range_scaled_N validMemoryRange_N

section \<open>The argument lists as the guest reads them\<close>

definition packedSize :: "string list \<Rightarrow> nat" where
  "packedSize items = sum_list (map (\<lambda>s. length s + 1) items)"

lemma packedSize_simps [simp]: "packedSize [] = 0" "packedSize (s # items) = length s + 1 + packedSize items"
  by (simp_all add: packedSize_def)

lemma packedSize_foldl: "foldl (\<lambda>t s. t + (length s + 1)) n items = n + packedSize items"
  by (induction items arbitrary: n) simp_all

text \<open>The memory after a complete run of the loop of \<open>writeStrings\<close>.\<close>

fun packStrings :: "nat \<Rightarrow> nat \<Rightarrow> string list \<Rightarrow> bytes \<Rightarrow> bytes" where
  "packStrings a c [] m = m"
| "packStrings a c (s # items) m = packStrings (a + 4) (c + length s + 1) items
     (mem_put (c + length s) [0] (mem_put c (string_bytes s) (mem_put a (le_bytes 4 (of_nat c :: u32)) m)))"

lemma length_packStrings [simp]:
  "a + 4 * length items \<le> length m \<Longrightarrow> c + packedSize items \<le> length m \<Longrightarrow>
     length (packStrings a c items m) = length m"
  by (induction items arbitrary: a c m) simp_all

lemma packStrings_frame:
  assumes "a + 4 * length items \<le> length m" and "c + packedSize items \<le> length m"
    and "x + n \<le> length m" and "x + n \<le> a \<or> a + 4 * length items \<le> x"
    and "x + n \<le> c \<or> c + packedSize items \<le> x"
  shows "mem_slice x n (packStrings a c items m) = mem_slice x n m"
  using assms
proof (induction items arbitrary: a c m)
  case Nil
  then show ?case by simp
next
  case (Cons s items)
  let ?m = "mem_put (c + length s) [0] (mem_put c (string_bytes s) (mem_put a (le_bytes 4 (of_nat c :: u32)) m))"
  have "mem_slice x n (packStrings (a + 4) (c + length s + 1) items ?m) = mem_slice x n ?m"
    using Cons.prems by (intro Cons.IH) auto
  also have "\<dots> = mem_slice x n (mem_put c (string_bytes s) (mem_put a (le_bytes 4 (of_nat c :: u32)) m))"
    using Cons.prems by (intro mem_slice_put_disjoint) auto
  also have "\<dots> = mem_slice x n (mem_put a (le_bytes 4 (of_nat c :: u32)) m)"
    using Cons.prems by (intro mem_slice_put_disjoint) auto
  also have "\<dots> = mem_slice x n m"
    using Cons.prems by (intro mem_slice_put_disjoint) auto
  finally show ?case by simp
qed

text \<open>What the guest reads: the pointer array, and at each pointer the bytes up to the first NUL.\<close>

definition cstring :: "bytes \<Rightarrow> nat \<Rightarrow> string" where
  "cstring m p = bytes_string (takeWhile (\<lambda>b. b \<noteq> 0) (drop p m))"

definition readStrings :: "bytes \<Rightarrow> nat \<Rightarrow> nat \<Rightarrow> string list" where
  "readStrings m a n = map (\<lambda>i. cstring m (unat (le_word (mem_slice (a + 4 * i) 4 m) :: u32))) [0..<n]"

lemma string_bytes_nonzero: "CHR 0x00 \<notin> set s \<Longrightarrow> b \<in> set (string_bytes s) \<Longrightarrow> b \<noteq> 0"
proof -
  assume s: "CHR 0x00 \<notin> set s" and "b \<in> set (string_bytes s)"
  then obtain ch where ch: "ch \<in> set s" "b = of_char ch" by (auto simp: string_bytes_def)
  then have "unat b = of_char ch" by simp
  moreover have "of_char ch \<noteq> (0 :: nat)"
  proof
    assume "of_char ch = (0 :: nat)"
    then have "char_of (of_char ch :: nat) = char_of (0 :: nat)" by (rule arg_cong)
    then have "ch = char_of (0 :: nat)" by (simp only: char_of_char)
    moreover have "char_of (0 :: nat) = CHR 0x00" by (simp add: char_of_def)
    ultimately show False using ch(1) s by simp
  qed
  ultimately show "b \<noteq> 0" by auto
qed

lemma cstring_slice:
  assumes "mem_slice p (length s + 1) m = string_bytes s @ [0]" and "CHR 0x00 \<notin> set s"
  shows "cstring m p = s"
proof -
  have "drop p m = mem_slice p (length s + 1) m @ drop (length s + 1) (drop p m)"
    by (simp only: mem_slice_def append_take_drop_id)
  then obtain r where "drop p m = (string_bytes s @ [0]) @ r"
    using assms(1) by metis
  then have "takeWhile (\<lambda>b. b \<noteq> 0) (drop p m) = string_bytes s"
    using string_bytes_nonzero [OF assms(2)] by (simp add: takeWhile_append2)
  then show ?thesis by (simp add: cstring_def)
qed

lemma readStrings_Suc:
  "readStrings m a (Suc n) = cstring m (unat (le_word (mem_slice a 4 m) :: u32)) # readStrings m (a + 4) n"
  by (simp add: readStrings_def map_upt_Suc add.assoc del: upt_Suc)

lemma mem_slice_append: "mem_slice p (i + j) m = mem_slice p i m @ mem_slice (p + i) j m"
  by (simp add: mem_slice_def take_add drop_drop add.commute)

lemma readStrings_packStrings:
  assumes "a + 4 * length items \<le> length m" and "c + packedSize items \<le> length m"
    and "length m \<le> 4294967296" and "a + 4 * length items \<le> c \<or> c + packedSize items \<le> a"
    and "\<forall>s\<in>set items. CHR 0x00 \<notin> set s"
  shows "readStrings (packStrings a c items m) a (length items) = items"
  using assms
proof (induction items arbitrary: a c m)
  case Nil
  then show ?case by (simp add: readStrings_def)
next
  case (Cons s items)
  let ?m1 = "mem_put a (le_bytes 4 (of_nat c :: u32)) m"
  let ?m2 = "mem_put c (string_bytes s) ?m1"
  let ?m3 = "mem_put (c + length s) [0] ?m2"
  let ?m = "packStrings (a + 4) (c + length s + 1) items ?m3"
  note d = mem_slice_put_disjoint mem_slice_put_same packStrings_frame
  have "mem_slice a 4 ?m = mem_slice a 4 ?m3"
    using Cons.prems by (intro packStrings_frame) auto
  also have "\<dots> = mem_slice a 4 ?m2"
    using Cons.prems by (intro mem_slice_put_disjoint) auto
  also have "\<dots> = mem_slice a 4 ?m1"
    using Cons.prems by (intro mem_slice_put_disjoint) auto
  also have "\<dots> = le_bytes 4 (of_nat c :: u32)"
    using Cons.prems by (intro mem_slice_put_same) auto
  finally have ptr: "unat (le_word (mem_slice a 4 ?m) :: u32) = c"
    using Cons.prems by (simp add: le_word_le_bytes unat_of_nat)
  have "mem_slice c (length s + 1) ?m = mem_slice c (length s + 1) ?m3"
    using Cons.prems by (intro packStrings_frame) auto
  also have "\<dots> = mem_slice c (length s) ?m3 @ mem_slice (c + length s) 1 ?m3"
    by (rule mem_slice_append)
  also have "mem_slice c (length s) ?m3 = mem_slice c (length s) ?m2"
    using Cons.prems by (intro mem_slice_put_disjoint) auto
  also have "\<dots> = string_bytes s"
    using Cons.prems by (intro mem_slice_put_same) auto
  also have "mem_slice (c + length s) 1 ?m3 = [0]"
    using Cons.prems by (intro mem_slice_put_same) auto
  finally have "cstring ?m c = s"
    using Cons.prems by (intro cstring_slice) auto
  moreover have "readStrings ?m (a + 4) (length items) = items"
    using Cons.prems by (intro Cons.IH) auto
  ultimately show ?case
    using ptr by (simp add: readStrings_Suc)
qed

text \<open>The 64-bit cursor arithmetic of \<open>writeStrings\<close> does not wrap.\<close>

lemma strings_arith:
  fixes p :: u32 and cur :: u64
  assumes "i < 2 ^ 61" and "unat cur + length x + 1 < 2 ^ 63"
  shows "unat ((ucast p :: u64) + of_nat i * 4) = unat p + i * 4"
    and "unat ((ucast p :: u64) + of_nat i * 4 + 4) = unat p + i * 4 + 4"
    and "unat (cur + of_nat (length x)) = unat cur + length x"
    and "unat (cur + of_nat (length x) + 1) = unat cur + length x + 1"
    and "unat (cur + (of_nat (length x) + 1)) = unat cur + length x + 1"
proof -
  have p: "unat p \<le> 4294967295" using unat_u32_bound [of p] by linarith
  show e: "unat ((ucast p :: u64) + of_nat i * 4) = unat p + i * 4"
    using assms p unat_add_of_nat [of "ucast p" "i * 4"] by simp
  show "unat ((ucast p :: u64) + of_nat i * 4 + 4) = unat p + i * 4 + 4"
    using assms p unat_add_of_nat [of "(ucast p :: u64) + of_nat i * 4" 4] by (simp add: e)
  show "unat (cur + of_nat (length x)) = unat cur + length x"
    using assms by (intro unat_add_of_nat) simp
  show c: "unat (cur + of_nat (length x) + 1) = unat cur + length x + 1"
    using assms unat_add_of_nat [of cur "length x + 1"] by (simp add: ac_simps)
  then show "unat (cur + (of_nat (length x) + 1)) = unat cur + length x + 1"
    by (simp add: add.assoc)
qed

lemma writeStringsLoop_ok:
  assumes "length (s_mem s) \<le> 4294967296" and "unat ptrArray + 4 * (i + length items) \<le> length (s_mem s)"
    and "unat cur + packedSize items \<le> length (s_mem s)"
  shows "run_state (writeStringsLoop ptrArray i cur items) s =
    (wasiOK, s\<lparr>s_mem := packStrings (unat ptrArray + 4 * i) (unat cur) items (s_mem s)\<rparr>)"
  using assms
proof (induction items arbitrary: i cur s)
  case Nil
  then show ?case by simp
next
  case (Cons x items)
  let ?e = "(ucast ptrArray :: u64) + of_nat i * 4"
  let ?n = "length (s_mem s)"
  have ar: "i < 2 ^ 61" "unat cur + length x + 1 < 2 ^ 63" using Cons.prems by simp_all
  have "\<not> (?e + 4 > of_nat ?n \<or> cur + of_nat (length x) + 1 > of_nat ?n \<or> cur > ucast (NOT 0 :: u32))"
    using Cons.prems by (simp add: word_less_nat_alt strings_arith [OF ar] unat_of_nat)
  with Cons show ?case
    by (simp add: strings_arith [OF ar] Let_def memStore_def mult.commute add.commute [of 4] add.assoc)
qed

lemma writeStringsLoop_bounds:
  assumes "length (s_mem s) \<le> 4294967296" and "i + length items < 2 ^ 61"
    and "unat cur + packedSize items < 2 ^ 63" and "items \<noteq> []"
    and "fst (run_state (writeStringsLoop ptrArray i cur items) s) = wasiOK"
  shows "unat ptrArray + 4 * (i + length items) \<le> length (s_mem s) \<and>
    unat cur + packedSize items \<le> length (s_mem s)"
  using assms
proof (induction items arbitrary: i cur s)
  case Nil
  then show ?case by simp
next
  case (Cons x items)
  let ?e = "(ucast ptrArray :: u64) + of_nat i * 4"
  let ?n = "length (s_mem s)"
  have ar: "i < 2 ^ 61" "unat cur + length x + 1 < 2 ^ 63" using Cons.prems by simp_all
  note ar = strings_arith [OF ar]
  have guard: "\<not> (?e + 4 > of_nat ?n \<or> cur + of_nat (length x) + 1 > of_nat ?n \<or> cur > ucast (NOT 0 :: u32))"
    using Cons.prems by (auto simp: Let_def split: if_splits)
  then have here: "unat ptrArray + i * 4 + 4 \<le> ?n" "unat cur + length x + 1 \<le> ?n"
    using Cons.prems by (auto simp: word_less_nat_alt ar unat_of_nat)
  show ?case
  proof (cases "items = []")
    case True
    with here show ?thesis by simp
  next
    case False
    define m where "m = mem_put (unat cur + length x) [0] (mem_put (unat cur) (string_bytes x)
      (mem_put (unat ptrArray + i * 4) (le_bytes 4 (ucast cur :: u32)) (s_mem s)))"
    have "length m = ?n" using here by (simp add: m_def)
    moreover have "fst (run_state (writeStringsLoop ptrArray (Suc i) (cur + (of_nat (length x) + 1)) items)
         (s\<lparr>s_mem := m\<rparr>)) = 0"
      using Cons.prems guard here by (simp add: ar Let_def memStore_def m_def)
    ultimately show ?thesis
      using Cons.IH [of "s\<lparr>s_mem := m\<rparr>" "Suc i" "cur + (of_nat (length x) + 1)"] Cons.prems False
      by (simp add: ar)
  qed
qed

section \<open>Resolution of I/O vectors\<close>

text \<open>The buffers that a vector array describes.\<close>

definition guestIovec :: "bytes \<Rightarrow> nat \<Rightarrow> nat \<Rightarrow> nat \<times> nat" where
  "guestIovec mem ptr i =
     (unat (le_word (mem_slice (ptr + 8 * i) 4 mem) :: u32),
      unat (le_word (mem_slice (ptr + 8 * i + 4) 4 mem) :: u32))"

definition bufOk :: "nat \<Rightarrow> nat \<times> nat \<Rightarrow> bool" where
  "bufOk N b \<longleftrightarrow> fst b + snd b \<le> N"

lemma iovecsLoop_run:
  fixes ptr :: u32
  assumes "length (s_mem s) \<le> 4294967296" and "\<forall>i\<in>set is. unat ptr + 8 * i + 8 \<le> length (s_mem s)"
    and "tot \<le> 4294967295" and "bs = map (guestIovec (s_mem s) (unat ptr)) is"
  shows "\<exists>res. run_state (iovecsLoop ptr tot bufs (map of_nat is)) s = (res, s) \<and>
    (snd res = wasiOK \<longleftrightarrow> (\<forall>b\<in>set bs. bufOk (length (s_mem s)) b) \<and> unat tot + sum_list (map snd bs) < 2 ^ 32) \<and>
    (snd res = wasiOK \<longrightarrow> fst res = bufs @ bs) \<and> snd res \<in> {wasiOK, wasiEFault, wasiEOverflow}"
  using assms
proof (induction "is" arbitrary: tot bufs bs)
  case Nil
  then show ?case by (auto simp: word_le_nat_alt)
next
  case (Cons i is')
  let ?N = "length (s_mem s)"
  have i: "unat ptr + 8 * i + 8 \<le> ?N" using Cons.prems by simp
  have "ptr + of_nat i * 8 = of_nat (unat ptr + i * 8)" by simp
  then have u1: "unat (ptr + of_nat i * 8) = unat ptr + 8 * i"
    using i Cons.prems by (simp only: unat_of_nat) simp
  have "ptr + of_nat i * 8 + 4 = of_nat (unat ptr + i * 8 + 4)" by simp
  then have u2: "unat (ptr + of_nat i * 8 + 4) = unat ptr + 8 * i + 4"
    using i Cons.prems by (simp only: unat_of_nat) simp
  define base where "base = (le_word (mem_slice (unat ptr + 8 * i) 4 (s_mem s)) :: u32)"
  define n where "n = (le_word (mem_slice (unat ptr + 8 * i + 4) 4 (s_mem s)) :: u32)"
  define bs' where "bs' = map (guestIovec (s_mem s) (unat ptr)) is'"
  have bs: "bs = (unat base, unat n) # bs'"
    using Cons.prems by (simp add: bs'_def guestIovec_def base_def n_def)
  have n: "unat n \<le> 4294967295" using unat_u32_bound [of n] by linarith
  have tot: "unat (tot + ucast n) = unat tot + unat n"
    using Cons.prems n unat_add_of_nat [of tot "unat n"] by (simp add: word_le_nat_alt)
  have ov: "tot + ucast n > ucast (- 1 :: u32) \<longleftrightarrow> unat tot + unat n > 4294967295"
    by (simp add: word_less_nat_alt tot)
  have step: "run_state (iovecsLoop ptr tot bufs (map of_nat (i # is'))) s =
    (if unat base + unat n > ?N then (([], wasiEFault), s)
     else if unat tot + unat n > 4294967295 then (([], wasiEOverflow), s)
     else run_state (iovecsLoop ptr (tot + ucast n) (bufs @ [(unat base, unat n)]) (map of_nat is')) s)"
    using i Cons.prems(1)
    by (simp add: u1 u2 memLoad_def Let_def range_check_iff ov flip: base_def n_def)
  show ?case
  proof (cases "unat base + unat n > ?N \<or> unat tot + unat n > 4294967295")
    case True
    then show ?thesis unfolding step by (auto simp: bs bufOk_def)
  next
    case False
    then have "run_state (iovecsLoop ptr tot bufs (map of_nat (i # is'))) s =
      run_state (iovecsLoop ptr (tot + ucast n) (bufs @ [(unat base, unat n)]) (map of_nat is')) s"
      unfolding step by simp
    moreover have "tot + ucast n \<le> 4294967295"
      using False by (simp add: word_le_nat_alt tot)
    ultimately show ?thesis
      using Cons.IH [OF _ _ _ bs'_def, of "tot + ucast n" "bufs @ [(unat base, unat n)]"] Cons.prems(1,2) False
      by (simp add: bs tot bufOk_def add.assoc)
  qed
qed

lemma iovecs_run:
  assumes mem: "length (s_mem s) \<le> 4294967296"
    and bs: "bs = map (guestIovec (s_mem s) (unat ptr)) [0..<unat count]"
  shows "\<exists>res. run_state (iovecs cfg ptr count) s = (res, s) \<and>
    (snd res = wasiOK \<longleftrightarrow> count \<le> c_MaxIOVecs cfg \<and> unat ptr + 8 * unat count \<le> length (s_mem s) \<and>
       (\<forall>b\<in>set bs. bufOk (length (s_mem s)) b) \<and> sum_list (map snd bs) < 2 ^ 32) \<and>
    (snd res = wasiOK \<longrightarrow> fst res = bs) \<and> (snd res \<noteq> wasiOK \<longrightarrow>
       snd res \<in> {wasiENomem, wasiEFault, wasiEOverflow})"
proof -
  have chk: "(ucast ptr :: u64) + ucast count * 8 > of_nat (length (s_mem s)) \<longleftrightarrow>
      unat ptr + 8 * unat count > length (s_mem s)"
    using range_check_scaled [OF mem, of 8 ptr count] by (simp add: mult.commute)
  show ?thesis
  proof (cases "count > c_MaxIOVecs cfg \<or> unat ptr + 8 * unat count > length (s_mem s)")
    case True
    then show ?thesis by (auto simp: iovecs_def chk)
  next
    case False
    then have "run_state (iovecs cfg ptr count) s = run_state (iovecsLoop ptr 0 [] (map of_nat [0..<unat count])) s"
      by (simp add: iovecs_def chk)
    with False show ?thesis
      using iovecsLoop_run [OF mem _ _ bs, of 0 "[]"] by auto
  qed
qed

end
