(* ===== verification/Authority.thy ===== *)
theory Authority
  imports Guest_Memory
begin

text \<open>
  What a host call may do, as a predicate on the recorded calls, and the frame in which every handler
  is verified. \<open>allowed M c\<close> says that the host call \<open>c\<close> stays within the authority \<open>M\<close>, which gives for
  each capability root (see \<open>fileid\<close>) the directory and the rights of its mount: a path of the host is opened only for
  the directory of the mount, an operation that
  changes the host needs the matching right of the root it is applied to, an open needs the rights for
  the access, creation and truncation it asks for, the kernel is told to resolve beneath the directory,
  and a name that reaches the kernel without such a restriction is a single path component.
  \<open>St N M L fs\<close> describes the states of a host call: the guest memory has \<open>N\<close> bytes, no Go slice
  expression went out of range, every host call so far was allowed, \<open>L\<close> is the set of open file objects
  and \<open>fs\<close> the descriptor table.
\<close>

section \<open>Allowed host calls\<close>

text \<open>The rights and the host directory per capability root, and the number of descriptors an instance may have.\<close>

record authority =
  a_rights :: "nat \<Rightarrow> u64"
  a_host :: "nat \<Rightarrow> string option"
  a_quota :: u32

definition hasRight :: "authority \<Rightarrow> fileid \<Rightarrow> u64 \<Rightarrow> bool" where
  "hasRight M f r \<longleftrightarrow> a_rights M (fst f) AND r = r"

definition hasAny :: "authority \<Rightarrow> fileid \<Rightarrow> u64 \<Rightarrow> bool" where
  "hasAny M f r \<longleftrightarrow> a_rights M (fst f) AND r \<noteq> 0"

text \<open>A single component: it names an entry of the directory itself.\<close>

definition leafName :: "string \<Rightarrow> bool" where
  "leafName n \<longleftrightarrow> n \<noteq> [] \<and> CHR ''/'' \<notin> set n \<and> n \<noteq> ''..''"

text \<open>The same with the terminal slash that \<^verbatim>\<open>rename\<close> uses to demand a directory.\<close>

definition renameName :: "string \<Rightarrow> bool" where
  "renameName n \<longleftrightarrow> leafName n \<or> (\<exists>l. leafName l \<and> n = l @ ''/'')"

definition openFlagsOk :: "authority \<Rightarrow> fileid \<Rightarrow> u64 \<Rightarrow> bool" where
  "openFlagsOk M d flags \<longleftrightarrow>
     (flags AND O_CREAT \<noteq> 0 \<longrightarrow> hasRight M d rightPathCreateFile) \<and>
     (flags AND O_TRUNC \<noteq> 0 \<longrightarrow> hasRight M d rightPathFilestatSetSize) \<and>
     (flags AND O_ACCMODE \<noteq> 0 \<longrightarrow> hasRight M d rightPathOpen \<and>
        hasAny M d (rightFDWrite OR rightFDAllocate OR rightFDFilestatSetSize OR rightPathFilestatSetSize))"

text \<open>The paths that name the configured directory \<open>host\<close>: its cleaned form, after the working directory if it is relative.\<close>

definition absoluteOf :: "string \<Rightarrow> string \<Rightarrow> bool" where
  "absoluteOf host p \<longleftrightarrow> (if hasPrefix host ''/'' then p = clean host else \<exists>wd. p = joinPath wd host)"

fun allowed :: "authority \<Rightarrow> hostcall \<Rightarrow> bool" where
  "allowed M (HRead f n) = hasRight M f rightFDRead"
| "allowed M (HSysRead f n) = hasRight M f rightFDRead"
| "allowed M (HReadAt f n off) = hasRight M f (rightFDRead OR rightFDSeek)"
| "allowed M (HWrite f b) = hasRight M f rightFDWrite"
| "allowed M (HSysWrite f b) = hasRight M f rightFDWrite"
| "allowed M (HPwrite f b off) = hasRight M f (rightFDWrite OR rightFDSeek)"
| "allowed M (HSeek f off whence) = (off = 0 \<and> whence = 1 \<or> hasRight M f rightFDSeek)"
| "allowed M (HSync f) = hasAny M f (rightFDSync OR rightFDDataSync)"
| "allowed M (HTruncate f n) = hasRight M f rightFDFilestatSetSize"
| "allowed M (HReadDir f n) = hasRight M f rightFDReadDir"
| "allowed M (HOsOpen p n) = (\<exists>host. a_host M (fst n) = Some host \<and> absoluteOf host p)"
| "allowed M (HOpenat2 d name flags mode resolve n) =
     (fst n = fst d \<and> resolve = secureResolve \<and> openFlagsOk M d flags)"
| "allowed M (HOpenat d name flags mode n) =
     (fst n = fst d \<and> leafName name \<and> flags AND O_NOFOLLOW \<noteq> 0 \<and> openFlagsOk M d flags)"
| "allowed M (HDup d n) = (fst n = fst d)"
| "allowed M (HReadlinkat d name n) = leafName name"
| "allowed M (HMkdirat d name mode) = (leafName name \<and> hasRight M d rightPathCreateDirectory)"
| "allowed M (HLinkat d name e name') = (leafName name \<and> leafName name' \<and>
     hasRight M d rightPathLinkSource \<and> hasRight M e rightPathLinkTarget)"
| "allowed M (HUnlinkat d name dir) = (leafName name \<and>
     hasRight M d (if dir then rightPathRemoveDirectory else rightPathUnlinkFile))"
| "allowed M (HRenameat d name e name') = (renameName name \<and> renameName name' \<and>
     hasRight M d rightPathRenameSource \<and> hasRight M e rightPathRenameTarget)"
| "allowed M (HSymlinkat target d name) =
     (leafName name \<and> \<not> hasPrefix target ''/'' \<and> hasRight M d rightPathSymlink)"
| "allowed M (HUtimes f name a m nofollow) = ((name = [] \<or> leafName name \<and> nofollow) \<and>
     hasAny M f (rightFDFilestatSetTimes OR rightPathFilestatSetTimes))"
| "allowed M (HSetfl f flags) = hasRight M f rightFDStatSetFlags"
| "allowed M (HFallocate f off n) = hasRight M f rightFDAllocate"
| "allowed M _ = True"

section \<open>Descriptor tables within an authority\<close>

text \<open>An entry whose rights and files stay within the authority of its root.\<close>

definition streamOk :: "stream \<Rightarrow> bool" where
  "streamOk s = (case s of OsFile f \<Rightarrow> fst f = 0 | _ \<Rightarrow> True)"

definition entryRoot :: "fdEntry \<Rightarrow> nat" where
  "entryRoot e = (case e_file e of None \<Rightarrow> 0 | Some f \<Rightarrow> fst f)"

definition entryOk :: "authority \<Rightarrow> fdEntry \<Rightarrow> bool" where
  "entryOk M e \<longleftrightarrow>
     e_rights e AND NOT (a_rights M (entryRoot e)) = 0 \<and> e_inheriting e AND NOT (a_rights M (entryRoot e)) = 0 \<and>
     streamOk (e_reader e) \<and> streamOk (e_writer e) \<and>
     (\<forall>g\<in>set_option (e_dirIter e). fst g = entryRoot e) \<and> length (e_preopen e) < 2 ^ 32"

definition tableOk :: "authority \<Rightarrow> fsState \<Rightarrow> bool" where
  "tableOk M fs \<longleftrightarrow> distinct (map fst (fs_fds fs)) \<and> \<not> fs_closed fs \<and> fs_maxFDs fs = a_quota M \<and>
     length (fs_fds fs) \<le> unat (fs_maxFDs fs) \<and> (\<forall>x\<in>set (fs_fds fs). entryOk M (snd x))"

definition St :: "nat \<Rightarrow> authority \<Rightarrow> fileid set \<Rightarrow> fsState \<Rightarrow> 'w st \<Rightarrow> bool" where
  "St N M L fs s \<longleftrightarrow> length (s_mem s) = N \<and> \<not> s_panic s \<and> (\<forall>c\<in>set (s_log s). allowed M c) \<and>
     s_live s = L \<and> (\<forall>f\<in>L. snd f < s_next s) \<and> s_fs s = fs"

text \<open>A handler that leaves the descriptor table and the set of open files as they are.\<close>

abbreviation safe :: "nat \<Rightarrow> authority \<Rightarrow> fileid set \<Rightarrow> fsState \<Rightarrow> ('w st, 'a) state \<Rightarrow> ('a \<Rightarrow> bool) \<Rightarrow> bool" where
  "safe N M L fs m R \<equiv> triple (St N M L fs) m (\<lambda>_. St N M L fs) R"

lemma right_within:
  fixes a b :: u64
  assumes "a AND NOT b = 0" and "a AND r = r"
  shows "b AND r = r"
  using assms by (auto simp: bit_eq_iff bit_simps)

lemma entryOk_hasRight:
  "entryOk M e \<Longrightarrow> e_file e = Some f \<Longrightarrow> e_rights e AND r = r \<Longrightarrow> hasRight M f r"
  by (auto simp: entryOk_def entryRoot_def hasRight_def intro: right_within)

lemma hasRight_hasAny: "hasRight M f r \<Longrightarrow> r AND r' \<noteq> 0 \<Longrightarrow> hasAny M f r'"
proof -
  assume "hasRight M f r" and r: "r AND r' \<noteq> 0"
  then have "(a_rights M (fst f) AND r) AND r' \<noteq> 0" by (simp add: hasRight_def)
  then have "(a_rights M (fst f) AND r') AND r \<noteq> 0" by (simp add: ac_simps)
  then show "hasAny M f r'" by (auto simp: hasAny_def)
qed

lemma tableOk_entry: "tableOk M fs \<Longrightarrow> map_of (fs_fds fs) fd = Some f \<Longrightarrow> entryOk M f"
  by (auto simp: tableOk_def dest: map_of_SomeD)

lemma file_right:
  "tableOk M fs \<Longrightarrow> map_of (fs_fds fs) fd = Some f \<Longrightarrow> e_file f = Some g \<Longrightarrow> e_rights f AND r = r \<Longrightarrow>
     hasRight M g r"
  by (blast intro: entryOk_hasRight tableOk_entry)

lemma file_any:
  "tableOk M fs \<Longrightarrow> map_of (fs_fds fs) fd = Some f \<Longrightarrow> e_file f = Some g \<Longrightarrow> e_rights f AND r = r \<Longrightarrow>
     r AND r' \<noteq> 0 \<Longrightarrow> hasAny M g r'"
  by (blast intro: file_right hasRight_hasAny)

section \<open>The invariant between host calls\<close>

text \<open>The files that the descriptor table refers to. Between two host calls every open file object is
  among them: no temporary handle outlives the call that opened it.\<close>

definition entryFiles :: "fdEntry \<Rightarrow> fileid set" where
  "entryFiles e = set_option (e_file e) \<union> set_option (e_dirIter e)"

definition owned :: "fsState \<Rightarrow> fileid set" where
  "owned fs = (\<Union>x\<in>set (fs_fds fs). entryFiles (snd x))"

definition Inv :: "nat \<Rightarrow> authority \<Rightarrow> fileid set \<Rightarrow> 'w st \<Rightarrow> bool" where
  "Inv N M F s \<longleftrightarrow> (\<exists>L fs. St N M L fs s \<and> tableOk M fs \<and> L \<subseteq> owned fs \<union> F)"

abbreviation preserves :: "nat \<Rightarrow> authority \<Rightarrow> fileid set \<Rightarrow> ('w st, 'a) state \<Rightarrow> bool" where
  "preserves N M F m \<equiv> triple (Inv N M F) m (\<lambda>_. Inv N M F) (\<lambda>_. True)"

lemma preservesI:
  "(\<And>L fs. tableOk M fs \<Longrightarrow> L \<subseteq> owned fs \<union> F \<Longrightarrow> triple (St N M L fs) m (\<lambda>_. Inv N M F) (\<lambda>_. True)) \<Longrightarrow>
     preserves N M F m"
  by (auto simp: triple_def Inv_def)

lemma preserves_safe:
  assumes "\<And>L fs. tableOk M fs \<Longrightarrow> safe N M L fs m R"
  shows "preserves N M F m"
proof (rule preservesI)
  fix L fs assume "tableOk M fs" "L \<subseteq> owned fs \<union> F"
  then show "triple (St N M L fs) m (\<lambda>_. Inv N M F) (\<lambda>_. True)"
    by (intro triple_weaken [OF assms]) (auto simp: Inv_def)
qed

section \<open>Specifications of the primitive steps\<close>

lemma triple_return_St [vcg]:
  "R a \<Longrightarrow> L = L' a \<Longrightarrow> fs = fs' a \<Longrightarrow> triple (St N M L fs) (ret a) (\<lambda>r. St N M (L' r) (fs' r)) R"
  by (simp add: triple_def wp_simps)

lemma triple_return_Inv [vcg]:
  "R a \<Longrightarrow> tableOk M fs \<Longrightarrow> L \<subseteq> owned fs \<union> F \<Longrightarrow> triple (St N M L fs) (ret a) (\<lambda>_. Inv N M F) R"
  by (auto simp: triple_def wp_simps Inv_def)

lemma triple_case_stream [vcg]:
  "(x = NilStream \<Longrightarrow> triple P m Q R) \<Longrightarrow> (\<And>f. x = OsFile f \<Longrightarrow> triple P (k f) Q R) \<Longrightarrow>
     (\<And>i b c. x = CustomStream i b c \<Longrightarrow> triple P (h i b c) Q R) \<Longrightarrow>
     triple P (case x of NilStream \<Rightarrow> m | OsFile f \<Rightarrow> k f | CustomStream i b c \<Rightarrow> h i b c) Q R"
  by (cases x) auto

lemma triple_hostCall [vcg]: "allowed M c \<Longrightarrow> safe N M L fs (hostCall H c) (\<lambda>_. True)"
  by (auto simp: triple_def wp_simps St_def split: prod.splits)

lemma triple_hostOpen [vcg]:
  "(\<And>n. allowed M (mk (root, n))) \<Longrightarrow>
     triple (St N M L fs) (hostOpen H root mk)
       (\<lambda>r. St N M (case r of Inl e \<Rightarrow> L | Inr f \<Rightarrow> insert f L) fs)
       (\<lambda>r. \<forall>f. r = Inr f \<longrightarrow> fst f = root \<and> f \<notin> L)"
  by (fastforce simp: triple_def wp_simps St_def hostOpen_def split: prod.splits option.splits)

lemma triple_hostClose [vcg]: "triple (St N M L fs) (hostClose H f) (\<lambda>_. St N M (L - {f}) fs) (\<lambda>_. True)"
  by (auto simp: triple_def wp_simps St_def hostClose_def split: prod.splits)

lemma triple_hostStat [vcg]: "safe N M L fs (hostStat H f) (\<lambda>_. True)"
  by (auto simp: triple_def wp_simps St_def hostStat_def split: prod.splits)

lemma triple_memStore [vcg]: "off + length bs \<le> N \<Longrightarrow> safe N M L fs (memStore off bs) (\<lambda>_. True)"
  by (auto simp: triple_def wp_simps St_def)

lemma triple_memLoad [vcg]: "off + n \<le> N \<Longrightarrow> safe N M L fs (memLoad off n) (\<lambda>b. length b = n)"
  by (auto simp: triple_def wp_simps St_def)

lemma triple_gets_mem [vcg]: "safe N M L fs (gets s_mem) (\<lambda>m. length m = N)"
  by (auto simp: triple_def wp_simps St_def)

lemma triple_gets_fs [vcg]: "safe N M L fs (gets s_fs) (\<lambda>x. x = fs)"
  by (auto simp: triple_def wp_simps St_def)

lemma triple_entry [vcg]:
  "safe N M L fs (entry fd)
     (\<lambda>r. case r of Inl code \<Rightarrow> code = wasiEBadf \<and> map_of (fs_fds fs) fd = None
        | Inr f \<Rightarrow> map_of (fs_fds fs) fd = Some f)"
  by (auto simp: triple_def wp_simps St_def split: option.splits)

lemma triple_entryRight [vcg]:
  "safe N M L fs (entryRight fd right)
     (\<lambda>r. case r of Inl code \<Rightarrow> code \<noteq> wasiOK
        | Inr f \<Rightarrow> map_of (fs_fds fs) fd = Some f \<and> e_rights f AND right = right)"
  by (auto simp: triple_def wp_def St_def run_entryRight split: option.splits)

lemma triple_gets_fuel [vcg]: "safe N M L fs (gets s_fuel) (\<lambda>_. True)"
  by (auto simp: triple_def wp_simps St_def)

lemma triple_stuck [vcg]: "safe N M L fs stuck (\<lambda>_. True)"
  by (auto simp: triple_def wp_simps St_def stuck_def)

lemma triple_hostReadDir [vcg]:
  "hasRight M f rightFDReadDir \<Longrightarrow> safe N M L fs (hostReadDir H f n) (\<lambda>r. length (fst r) \<le> n)"
  by (auto simp: triple_def wp_simps St_def hostReadDir_def split: prod.splits)

lemma triple_putEntry [vcg]:
  "map_of (fs_fds fs) fd \<noteq> None \<Longrightarrow>
     triple (St N M L fs) (putEntry fd f) (\<lambda>_. St N M L (fs\<lparr>fs_fds := AList.update fd f (fs_fds fs)\<rparr>)) (\<lambda>_. True)"
  by (auto simp: triple_def wp_simps St_def putEntry_def)

lemma triple_deleteEntry [vcg]:
  "triple (St N M L fs) (deleteEntry fd) (\<lambda>_. St N M L (fs\<lparr>fs_fds := AList.delete fd (fs_fds fs)\<rparr>)) (\<lambda>_. True)"
  by (auto simp: triple_def wp_simps St_def deleteEntry_def)

section \<open>Specifications of the memory helpers\<close>

lemma safe_le32 [vcg]: "N \<le> 4294967296 \<Longrightarrow> safe N M L fs (le32 off) (\<lambda>_. True)"
  unfolding le32_def by (rule vcg | simp add: range_simps)+

lemma safe_putLe32 [vcg]: "N \<le> 4294967296 \<Longrightarrow> safe N M L fs (putLe32 off v) (\<lambda>_. True)"
  unfolding putLe32_def by (rule vcg | simp add: range_simps)+

lemma safe_putLe64 [vcg]: "N \<le> 4294967296 \<Longrightarrow> safe N M L fs (putLe64 off v) (\<lambda>_. True)"
  unfolding putLe64_def by (rule vcg | simp add: range_simps)+

lemma safe_guestBytes [vcg]:
  "N \<le> 4294967296 \<Longrightarrow> safe N M L fs (guestBytes ptr n) (\<lambda>(name, code). code = 0 \<longrightarrow> CHR 0x00 \<notin> set name)"
  unfolding guestBytes_def by (rule vcg | simp add: range_simps)+

lemma safe_writeCounts [vcg]: "N \<le> 4294967296 \<Longrightarrow> safe N M L fs (writeCounts cp sp items) (\<lambda>_. True)"
  unfolding writeCounts_def by (rule vcg | simp)+

lemma safe_writeFilestat [vcg]: "N \<le> 4294967296 \<Longrightarrow> safe N M L fs (writeFilestat ptr info) (\<lambda>_. True)"
  unfolding writeFilestat_def by (rule vcg | simp add: range_simps)+

lemma safe_writeStringsLoop:
  "N \<le> 4294967296 \<Longrightarrow> i + length items < 2 ^ 61 \<Longrightarrow> unat cur + packedSize items < 2 ^ 63 \<Longrightarrow>
     safe N M L fs (writeStringsLoop ptrArray i cur items :: ('w st, u64) state) (\<lambda>_. True)"
proof (induction items arbitrary: i cur)
  case Nil
  show ?case by (simp, rule vcg, simp_all)
next
  case (Cons x items)
  have ar: "i < 2 ^ 61" "unat cur + length x + 1 < 2 ^ 63" using Cons.prems by simp_all
  note ar = strings_arith [OF ar]
  have N: "unat (of_nat N :: u64) = N" using Cons.prems by (simp add: unat_of_nat)
  have IH: "safe N M L fs (writeStringsLoop ptrArray (Suc i) (cur + (of_nat (length x) + 1)) items :: ('w st, u64) state) (\<lambda>_. True)"
    using Cons.prems by (intro Cons.IH) (simp_all add: ar)
  show ?case
    unfolding writeStringsLoop.simps
    by (rule vcg IH | simp add: ar N word_less_nat_alt not_less)+
qed

lemma safe_writeStrings [vcg]:
  "N \<le> 4294967296 \<Longrightarrow> packedSize items < 2 ^ 61 \<Longrightarrow> safe N M L fs (writeStrings ptrArray buf items) (\<lambda>_. True)"
proof -
  assume a: "N \<le> 4294967296" "packedSize items < 2 ^ 61"
  have "length items \<le> packedSize items" by (induction items) simp_all
  moreover have "unat (ucast buf :: u64) < 4294967296" by simp
  ultimately show ?thesis
    unfolding writeStrings_def using a
    by (intro safe_writeStringsLoop) (linarith, simp_all del: unat_ucast_u32_u64)
qed

lemma safe_iovecs [vcg]:
  assumes "N \<le> 4294967296"
  shows "safe N M L fs (iovecs cfg ptr n)
     (\<lambda>(bufs, code). code = wasiOK \<longrightarrow> (\<forall>b\<in>set bufs. bufOk N b) \<and> sum_list (map snd bufs) < 2 ^ 32)"
proof (rule triple_wp)
  fix s :: "'w st" assume s: "St N M L fs s"
  then have "length (s_mem s) = N" by (simp add: St_def)
  then obtain res where "run_state (iovecs cfg ptr n) s = (res, s)"
    "snd res = wasiOK \<longrightarrow> (\<forall>b\<in>set (fst res). bufOk N b) \<and> sum_list (map snd (fst res)) < 2 ^ 32"
    using iovecs_run [of s _ ptr n cfg, OF _ refl] assms by auto
  with s show "wp (iovecs cfg ptr n) (\<lambda>r t. St N M L fs t \<and> (case r of (bufs, code) \<Rightarrow>
      code = wasiOK \<longrightarrow> (\<forall>b\<in>set bufs. bufOk N b) \<and> sum_list (map snd bufs) < 2 ^ 32)) s"
    by (cases res) (simp add: wp_def)
qed

section \<open>Changes of the descriptor table\<close>

lemma tableOk_update:
  "tableOk M fs \<Longrightarrow> map_of (fs_fds fs) fd = Some f \<Longrightarrow> entryOk M f' \<Longrightarrow>
     tableOk M (fs\<lparr>fs_fds := AList.update fd f' (fs_fds fs)\<rparr>)"
  using map_of_in_fst [of "fs_fds fs" fd f]
  by (auto simp: tableOk_def length_AList_update distinct_update set_AList_update)

lemma tableOk_delete: "tableOk M fs \<Longrightarrow> tableOk M (fs\<lparr>fs_fds := AList.delete fd (fs_fds fs)\<rparr>)"
  using AList.length_delete_le [of fd "fs_fds fs"]
  by (auto simp: tableOk_def distinct_delete set_AList_delete)

lemma owned_update:
  "tableOk M fs \<Longrightarrow>
     owned (fs\<lparr>fs_fds := AList.update fd f' (fs_fds fs)\<rparr>) =
     entryFiles f' \<union> (\<Union>x\<in>{x \<in> set (fs_fds fs). fst x \<noteq> fd}. entryFiles (snd x))"
  by (simp add: tableOk_def owned_def set_AList_update)

lemma owned_split:
  assumes "tableOk M fs" and "map_of (fs_fds fs) fd = Some f"
  shows "owned fs = entryFiles f \<union> (\<Union>x\<in>{x \<in> set (fs_fds fs). fst x \<noteq> fd}. entryFiles (snd x))"
proof -
  have "AList.update fd f (fs_fds fs) = fs_fds fs" using assms(2) by (rule AList.update_triv)
  with owned_update [OF assms(1), of fd f] show ?thesis by simp
qed

lemma owned_delete:
  "owned (fs\<lparr>fs_fds := AList.delete fd (fs_fds fs)\<rparr>) =
     (\<Union>x\<in>{x \<in> set (fs_fds fs). fst x \<noteq> fd}. entryFiles (snd x))"
  by (simp add: owned_def set_AList_delete)

lemma owned_update_same:
  "tableOk M fs \<Longrightarrow> map_of (fs_fds fs) fd = Some f \<Longrightarrow> entryFiles f' = entryFiles f \<Longrightarrow>
     owned (fs\<lparr>fs_fds := AList.update fd f' (fs_fds fs)\<rparr>) = owned fs"
  by (simp add: owned_update owned_split)

lemma entryFiles_update [simp]:
  "entryFiles (f\<lparr>e_flags := x\<rparr>) = entryFiles f" "entryFiles (f\<lparr>e_rights := r, e_inheriting := i\<rparr>) = entryFiles f"
  "entryFiles (f\<lparr>e_dirCookie := c\<rparr>) = entryFiles f" "entryFiles (f\<lparr>e_dirIssued := c\<rparr>) = entryFiles f"
  by (simp_all add: entryFiles_def)

lemma ownedI: "(k, e) \<in> set (fs_fds fs) \<Longrightarrow> x \<in> entryFiles e \<Longrightarrow> x \<in> owned fs"
  unfolding owned_def by (rule UN_I [of "(k, e)"]) simp_all

lemma tableOk_move:
  assumes "tableOk M fs" and "map_of (fs_fds fs) src = Some f" and "map_of (fs_fds fs) to = Some f'"
  shows "tableOk M (fs\<lparr>fs_fds := AList.delete src (AList.update to f (fs_fds fs))\<rparr>)"
  using tableOk_delete [OF tableOk_update [OF assms(1,3) tableOk_entry [OF assms(1,2)]], of src] by simp

lemma owned_move:
  assumes "tableOk M fs" and "map_of (fs_fds fs) src = Some f" and "map_of (fs_fds fs) to = Some f'"
    and "src \<noteq> to"
  shows "owned fs \<subseteq> entryFiles f' \<union> owned (fs\<lparr>fs_fds := AList.delete src (AList.update to f (fs_fds fs))\<rparr>)"
proof
  let ?fds = "AList.delete src (AList.update to f (fs_fds fs))"
  have d: "distinct (map fst (fs_fds fs))" using assms(1) by (simp add: tableOk_def)
  fix x assume "x \<in> owned fs"
  then obtain k e where y: "(k, e) \<in> set (fs_fds fs)" "x \<in> entryFiles e"
    by (auto simp: owned_def)
  then have k: "map_of (fs_fds fs) k = Some e" using d by simp
  consider "k = src" | "k = to" | "k \<noteq> src" "k \<noteq> to" by blast
  then show "x \<in> entryFiles f' \<union> owned (fs\<lparr>fs_fds := ?fds\<rparr>)"
  proof cases
    case 1
    then have "(to, e) \<in> set ?fds" using k assms(2,4) d by (simp add: set_AList_delete set_AList_update)
    with y(2) have "x \<in> owned (fs\<lparr>fs_fds := ?fds\<rparr>)" by (intro ownedI) simp_all
    then show ?thesis by simp
  next
    case 2
    with k assms(3) y show ?thesis by simp
  next
    case 3
    then have "(k, e) \<in> set ?fds" using y d by (simp add: set_AList_delete set_AList_update)
    with y(2) have "x \<in> owned (fs\<lparr>fs_fds := ?fds\<rparr>)" by (intro ownedI) simp_all
    then show ?thesis by simp
  qed
qed

lemma entryRoot_update [simp]:
  "entryRoot (f\<lparr>e_flags := x\<rparr>) = entryRoot f" "entryRoot (f\<lparr>e_rights := r, e_inheriting := i\<rparr>) = entryRoot f"
  "entryRoot (f\<lparr>e_dirIter := d\<rparr>) = entryRoot f" "entryRoot (f\<lparr>e_dirCookie := c\<rparr>) = entryRoot f"
  "entryRoot (f\<lparr>e_dirIssued := c\<rparr>) = entryRoot f"
  by (simp_all add: entryRoot_def)

lemma entryOk_narrow:
  assumes "entryOk M f" and "r AND NOT (e_rights f) = 0" and "i AND NOT (e_inheriting f) = 0"
  shows "entryOk M (f\<lparr>e_rights := r, e_inheriting := i\<rparr>)"
  using assms by (auto simp: entryOk_def intro: word_and_subset_trans)

lemma entryOk_flags [simp]: "entryOk M (f\<lparr>e_flags := x\<rparr>) = entryOk M f"
  by (simp add: entryOk_def)

end
