(* ===== verification/Clock.thy ===== *)
theory Clock
  imports Authority
begin

text \<open>
  \<^verbatim>\<open>internal/core/clock.go\<close> and the clock and random handlers of \<^verbatim>\<open>core.go\<close>. The system clock reads
  \<^verbatim>\<open>time.Now()\<close> as seconds since the epoch (an \<^verbatim>\<open>int64\<close>) and nanoseconds within the second; its
  conversion to an unsigned 64-bit nanosecond count is exact or reports \<open>ErrClockOverflow\<close>.
\<close>

definition systemRealtime :: "u64 \<Rightarrow> u64 \<Rightarrow> u64 \<times> u64 \<times> goerr option" where
  "systemRealtime seconds nanos =
     (if sint seconds < 0 then (0, 1, None)
      else if seconds > (NOT 0 - nanos) div 1000000000 then (0, 1, Some ErrClockOverflow)
      else (seconds * 1000000000 + nanos, 1, None))"

text \<open>\<^verbatim>\<open>clockValue\<close>: the four methods of the configured source. A nil source cannot occur: \<^verbatim>\<open>cloneConfig\<close>
  and \<^verbatim>\<open>configFromPluginConfig\<close> fill it in (a method call on it would panic).\<close>

definition clockValue :: "'w host \<Rightarrow> config \<Rightarrow> u32 \<Rightarrow> ('w st, u64 \<times> u64 \<times> goerr option) state" where
  "clockValue H cfg clockId = (case c_Clocks cfg of
      None \<Rightarrow> do { modify (\<lambda>s. s\<lparr>s_panic := True\<rparr>); ret (0, 0, None) }
    | Some src \<Rightarrow>
       if clockId > 3 then ret (0, 0, Some (OtherError ''invalid clock''))
       else (case src of
           CustomClock i \<Rightarrow> do { r \<leftarrow> hostCall H (HClock i (unat clockId)); ret (asClock r) }
         | SystemClock \<Rightarrow>
             if clockId = 0 then do { r \<leftarrow> hostCall H HNow;
                 let (seconds, nanos, e) = asClock r; ret (systemRealtime seconds nanos) }
             else if clockId = 1 then do { r \<leftarrow> hostCall H HSince;
                 let (n, x, e) = asClock r; ret (n, 1, None) }
             else ret (0, 0, Some ErrUnsupportedClock)))"

definition clockTimeGet :: "'w host \<Rightarrow> config \<Rightarrow> u64 list \<Rightarrow> ('w st, u64) state" where
  "clockTimeGet H cfg p =
     (if p ! 0 > 3 then ret wasiEInval
      else do {
        (now, resolution, err) \<leftarrow> clockValue H cfg (arg32 p 0);
        case err of
          Some e \<Rightarrow> ret (if errorsIs e ErrClockOverflow then wasiEOverflow else wasiENotsup)
        | None \<Rightarrow> do {
            ok \<leftarrow> putLe64 (arg32 p 2) now;
            if \<not> ok then ret wasiEFault else ret wasiOK } })"

definition clockResGet :: "'w host \<Rightarrow> config \<Rightarrow> u64 list \<Rightarrow> ('w st, u64) state" where
  "clockResGet H cfg p =
     (if p ! 0 > 3 then ret wasiEInval
      else do {
        (now, resolution, err) \<leftarrow> clockValue H cfg (arg32 p 0);
        if (case err of Some e \<Rightarrow> \<not> errorsIs e ErrClockOverflow | None \<Rightarrow> False) then ret wasiENotsup
        else do {
          ok \<leftarrow> putLe64 (arg32 p 1) resolution;
          if \<not> ok then ret wasiEFault else ret wasiOK } })"

definition randomGet :: "'w host \<Rightarrow> config \<Rightarrow> u64 list \<Rightarrow> ('w st, u64) state" where
  "randomGet H cfg p = do {
     let buf = arg32 p 0; let n = arg32 p 1;
     mem \<leftarrow> gets s_mem;
     if \<not> validMemoryRange mem buf n then ret wasiEFault
     else do {
       r \<leftarrow> hostCall H (HRandom (c_Rand cfg) (unat n));
       let (b, k, err) = asIO r;
       memStore (unat buf) (take (unat n) b);
       if err \<noteq> None then ret wasiEIo else ret wasiOK } }"

text \<open>\<^verbatim>\<open>filesystemNow\<close> of \<^verbatim>\<open>fs.go\<close>.\<close>

definition filesystemNow :: "'w host \<Rightarrow> config \<Rightarrow> ('w st, u64 + time) state" where
  "filesystemNow H cfg = do {
     (now, resolution, err) \<leftarrow> clockValue H cfg 0;
     if err \<noteq> None \<or> now > maxInt64Value then ret (Inl wasiENotsup)
     else ret (Inr (sint now)) }"

lemma triple_case_clock [vcg]:
  "(x = SystemClock \<Longrightarrow> triple P m Q R) \<Longrightarrow> (\<And>i. x = CustomClock i \<Longrightarrow> triple P (f i) Q R) \<Longrightarrow>
     triple P (case x of SystemClock \<Rightarrow> m | CustomClock i \<Rightarrow> f i) Q R"
  by (cases x) auto

lemma safe_clockValue [vcg]:
  "c_Clocks cfg \<noteq> None \<Longrightarrow> safe N M L fs (clockValue H cfg i) (\<lambda>_. True)"
  unfolding clockValue_def by (rule vcg | simp)+

lemma safe_clockTimeGet [vcg]:
  "N \<le> 4294967296 \<Longrightarrow> c_Clocks cfg \<noteq> None \<Longrightarrow> safe N M L fs (clockTimeGet H cfg p) (\<lambda>_. True)"
  unfolding clockTimeGet_def by (rule vcg | simp)+

lemma safe_clockResGet [vcg]:
  "N \<le> 4294967296 \<Longrightarrow> c_Clocks cfg \<noteq> None \<Longrightarrow> safe N M L fs (clockResGet H cfg p) (\<lambda>_. True)"
  unfolding clockResGet_def by (rule vcg | simp)+

lemma safe_randomGet [vcg]: "N \<le> 4294967296 \<Longrightarrow> safe N M L fs (randomGet H cfg p) (\<lambda>_. True)"
  unfolding randomGet_def by (rule vcg | simp add: range_simps)+

lemma safe_filesystemNow [vcg]:
  "c_Clocks cfg \<noteq> None \<Longrightarrow> safe N M L fs (filesystemNow H cfg) (\<lambda>r. \<forall>c. r = Inl c \<longrightarrow> c \<noteq> wasiOK)"
  unfolding filesystemNow_def by (rule vcg | simp)+

end
