(* ===== verification/Fd_Io.thy ===== *)
theory Fd_Io
  imports Clock
begin

text \<open>
  Reading, writing and positioning of descriptors: \<^verbatim>\<open>fdWrite\<close>, \<^verbatim>\<open>fdRead\<close>, \<^verbatim>\<open>fdSeek\<close> of \<^verbatim>\<open>core.go\<close> and
  \<^verbatim>\<open>fdTell\<close>, \<^verbatim>\<open>readAt\<close>, \<^verbatim>\<open>writeAt\<close>, \<^verbatim>\<open>fdAdvise\<close>, \<^verbatim>\<open>fdAllocate\<close>, \<^verbatim>\<open>syncFD\<close>, \<^verbatim>\<open>fdFilestatSetSize\<close> of \<^verbatim>\<open>fs.go\<close>,
  with the non-blocking and positioned system calls of \<^verbatim>\<open>io_unix.go\<close> and \<^verbatim>\<open>fs_linux.go\<close>. A handler maps
  the parameter words to the result word; an early \<^verbatim>\<open>return\<close> of the source is a branch.
\<close>

section \<open>Host I/O\<close>

text \<open>The retry loops of \<^verbatim>\<open>readNonblocking\<close>, \<^verbatim>\<open>writeNonblocking\<close> and \<^verbatim>\<open>writeFileAt\<close>.\<close>

fun readNonblockingLoop :: "'w host \<Rightarrow> fileid \<Rightarrow> nat \<Rightarrow> nat \<Rightarrow> ('w st, bytes \<times> int \<times> goerr option) state" where
  "readNonblockingLoop H f len 0 = do { stuck; ret ([], 0, Some (Errno EINTR)) }"
| "readNonblockingLoop H f len (Suc k) = do {
     r \<leftarrow> hostCall H (HSysRead f len);
     let (b, n, err) = asIO r;
     if err = Some (Errno EINTR) then readNonblockingLoop H f len k
     else ret (b, if n < 0 then 0 else n, err) }"

definition readNonblocking :: "'w host \<Rightarrow> fileid \<Rightarrow> nat \<Rightarrow> ('w st, bytes \<times> int \<times> goerr option) state" where
  "readNonblocking H f len = do { k \<leftarrow> gets s_fuel; readNonblockingLoop H f len k }"

fun writeNonblockingLoop :: "'w host \<Rightarrow> fileid \<Rightarrow> bytes \<Rightarrow> nat \<Rightarrow> ('w st, int \<times> goerr option) state" where
  "writeNonblockingLoop H f b 0 = do { stuck; ret (0, Some (Errno EINTR)) }"
| "writeNonblockingLoop H f b (Suc k) = do {
     r \<leftarrow> hostCall H (HSysWrite f b);
     let (x, n, err) = asIO r;
     if err = Some (Errno EINTR) then writeNonblockingLoop H f b k
     else ret (if n < 0 then 0 else n, err) }"

definition writeNonblocking :: "'w host \<Rightarrow> fileid \<Rightarrow> bytes \<Rightarrow> ('w st, int \<times> goerr option) state" where
  "writeNonblocking H f b = do { k \<leftarrow> gets s_fuel; writeNonblockingLoop H f b k }"

fun writeFileAtLoop :: "'w host \<Rightarrow> fileid \<Rightarrow> bytes \<Rightarrow> u64 \<Rightarrow> nat \<Rightarrow> ('w st, int \<times> goerr option) state" where
  "writeFileAtLoop H f b off 0 = do { stuck; ret (0, Some (Errno EINTR)) }"
| "writeFileAtLoop H f b off (Suc k) = do {
     r \<leftarrow> hostCall H (HPwrite f b off);
     let (x, n, err) = asIO r;
     if err = Some (Errno EINTR) then writeFileAtLoop H f b off k else ret (n, err) }"

definition writeFileAt :: "'w host \<Rightarrow> fileid \<Rightarrow> bytes \<Rightarrow> u64 \<Rightarrow> ('w st, int \<times> goerr option) state" where
  "writeFileAt H f b off = do { k \<leftarrow> gets s_fuel; writeFileAtLoop H f b off k }"

definition appendWriteAt :: "'w host \<Rightarrow> fileid \<Rightarrow> bytes \<Rightarrow> u64 \<Rightarrow> ('w st, int \<times> goerr option) state" where
  "appendWriteAt H f b off = writeFileAt H f b off"

text \<open>The Write and Read methods of a configured stream or open file, with the NONBLOCK detour.\<close>

definition streamWrite :: "'w host \<Rightarrow> u16 \<Rightarrow> stream \<Rightarrow> bytes \<Rightarrow> ('w st, int \<times> goerr option) state" where
  "streamWrite H flags out b = (case out of
      NilStream \<Rightarrow> ret (int (length b), None)
    | OsFile f \<Rightarrow>
        (if flags AND 4 \<noteq> 0 then writeNonblocking H f b
         else do { r \<leftarrow> hostCall H (HWrite f b); let (x, n, err) = asIO r; ret (n, err) })
    | CustomStream i pb hb \<Rightarrow>
        do { r \<leftarrow> hostCall H (HStreamWrite i b); let (x, n, err) = asIO r; ret (n, err) })"

definition streamRead :: "'w host \<Rightarrow> u16 \<Rightarrow> stream \<Rightarrow> nat \<Rightarrow> ('w st, bytes \<times> int \<times> goerr option) state" where
  "streamRead H flags inp len = (case inp of
      NilStream \<Rightarrow> ret ([], 0, None)
    | OsFile f \<Rightarrow>
        (if flags AND 4 \<noteq> 0 then readNonblocking H f len
         else do { r \<leftarrow> hostCall H (HRead f len); ret (asIO r) })
    | CustomStream i pb hb \<Rightarrow> do { r \<leftarrow> hostCall H (HStreamRead i len); ret (asIO r) })"

section \<open>Sequential I/O\<close>

text \<open>The object a descriptor writes to or reads from.\<close>

definition outOf :: "fdEntry \<Rightarrow> stream" where
  "outOf f = (case e_file f of Some file \<Rightarrow> OsFile file | None \<Rightarrow> e_writer f)"

definition inOf :: "fdEntry \<Rightarrow> stream" where
  "inOf f = (case e_file f of Some file \<Rightarrow> OsFile file | None \<Rightarrow> e_reader f)"

fun fdWriteLoop :: "'w host \<Rightarrow> u16 \<Rightarrow> stream \<Rightarrow> u32 \<Rightarrow> (nat \<times> nat) list \<Rightarrow> ('w st, u32 \<times> goerr option) state" where
  "fdWriteLoop H flags out tot [] = ret (tot, None)"
| "fdWriteLoop H flags out tot ((a, len) # bufs) =
     (if out \<noteq> NilStream then do {
        buf \<leftarrow> memLoad a len;
        (nn, err) \<leftarrow> streamWrite H flags out buf;
        let bad = (nn < 0 \<or> nn > int len);
        let err = (if bad then Some ErrShortWrite else err);
        let nn = (if bad then 0 else nn);
        let tot = tot + of_int nn;
        if err \<noteq> None \<or> nn \<noteq> int len
        then ret (tot, Some (case err of None \<Rightarrow> ErrShortWrite | Some e \<Rightarrow> e))
        else fdWriteLoop H flags out tot bufs }
      else fdWriteLoop H flags out (tot + of_nat len) bufs)"

definition fdWrite :: "'w host \<Rightarrow> config \<Rightarrow> u64 list \<Rightarrow> ('w st, u64) state" where
  "fdWrite H cfg p = do {
     let fd = arg32 p 0; let iovs = arg32 p 1; let n = arg32 p 2; let nwrittenPtr = arg32 p 3;
     fe \<leftarrow> entryRight fd rightFDWrite;
     case fe of Inl code \<Rightarrow> ret code | Inr f \<Rightarrow> do {
       let out = outOf f;
       mem \<leftarrow> gets s_mem;
       (bufs, code) \<leftarrow> iovecs cfg iovs n;
       if code \<noteq> 0 then ret code
       else if \<not> validMemoryRange mem nwrittenPtr 4 then ret wasiEFault
       else do {
         (tot, writeErr) \<leftarrow> fdWriteLoop H (e_flags f) out 0 bufs;
         ok \<leftarrow> putLe32 nwrittenPtr tot;
         if \<not> ok then ret wasiEFault
         else if writeErr \<noteq> None \<and> tot = 0 then ret (errno writeErr)
         else ret wasiOK } } }"

fun fdReadLoop :: "'w host \<Rightarrow> u16 \<Rightarrow> stream \<Rightarrow> u32 \<Rightarrow> (nat \<times> nat) list \<Rightarrow> ('w st, u32 \<times> goerr option) state" where
  "fdReadLoop H flags inp tot [] = ret (tot, None)"
| "fdReadLoop H flags inp tot ((a, len) # bufs) = do {
     (b, nn, err) \<leftarrow> streamRead H flags inp len;
     memStore a (take len b);
     let bad = (nn < 0 \<or> nn > int len);
     let err = (if bad then Some ErrNoProgress else err);
     let nn = (if bad then 0 else nn);
     let tot = tot + of_int nn;
     case err of
       Some e \<Rightarrow> ret (tot, if \<not> errorsIs e EOF then Some e else None)
     | None \<Rightarrow> if nn < int len then ret (tot, None) else fdReadLoop H flags inp tot bufs }"

definition fdRead :: "'w host \<Rightarrow> config \<Rightarrow> u64 list \<Rightarrow> ('w st, u64) state" where
  "fdRead H cfg p = do {
     let fd = arg32 p 0; let iovs = arg32 p 1; let n = arg32 p 2; let nreadPtr = arg32 p 3;
     fe \<leftarrow> entryRight fd rightFDRead;
     case fe of Inl code \<Rightarrow> ret code | Inr f \<Rightarrow> do {
       let inp = inOf f;
       mem \<leftarrow> gets s_mem;
       (bufs, code) \<leftarrow> iovecs cfg iovs n;
       if code \<noteq> 0 then ret code
       else if \<not> validMemoryRange mem nreadPtr 4 then ret wasiEFault
       else do {
         (tot, readErr) \<leftarrow> (if inp \<noteq> NilStream then fdReadLoop H (e_flags f) inp 0 bufs else ret (0, None));
         ok \<leftarrow> putLe32 nreadPtr tot;
         if \<not> ok then ret wasiEFault
         else if readErr \<noteq> None \<and> tot = 0 then ret (errno readErr)
         else ret wasiOK } } }"

section \<open>Positioned I/O\<close>

fun readAtLoop :: "'w host \<Rightarrow> fileid \<Rightarrow> u32 \<Rightarrow> u64 \<Rightarrow> (nat \<times> nat) list \<Rightarrow> ('w st, u32 \<times> u64) state" where
  "readAtLoop H file tot off [] = ret (tot, wasiOK)"
| "readAtLoop H file tot off ((a, len) # bufs) = do {
     r \<leftarrow> hostCall H (HReadAt file len off);
     let (b, n, err) = asIO r;
     memStore a (take len b);
     let tot = tot + of_int n;
     let off = off + of_int n;
     let code = (if err \<noteq> None \<and> err \<noteq> Some EOF then errno err else wasiOK);
     if n < int len then ret (tot, code)
     else if code \<noteq> 0 then ret (tot, code)
     else readAtLoop H file tot off bufs }"

definition readAt :: "'w host \<Rightarrow> config \<Rightarrow> u64 list \<Rightarrow> ('w st, u64) state" where
  "readAt H cfg p = do {
     fe \<leftarrow> entryRight (arg32 p 0) (rightFDRead OR rightFDSeek);
     (bufs, memCode) \<leftarrow> iovecs cfg (arg32 p 1) (arg32 p 2);
     mem \<leftarrow> gets s_mem;
     case fe of Inl code \<Rightarrow> ret code | Inr f \<Rightarrow>
       if memCode \<noteq> 0 then ret memCode
       else if p ! 3 > maxInt64Value then ret wasiEOverflow
       else (case e_file f of None \<Rightarrow> ret wasiEBadf | Some file \<Rightarrow>
         if \<not> validMemoryRange mem (arg32 p 4) 4 then ret wasiEFault
         else do {
           (tot, code) \<leftarrow> readAtLoop H file 0 (p ! 3) bufs;
           if code \<noteq> 0 then ret code
           else do {
             ok \<leftarrow> putLe32 (arg32 p 4) tot;
             if \<not> ok then ret wasiEFault else ret wasiOK } }) }"

fun writeAtLoop :: "'w host \<Rightarrow> u16 \<Rightarrow> fileid \<Rightarrow> u32 \<Rightarrow> u64 \<Rightarrow> (nat \<times> nat) list \<Rightarrow> ('w st, u32 \<times> u64) state" where
  "writeAtLoop H flags file tot off [] = ret (tot, wasiOK)"
| "writeAtLoop H flags file tot off ((a, len) # bufs) = do {
     b \<leftarrow> memLoad a len;
     (n, err) \<leftarrow> (if flags AND 1 \<noteq> 0 then appendWriteAt H file b off else writeFileAt H file b off);
     let bad = (n < 0 \<or> n > int len);
     let err = (if bad \<and> err = None then Some ErrShortWrite else err);
     let n = (if bad then 0 else n);
     let tot = tot + of_int n;
     let off = off + of_int n;
     if err \<noteq> None then ret (tot, if tot = 0 then errno err else wasiOK)
     else if n < int len then ret (tot, wasiOK)
     else writeAtLoop H flags file tot off bufs }"

definition writeAt :: "'w host \<Rightarrow> config \<Rightarrow> u64 list \<Rightarrow> ('w st, u64) state" where
  "writeAt H cfg p = do {
     fe \<leftarrow> entryRight (arg32 p 0) (rightFDWrite OR rightFDSeek);
     (bufs, memCode) \<leftarrow> iovecs cfg (arg32 p 1) (arg32 p 2);
     mem \<leftarrow> gets s_mem;
     case fe of Inl code \<Rightarrow> ret code | Inr f \<Rightarrow>
       if memCode \<noteq> 0 then ret memCode
       else if p ! 3 > maxInt64Value then ret wasiEOverflow
       else (case e_file f of None \<Rightarrow> ret wasiEBadf | Some file \<Rightarrow>
         if \<not> validMemoryRange mem (arg32 p 4) 4 then ret wasiEFault
         else do {
           (tot, code) \<leftarrow> writeAtLoop H (e_flags f) file 0 (p ! 3) bufs;
           if code \<noteq> 0 then ret code
           else do {
             ok \<leftarrow> putLe32 (arg32 p 4) tot;
             if \<not> ok then ret wasiEFault else ret wasiOK } }) }"

definition fdPread :: "'w host \<Rightarrow> config \<Rightarrow> u64 list \<Rightarrow> ('w st, u64) state" where
  "fdPread H cfg p = readAt H cfg p"

definition fdPwrite :: "'w host \<Rightarrow> config \<Rightarrow> u64 list \<Rightarrow> ('w st, u64) state" where
  "fdPwrite H cfg p = writeAt H cfg p"

section \<open>Positions, space and synchronisation\<close>

definition fdSeek :: "'w host \<Rightarrow> config \<Rightarrow> u64 list \<Rightarrow> ('w st, u64) state" where
  "fdSeek H cfg p = do {
     fe \<leftarrow> entryRight (arg32 p 0) rightFDSeek;
     case fe of Inl code \<Rightarrow> ret code | Inr f \<Rightarrow>
     (case e_file f of None \<Rightarrow> ret wasiESpipe | Some file \<Rightarrow> do {
        st \<leftarrow> hostStat H file;
        case st of Inl err \<Rightarrow> ret (errno (Some err)) | Inr info \<Rightarrow>
        if isDir info then ret wasiEBadf
        else do {
          let whence = sint (p ! 2);
          if whence < 0 \<or> whence > 2 then ret wasiEInval
          else do {
            mem \<leftarrow> gets s_mem;
            if \<not> validMemoryRange mem (arg32 p 3) 8 then ret wasiEFault
            else do {
              r \<leftarrow> hostCall H (HSeek file (p ! 1) (nat whence));
              case asInt r of Inl err \<Rightarrow> ret (errno (Some err)) | Inr off \<Rightarrow> do {
                ok \<leftarrow> putLe64 (arg32 p 3) off;
                if \<not> ok then ret wasiEFault else ret wasiOK } } } } }) }"

definition fdTell :: "'w host \<Rightarrow> config \<Rightarrow> u64 list \<Rightarrow> ('w st, u64) state" where
  "fdTell H cfg p = do {
     fe \<leftarrow> entryRight (arg32 p 0) rightFDTell;
     case fe of Inl code \<Rightarrow> ret code | Inr f \<Rightarrow>
     (case e_file f of None \<Rightarrow> ret wasiESpipe | Some file \<Rightarrow> do {
        r \<leftarrow> hostCall H (HSeek file 0 1);
        case asInt r of Inl err \<Rightarrow> ret (errno (Some err)) | Inr off \<Rightarrow> do {
          ok \<leftarrow> putLe64 (arg32 p 1) off;
          if \<not> ok then ret wasiEFault else ret wasiOK } }) }"

definition fdAdvise :: "'w host \<Rightarrow> config \<Rightarrow> u64 list \<Rightarrow> ('w st, u64) state" where
  "fdAdvise H cfg p = do {
     fe \<leftarrow> entryRight (arg32 p 0) rightFDAdvise;
     case fe of Inl code \<Rightarrow> ret code | Inr f \<Rightarrow>
       if p ! 3 > 5 then ret wasiEInval else ret wasiOK }"

definition allocateFile :: "'w host \<Rightarrow> fileid \<Rightarrow> u64 \<Rightarrow> u64 \<Rightarrow> ('w st, goerr option) state" where
  "allocateFile H file off len = do { r \<leftarrow> hostCall H (HFallocate file off len); ret (asErr r) }"

definition fdAllocate :: "'w host \<Rightarrow> config \<Rightarrow> u64 list \<Rightarrow> ('w st, u64) state" where
  "fdAllocate H cfg p = do {
     fe \<leftarrow> entryRight (arg32 p 0) rightFDAllocate;
     case fe of Inl code \<Rightarrow> ret code | Inr f \<Rightarrow>
     (case e_file f of None \<Rightarrow> ret wasiEBadf | Some file \<Rightarrow> do {
        let end' = p ! 1 + p ! 2;
        if end' < p ! 1 \<or> end' > maxInt64Value then ret wasiEInval
        else do {
          err \<leftarrow> allocateFile H file (p ! 1) (p ! 2);
          ret (errno err) } }) }"

definition syncFD :: "'w host \<Rightarrow> u32 \<Rightarrow> u64 \<Rightarrow> ('w st, u64) state" where
  "syncFD H fd right = do {
     fe \<leftarrow> entryRight fd right;
     case fe of Inl code \<Rightarrow> ret code | Inr f \<Rightarrow>
     (case e_file f of None \<Rightarrow> ret wasiOK | Some file \<Rightarrow> do {
        r \<leftarrow> hostCall H (HSync file);
        ret (errno (asErr r)) }) }"

definition fdDatasync :: "'w host \<Rightarrow> config \<Rightarrow> u64 list \<Rightarrow> ('w st, u64) state" where
  "fdDatasync H cfg p = syncFD H (arg32 p 0) rightFDDataSync"

definition fdSync :: "'w host \<Rightarrow> config \<Rightarrow> u64 list \<Rightarrow> ('w st, u64) state" where
  "fdSync H cfg p = syncFD H (arg32 p 0) rightFDSync"

definition setFileSize :: "'w host \<Rightarrow> fileid \<Rightarrow> u64 \<Rightarrow> ('w st, goerr option) state" where
  "setFileSize H file n = do { r \<leftarrow> hostCall H (HTruncate file n); ret (asErr r) }"

definition fdFilestatSetSize :: "'w host \<Rightarrow> config \<Rightarrow> u64 list \<Rightarrow> ('w st, u64) state" where
  "fdFilestatSetSize H cfg p = do {
     fe \<leftarrow> entryRight (arg32 p 0) rightFDFilestatSetSize;
     case fe of Inl code \<Rightarrow> ret code | Inr f \<Rightarrow>
     (case e_file f of None \<Rightarrow> ret wasiEBadf | Some file \<Rightarrow>
        if p ! 1 > maxInt64Value then ret wasiEOverflow
        else do { err \<leftarrow> setFileSize H file (p ! 1); ret (errno err) }) }"

section \<open>Safety of the I/O handlers\<close>

lemma outOf_hasRight:
  "entryOk M f \<Longrightarrow> e_rights f AND r = r \<Longrightarrow> outOf f = OsFile g \<Longrightarrow> hasRight M g r"
  by (auto simp: outOf_def entryOk_def entryRoot_def hasRight_def streamOk_def
      intro: right_within split: option.splits)

lemma inOf_hasRight:
  "entryOk M f \<Longrightarrow> e_rights f AND r = r \<Longrightarrow> inOf f = OsFile g \<Longrightarrow> hasRight M g r"
  by (auto simp: inOf_def entryOk_def entryRoot_def hasRight_def streamOk_def
      intro: right_within split: option.splits)

lemma safe_readNonblockingLoop [vcg]:
  "hasRight M f rightFDRead \<Longrightarrow> safe N M L fs (readNonblockingLoop H f len k) (\<lambda>_. True)"
  by (induction k) (simp, (rule vcg | simp)+)+

lemma safe_writeNonblockingLoop [vcg]:
  "hasRight M f rightFDWrite \<Longrightarrow> safe N M L fs (writeNonblockingLoop H f b k) (\<lambda>_. True)"
  by (induction k) (simp, (rule vcg | simp)+)+

lemma safe_writeFileAtLoop [vcg]:
  "hasRight M f (rightFDWrite OR rightFDSeek) \<Longrightarrow> safe N M L fs (writeFileAtLoop H f b off k) (\<lambda>_. True)"
  by (induction k) (simp, (rule vcg | simp)+)+

lemma safe_writeFileAt [vcg]:
  "hasRight M f (rightFDWrite OR rightFDSeek) \<Longrightarrow> safe N M L fs (writeFileAt H f b off) (\<lambda>_. True)"
  "hasRight M f (rightFDWrite OR rightFDSeek) \<Longrightarrow> safe N M L fs (appendWriteAt H f b off) (\<lambda>_. True)"
  unfolding writeFileAt_def appendWriteAt_def by (rule vcg | simp)+

lemma safe_streamWrite [vcg]:
  "(\<And>g. out = OsFile g \<Longrightarrow> hasRight M g rightFDWrite) \<Longrightarrow> safe N M L fs (streamWrite H flags out b) (\<lambda>_. True)"
  unfolding streamWrite_def writeNonblocking_def by (rule vcg | simp)+

lemma safe_streamRead [vcg]:
  "(\<And>g. inp = OsFile g \<Longrightarrow> hasRight M g rightFDRead) \<Longrightarrow> safe N M L fs (streamRead H flags inp n) (\<lambda>_. True)"
  unfolding streamRead_def readNonblocking_def by (rule vcg | simp)+

lemma min_bound [simp]: "a + n \<le> N \<Longrightarrow> a + min k n \<le> (N :: nat)"
  by simp

lemma safe_fdWriteLoop [vcg]:
  "(\<And>g. out = OsFile g \<Longrightarrow> hasRight M g rightFDWrite) \<Longrightarrow> \<forall>b\<in>set bufs. bufOk N b \<Longrightarrow>
     safe N M L fs (fdWriteLoop H flags out tot bufs) (\<lambda>_. True)"
proof (induction bufs arbitrary: tot)
  case (Cons b bufs)
  then show ?case
    by (cases b) (simp only: fdWriteLoop.simps, (rule vcg Cons.IH | simp add: bufOk_def)+)
qed (simp, (rule vcg | simp)+)

lemma safe_fdReadLoop [vcg]:
  "(\<And>g. inp = OsFile g \<Longrightarrow> hasRight M g rightFDRead) \<Longrightarrow> \<forall>b\<in>set bufs. bufOk N b \<Longrightarrow>
     safe N M L fs (fdReadLoop H flags inp tot bufs) (\<lambda>_. True)"
proof (induction bufs arbitrary: tot)
  case (Cons b bufs)
  then show ?case
    by (cases b) (simp only: fdReadLoop.simps, (rule vcg Cons.IH | simp add: bufOk_def)+)
qed (simp, (rule vcg | simp)+)

lemma safe_readAtLoop [vcg]:
  "hasRight M f (rightFDRead OR rightFDSeek) \<Longrightarrow> \<forall>b\<in>set bufs. bufOk N b \<Longrightarrow>
     safe N M L fs (readAtLoop H f tot off bufs) (\<lambda>_. True)"
proof (induction bufs arbitrary: tot off)
  case (Cons b bufs)
  then show ?case
    by (cases b) (simp only: readAtLoop.simps, (rule vcg Cons.IH | simp add: bufOk_def)+)
qed (simp, (rule vcg | simp)+)

lemma safe_writeAtLoop [vcg]:
  "hasRight M f (rightFDWrite OR rightFDSeek) \<Longrightarrow> \<forall>b\<in>set bufs. bufOk N b \<Longrightarrow>
     safe N M L fs (writeAtLoop H flags f tot off bufs) (\<lambda>_. True)"
proof (induction bufs arbitrary: tot off)
  case (Cons b bufs)
  then show ?case
    by (cases b) (simp only: writeAtLoop.simps, (rule vcg Cons.IH | simp add: bufOk_def)+)
qed (simp, (rule vcg | simp)+)

lemma safe_fdWrite [vcg]:
  "N \<le> 4294967296 \<Longrightarrow> tableOk M fs \<Longrightarrow> safe N M L fs (fdWrite H cfg p) (\<lambda>_. True)"
  unfolding fdWrite_def by (rule vcg | force dest: tableOk_entry outOf_hasRight | simp)+

lemma safe_fdRead [vcg]:
  "N \<le> 4294967296 \<Longrightarrow> tableOk M fs \<Longrightarrow> safe N M L fs (fdRead H cfg p) (\<lambda>_. True)"
  unfolding fdRead_def by (rule vcg | force dest: tableOk_entry inOf_hasRight | simp)+

lemma safe_readAt [vcg]:
  "N \<le> 4294967296 \<Longrightarrow> tableOk M fs \<Longrightarrow> safe N M L fs (readAt H cfg p) (\<lambda>_. True)"
  unfolding readAt_def by (rule vcg | fastforce intro: file_right | simp)+

lemma safe_writeAt [vcg]:
  "N \<le> 4294967296 \<Longrightarrow> tableOk M fs \<Longrightarrow> safe N M L fs (writeAt H cfg p) (\<lambda>_. True)"
  unfolding writeAt_def by (rule vcg | fastforce intro: file_right | simp)+

lemma safe_fdSeek [vcg]:
  "N \<le> 4294967296 \<Longrightarrow> tableOk M fs \<Longrightarrow> safe N M L fs (fdSeek H cfg p) (\<lambda>_. True)"
  unfolding fdSeek_def by (rule vcg | fastforce intro: file_right | simp)+

lemma safe_fdTell [vcg]:
  "N \<le> 4294967296 \<Longrightarrow> safe N M L fs (fdTell H cfg p) (\<lambda>_. True)"
  unfolding fdTell_def by (rule vcg | simp)+

lemma safe_fdAdvise [vcg]: "safe N M L fs (fdAdvise H cfg p) (\<lambda>_. True)"
  unfolding fdAdvise_def by (rule vcg | simp)+

lemma safe_allocateFile [vcg]:
  "hasRight M f rightFDAllocate \<Longrightarrow> safe N M L fs (allocateFile H f off n) (\<lambda>_. True)"
  unfolding allocateFile_def by (rule vcg | simp)+

lemma safe_setFileSize [vcg]:
  "hasRight M f rightFDFilestatSetSize \<Longrightarrow> safe N M L fs (setFileSize H f n) (\<lambda>_. True)"
  unfolding setFileSize_def by (rule vcg | simp)+

lemma safe_fdAllocate [vcg]:
  "tableOk M fs \<Longrightarrow> safe N M L fs (fdAllocate H cfg p) (\<lambda>_. True)"
  unfolding fdAllocate_def by (rule vcg | fastforce intro: file_right | simp)+

lemma safe_syncFD [vcg]:
  "tableOk M fs \<Longrightarrow> right AND (rightFDSync OR rightFDDataSync) \<noteq> 0 \<Longrightarrow> safe N M L fs (syncFD H fd right) (\<lambda>_. True)"
  unfolding syncFD_def by (rule vcg | fastforce intro: file_right file_any | simp)+

lemma safe_fdFilestatSetSize [vcg]:
  "tableOk M fs \<Longrightarrow> safe N M L fs (fdFilestatSetSize H cfg p) (\<lambda>_. True)"
  unfolding fdFilestatSetSize_def by (rule vcg | fastforce intro: file_right | simp)+

section \<open>Retry loops\<close>

text \<open>\<open>interruptions H c P n w\<close>: from the world \<open>w\<close> on the host answers the call \<open>c\<close> with an interruption \<open>n\<close>
  times, and then with something else.\<close>

fun interruptions :: "'w host \<Rightarrow> hostcall \<Rightarrow> (hostres \<Rightarrow> bool) \<Rightarrow> nat \<Rightarrow> 'w \<Rightarrow> bool" where
  "interruptions H c P 0 w = (\<not> P (fst (H c w)))"
| "interruptions H c P (Suc n) w = (P (fst (H c w)) \<and> interruptions H c P n (snd (H c w)))"

locale retry_loop =
  fixes H :: "'w host" and call :: hostcall and interrupted :: "hostres \<Rightarrow> bool" and finish :: "hostres \<Rightarrow> 'a"
    and gaveUp :: 'a and loop :: "nat \<Rightarrow> ('w st, 'a) state"
  assumes loop_0: "loop 0 = do { stuck; ret gaveUp }"
    and loop_Suc: "loop (Suc k) = do { r \<leftarrow> hostCall H call; if interrupted r then loop k else ret (finish r) }"
begin

text \<open>With more rounds than interruptions the loop delivers the first other answer, after one call more than there
  were interruptions.\<close>

lemma loop_returns:
  "interruptions H call interrupted n (s_world s) \<Longrightarrow> n < k \<Longrightarrow>
     run_state (loop k) s =
       (let w = ((snd \<circ> H call) ^^ n) (s_world s) in
        (finish (fst (H call w)), s\<lparr>s_world := snd (H call w), s_log := s_log s @ replicate (Suc n) call\<rparr>))"
proof (induction n arbitrary: k s)
  case 0
  then obtain k' where "k = Suc k'" by (cases k) simp_all
  with 0 show ?case by (simp add: loop_Suc Let_def)
next
  case (Suc n)
  then obtain k' where k: "k = Suc k'" by (cases k) simp_all
  show ?case
    using Suc.IH [of "s\<lparr>s_world := snd (H call (s_world s)), s_log := s_log s @ [call]\<rparr>" k'] Suc.prems
    by (simp add: k loop_Suc Let_def funpow_Suc_right del: funpow.simps)
qed

end

definition interruptedIO :: "hostres \<Rightarrow> bool" where
  "interruptedIO r \<longleftrightarrow> snd (snd (asIO r)) = Some (Errno EINTR)"

interpretation readRetry: retry_loop H "HSysRead f len" interruptedIO
  "\<lambda>r. (fst (asIO r), if fst (snd (asIO r)) < 0 then 0 else fst (snd (asIO r)), snd (snd (asIO r)))" "([], 0, Some (Errno EINTR))" "readNonblockingLoop H f len"
  for H :: "'w host" and f len
  by unfold_locales (simp_all add: interruptedIO_def case_prod_beta Let_def cong: if_cong)

interpretation writeRetry: retry_loop H "HSysWrite f b" interruptedIO
  "\<lambda>r. (if fst (snd (asIO r)) < 0 then 0 else fst (snd (asIO r)), snd (snd (asIO r)))" "(0, Some (Errno EINTR))" "writeNonblockingLoop H f b"
  for H :: "'w host" and f b
  by unfold_locales (simp_all add: interruptedIO_def case_prod_beta Let_def cong: if_cong)

interpretation pwriteRetry: retry_loop H "HPwrite f b off" interruptedIO
  "\<lambda>r. (fst (snd (asIO r)), snd (snd (asIO r)))" "(0, Some (Errno EINTR))" "writeFileAtLoop H f b off"
  for H :: "'w host" and f b off
  by unfold_locales (simp_all add: interruptedIO_def case_prod_beta Let_def cong: if_cong)

lemma fdWriteLoop_complete:
  assumes "e_flags f AND 4 = 0" and "out = OsFile g"
    and "\<And>b w. snd (asIO (fst (H (HWrite g b) w))) = (int (length b), None)"
  shows "\<forall>b\<in>set bufs. bufOk (length (s_mem s)) b \<Longrightarrow>
    \<exists>w. run_state (fdWriteLoop H (e_flags f) out tot bufs) s =
      ((tot + of_nat (sum_list (map snd bufs)), None),
       s\<lparr>s_world := w, s_log := s_log s @ map (\<lambda>(a, n). HWrite g (mem_slice a n (s_mem s))) bufs\<rparr>)"
proof (induction bufs arbitrary: tot s)
  case Nil
  have "s = s\<lparr>s_world := s_world s\<rparr>" by simp
  then show ?case by (simp, blast)
next
  case (Cons b bufs)
  obtain a n where b: "b = (a, n)" by (cases b)
  let ?buf = "mem_slice a n (s_mem s)"
  let ?s = "s\<lparr>s_world := snd (H (HWrite g ?buf) (s_world s)), s_log := s_log s @ [HWrite g ?buf]\<rparr>"
  have room: "a + n \<le> length (s_mem s)" using Cons.prems b by (auto simp: bufOk_def)
  then have len: "length ?buf = n" by simp
  obtain w where w: "run_state (fdWriteLoop H (e_flags f) out (tot + of_nat n) bufs) ?s =
      ((tot + of_nat n + of_nat (sum_list (map snd bufs)), None),
       ?s\<lparr>s_world := w, s_log := s_log ?s @ map (\<lambda>(a, n). HWrite g (mem_slice a n (s_mem ?s))) bufs\<rparr>)"
    using Cons.IH [of ?s "tot + of_nat n"] Cons.prems by auto
  have "run_state (fdWriteLoop H (e_flags f) out tot (b # bufs)) s = run_state (fdWriteLoop H (e_flags f) out (tot + of_nat n) bufs) ?s"
    using room assms len by (simp add: b memLoad_def streamWrite_def run_hostCall Let_def case_prod_beta)
  with w have "run_state (fdWriteLoop H (e_flags f) out tot (b # bufs)) s =
      ((tot + of_nat (sum_list (map snd (b # bufs))), None),
       s\<lparr>s_world := w, s_log := s_log s @ map (\<lambda>(a, n). HWrite g (mem_slice a n (s_mem s))) (b # bufs)\<rparr>)"
    by (simp add: b add.assoc)
  then show ?case by blast
qed

end
