(* ===== verification/Fd_Meta.thy ===== *)
theory Fd_Meta
  imports Fd_Io
begin

text \<open>
  Descriptor metadata and management: \<^verbatim>\<open>fdClose\<close>, \<^verbatim>\<open>fdFdstatGet\<close>, \<^verbatim>\<open>fdPrestatGet\<close>, \<^verbatim>\<open>fdPrestatDirName\<close> and
  the argument handlers of \<^verbatim>\<open>core.go\<close>; \<^verbatim>\<open>fdFdstatSetFlags\<close>, \<^verbatim>\<open>fdFdstatSetRights\<close>, \<^verbatim>\<open>fdFilestatGet\<close>,
  \<^verbatim>\<open>timesFor\<close>, \<^verbatim>\<open>fdFilestatSetTimes\<close>, \<^verbatim>\<open>fdRenumber\<close> and the unsupported socket calls of \<^verbatim>\<open>fs.go\<close>.
\<close>

section \<open>Arguments and environment\<close>

definition argsSizesGet :: "config \<Rightarrow> u64 list \<Rightarrow> ('w st, u64) state" where
  "argsSizesGet cfg p = writeCounts (arg32 p 0) (arg32 p 1) (c_Args cfg)"

definition argsGet :: "config \<Rightarrow> u64 list \<Rightarrow> ('w st, u64) state" where
  "argsGet cfg p = writeStrings (arg32 p 0) (arg32 p 1) (c_Args cfg)"

definition environSizesGet :: "config \<Rightarrow> u64 list \<Rightarrow> ('w st, u64) state" where
  "environSizesGet cfg p = writeCounts (arg32 p 0) (arg32 p 1) (c_Env cfg)"

definition environGet :: "config \<Rightarrow> u64 list \<Rightarrow> ('w st, u64) state" where
  "environGet cfg p = writeStrings (arg32 p 0) (arg32 p 1) (c_Env cfg)"

section \<open>Descriptor status\<close>

definition entryFiletype :: "'w host \<Rightarrow> fdEntry \<Rightarrow> ('w st, u64 + u8) state" where
  "entryFiletype H f = (case e_file f of
      None \<Rightarrow> ret (Inr filetypeCharacterDevice)
    | Some file \<Rightarrow> do {
        st \<leftarrow> hostStat H file;
        ret (case st of Inl err \<Rightarrow> Inl (errno (Some err)) | Inr info \<Rightarrow> Inr (filetype info)) })"

definition fdFdstatGet :: "'w host \<Rightarrow> config \<Rightarrow> u64 list \<Rightarrow> ('w st, u64) state" where
  "fdFdstatGet H cfg p = do {
     let fd = arg32 p 0; let buf = arg32 p 1;
     fe \<leftarrow> entry fd;
     case fe of Inl code \<Rightarrow> ret code | Inr f \<Rightarrow> do {
       mem \<leftarrow> gets s_mem;
       if \<not> validMemoryRange mem buf 24 then ret wasiEFault
       else do {
         memStore (unat buf) (replicate 24 0);
         ft \<leftarrow> entryFiletype H f;
         case ft of Inl code \<Rightarrow> ret code | Inr t \<Rightarrow> do {
           memStore (unat buf) [t];
           memStore (unat (buf + 2)) (le_bytes 2 (e_flags f));
           memStore (unat (buf + 8)) (le_bytes 8 (e_rights f));
           memStore (unat (buf + 16)) (le_bytes 8 (e_inheriting f));
           ret wasiOK } } } }"

definition fdPrestatGet :: "'w host \<Rightarrow> config \<Rightarrow> u64 list \<Rightarrow> ('w st, u64) state" where
  "fdPrestatGet H cfg p = do {
     fe \<leftarrow> entry (arg32 p 0);
     case fe of Inl code \<Rightarrow> ret code | Inr f \<Rightarrow>
       if e_preopen f = [] then ret wasiEBadf
       else do {
         mem \<leftarrow> gets s_mem;
         let ptr = arg32 p 1;
         if \<not> validMemoryRange mem ptr 8 then ret wasiEFault
         else do {
           memStore (unat ptr) (replicate 8 0);
           memStore (unat (ptr + 4)) (le_bytes 4 (of_nat (length (e_preopen f)) :: u32));
           ret wasiOK } } }"

definition fdPrestatDirName :: "'w host \<Rightarrow> config \<Rightarrow> u64 list \<Rightarrow> ('w st, u64) state" where
  "fdPrestatDirName H cfg p = do {
     fe \<leftarrow> entry (arg32 p 0);
     case fe of Inl code \<Rightarrow> ret code | Inr f \<Rightarrow>
       if e_preopen f = [] then ret wasiEBadf
       else do {
         let ptr = arg32 p 1; let n = arg32 p 2;
         if n < of_nat (length (e_preopen f)) then ret wasiENametoolong
         else do {
           mem \<leftarrow> gets s_mem;
           if (ucast ptr :: u64) + of_nat (length (e_preopen f)) > of_nat (length mem) then ret wasiEFault
           else do { memStore (unat ptr) (string_bytes (e_preopen f)); ret wasiOK } } } }"

definition fdFilestatGet :: "'w host \<Rightarrow> config \<Rightarrow> u64 list \<Rightarrow> ('w st, u64) state" where
  "fdFilestatGet H cfg p = do {
     fe \<leftarrow> entryRight (arg32 p 0) rightFDFilestatGet;
     case fe of Inl code \<Rightarrow> ret code | Inr f \<Rightarrow>
     (case e_file f of
        None \<Rightarrow> do {
          mem \<leftarrow> gets s_mem;
          let ptr = arg32 p 1;
          if (ucast ptr :: u64) + 64 > of_nat (length mem) then ret wasiEFault
          else do {
            memStore (unat ptr) (replicate 64 0);
            memStore (unat ptr + 16) [filetypeCharacterDevice];
            memStore (unat ptr + 24) (le_bytes 8 (1 :: u64));
            ret wasiOK } }
      | Some file \<Rightarrow> do {
          st \<leftarrow> hostStat H file;
          case st of Inl err \<Rightarrow> ret (errno (Some err)) | Inr info \<Rightarrow> writeFilestat (arg32 p 1) info }) }"

section \<open>Flags and rights\<close>

definition setHostFileFlags :: "'w host \<Rightarrow> fileid \<Rightarrow> u16 \<Rightarrow> ('w st, goerr option) state" where
  "setHostFileFlags H file flags = do {
     r \<leftarrow> hostCall H (HGetfl file);
     case asInt r of Inl err \<Rightarrow> ret (Some err) | Inr current \<Rightarrow> do {
       let current = current AND NOT (O_APPEND OR O_NONBLOCK);
       let current = (if flags AND 1 \<noteq> 0 then current OR O_APPEND else current);
       let current = (if flags AND 4 \<noteq> 0 then current OR O_NONBLOCK else current);
       r \<leftarrow> hostCall H (HSetfl file current);
       ret (asErr r) } }"

definition streamFile :: "stream \<Rightarrow> fileid option" where
  "streamFile s = (case s of OsFile f \<Rightarrow> Some f | _ \<Rightarrow> None)"

definition flagTarget :: "fdEntry \<Rightarrow> fileid option" where
  "flagTarget f =
     (let hostFile = e_file f;
          hostFile = (if hostFile = None then streamFile (e_reader f) else hostFile);
          hostFile = (if hostFile = None then streamFile (e_writer f) else hostFile)
      in hostFile)"

definition fdFdstatSetFlags :: "'w host \<Rightarrow> config \<Rightarrow> u64 list \<Rightarrow> ('w st, u64) state" where
  "fdFdstatSetFlags H cfg p = do {
     let fd = arg32 p 0;
     let flags = (ucast (p ! 1) :: u16);
     fe \<leftarrow> entryRight fd rightFDStatSetFlags;
     case fe of Inl code \<Rightarrow> ret code | Inr f \<Rightarrow>
       if p ! 1 AND NOT 0x1f \<noteq> 0 then ret wasiEInval
       else if flags AND 0x1a \<noteq> 0 then ret wasiENotsup
       else do {
         case flagTarget f of
           Some file \<Rightarrow> do {
             err \<leftarrow> setHostFileFlags H file flags;
             if err \<noteq> None then ret (errno err)
             else do { putEntry fd (f\<lparr>e_flags := flags\<rparr>); ret wasiOK } }
         | None \<Rightarrow>
             if flags \<noteq> 0 then ret wasiENotsup
             else do { putEntry fd (f\<lparr>e_flags := flags\<rparr>); ret wasiOK } } }"

definition fdFdstatSetRights :: "'w host \<Rightarrow> config \<Rightarrow> u64 list \<Rightarrow> ('w st, u64) state" where
  "fdFdstatSetRights H cfg p = do {
     fe \<leftarrow> entry (arg32 p 0);
     case fe of Inl code \<Rightarrow> ret code | Inr f \<Rightarrow> do {
       let base = p ! 1; let inheriting = p ! 2;
       if base AND NOT (e_rights f) \<noteq> 0 \<or> inheriting AND NOT (e_inheriting f) \<noteq> 0 then ret wasiENotcapable
       else do {
         putEntry (arg32 p 0) (f\<lparr>e_rights := base, e_inheriting := inheriting\<rparr>);
         ret wasiOK } } }"

section \<open>Times\<close>

definition validFstFlags :: "u64 \<Rightarrow> bool" where
  "validFstFlags flags \<longleftrightarrow> flags AND NOT 15 = 0 \<and> flags AND 3 \<noteq> 3 \<and> flags AND 12 \<noteq> 12"

definition hostAccessTime :: "finfo \<Rightarrow> time" where
  "hostAccessTime info = (case fi_sys info of
      Some st \<Rightarrow> sint (st_atim_sec st) * 1000000000 + sint (st_atim_nsec st)
    | None \<Rightarrow> fi_mtime info)"

definition timesFor :: "finfo \<Rightarrow> u64 \<Rightarrow> u64 \<Rightarrow> u64 \<Rightarrow> time \<Rightarrow> u64 + time \<times> time" where
  "timesFor info atim mtim flags now =
     (if \<not> validFstFlags flags then Inl wasiEInval
      else if flags AND 1 \<noteq> 0 \<and> atim > maxInt64Value \<or> flags AND 4 \<noteq> 0 \<and> mtim > maxInt64Value
      then Inl wasiEOverflow
      else
        let a = hostAccessTime info; mt = fi_mtime info;
            a = (if flags AND 1 \<noteq> 0 then sint atim else a);
            a = (if flags AND 2 \<noteq> 0 then now else a);
            mt = (if flags AND 4 \<noteq> 0 then sint mtim else mt);
            mt = (if flags AND 8 \<noteq> 0 then now else mt)
        in Inr (a, mt))"

definition setFileTimes :: "'w host \<Rightarrow> fileid \<Rightarrow> time \<times> time \<Rightarrow> ('w st, goerr option) state" where
  "setFileTimes H file ts = do {
     r \<leftarrow> hostCall H (HUtimes file [] (fst ts) (snd ts) False);
     ret (asErr r) }"

text \<open>The part that \<^verbatim>\<open>fdFilestatSetTimes\<close> and both branches of \<^verbatim>\<open>pathFilestatSetTimes\<close> share: the clock is
  read only when a flag asks for the current time, then the times are computed.\<close>

definition requestedTimes :: "'w host \<Rightarrow> config \<Rightarrow> finfo \<Rightarrow> u64 \<Rightarrow> u64 \<Rightarrow> u64 \<Rightarrow> ('w st, u64 + time \<times> time) state" where
  "requestedTimes H cfg info atim mtim flags =
     (if flags AND 0xa \<noteq> 0 then do {
        now \<leftarrow> filesystemNow H cfg;
        case now of Inl code \<Rightarrow> ret (Inl code) | Inr t \<Rightarrow> ret (timesFor info atim mtim flags t) }
      else ret (timesFor info atim mtim flags 0))"

definition fdFilestatSetTimes :: "'w host \<Rightarrow> config \<Rightarrow> u64 list \<Rightarrow> ('w st, u64) state" where
  "fdFilestatSetTimes H cfg p = do {
     fe \<leftarrow> entryRight (arg32 p 0) rightFDFilestatSetTimes;
     case fe of Inl code \<Rightarrow> ret code | Inr f \<Rightarrow>
     (case e_file f of None \<Rightarrow> ret wasiEBadf | Some file \<Rightarrow> do {
        st \<leftarrow> hostStat H file;
        case st of Inl err \<Rightarrow> ret (errno (Some err)) | Inr info \<Rightarrow> do {
          rt \<leftarrow> requestedTimes H cfg info (p ! 1) (p ! 2) (p ! 3);
          case rt of Inl code \<Rightarrow> ret code | Inr ts \<Rightarrow> do {
            err \<leftarrow> setFileTimes H file ts;
            ret (errno err) } } }) }"

section \<open>Closing and renumbering\<close>

definition closeOpt :: "'w host \<Rightarrow> fileid option \<Rightarrow> ('w st, goerr option) state" where
  "closeOpt H f = (case f of None \<Rightarrow> ret None | Some g \<Rightarrow> hostClose H g)"

definition fdClose :: "'w host \<Rightarrow> config \<Rightarrow> u64 list \<Rightarrow> ('w st, u64) state" where
  "fdClose H cfg p = do {
     let fd = arg32 p 0;
     fe \<leftarrow> entry fd;
     case fe of Inl code \<Rightarrow> ret code | Inr f \<Rightarrow> do {
       iterErr \<leftarrow> closeOpt H (e_dirIter f);
       let code = errno iterErr;
       fileErr \<leftarrow> closeOpt H (e_file f);
       let closeCode = errno fileErr;
       deleteEntry fd;
       ret (if code = 0 then closeCode else code) } }"

text \<open>\<^verbatim>\<open>e.fs.fds[to] = f; delete(e.fs.fds, from)\<close>.\<close>

definition moveEntry :: "u32 \<Rightarrow> u32 \<Rightarrow> fdEntry \<Rightarrow> ('w st, unit) state" where
  "moveEntry from to f = modify (\<lambda>s. s\<lparr>s_fs := (s_fs s)\<lparr>fs_fds :=
     AList.delete from (AList.update to f (fds s))\<rparr>\<rparr>)"

definition fdRenumber :: "'w host \<Rightarrow> config \<Rightarrow> u64 list \<Rightarrow> ('w st, u64) state" where
  "fdRenumber H cfg p = do {
     let from = arg32 p 0; let to = arg32 p 1;
     fe \<leftarrow> entry from;
     case fe of Inl code \<Rightarrow> ret code | Inr f \<Rightarrow>
       if to > 0x7fffffff then ret wasiEBadf
       else do {
         old \<leftarrow> entry to;
         case old of Inl code \<Rightarrow> ret wasiEBadf | Inr d \<Rightarrow>
           if from = to then ret wasiOK
           else do {
             closeOpt H (e_dirIter d);
             closeOpt H (e_file d);
             moveEntry from to f;
             ret wasiOK } } }"

section \<open>Calls without effect\<close>

definition schedYield :: "('w st, u64) state" where
  "schedYield = ret wasiOK"

definition procRaise :: "('w st, u64) state" where
  "procRaise = ret wasiENotsup"

definition sockAccept :: "('w st, u64) state" where
  "sockAccept = ret wasiENotsup"

definition unsupportedSocket :: "u64 list \<Rightarrow> ('w st, u64) state" where
  "unsupportedSocket p = do {
     fe \<leftarrow> entry (arg32 p 0);
     case fe of Inl code \<Rightarrow> ret code | Inr f \<Rightarrow> ret wasiENotsock }"

section \<open>Safety\<close>

text \<open>Configurations whose packed argument and environment lists fit Go's address space, with a clock.\<close>

definition cfgOk :: "config \<Rightarrow> bool" where
  "cfgOk cfg \<longleftrightarrow> c_Clocks cfg \<noteq> None \<and> packedSize (c_Args cfg) < 2 ^ 61 \<and> packedSize (c_Env cfg) < 2 ^ 61"

lemma safe_args [vcg]:
  assumes "N \<le> 4294967296" and "cfgOk cfg"
  shows "safe N M L fs (argsSizesGet cfg p) (\<lambda>_. True)" "safe N M L fs (argsGet cfg p) (\<lambda>_. True)"
    "safe N M L fs (environSizesGet cfg p) (\<lambda>_. True)" "safe N M L fs (environGet cfg p) (\<lambda>_. True)"
  unfolding argsSizesGet_def argsGet_def environSizesGet_def environGet_def
  using assms by (auto intro!: vcg simp: cfgOk_def)

text \<open>Offsets within a checked range of at most 24 bytes do not wrap.\<close>

lemma unat_offset:
  "unat (ptr :: u32) + k \<le> N \<Longrightarrow> N \<le> 4294967296 \<Longrightarrow> j < k \<Longrightarrow> unat (ptr + of_nat j) = unat ptr + j"
  by (simp add: unat_word_ariths unat_of_nat)

lemma unat_offset_numeral:
  "unat (ptr :: u32) + numeral k \<le> N \<Longrightarrow> N \<le> 4294967296 \<Longrightarrow> (numeral j :: nat) < numeral k \<Longrightarrow>
     unat (ptr + numeral j) = unat ptr + numeral j"
  using unat_offset [of ptr "numeral k" N "numeral j"] by simp

lemma safe_entryFiletype [vcg]:
  "safe N M L fs (entryFiletype H f) (\<lambda>_. True)"
  unfolding entryFiletype_def by (rule vcg | simp)+

lemma safe_fdFdstatGet [vcg]:
  "N \<le> 4294967296 \<Longrightarrow> safe N M L fs (fdFdstatGet H cfg p) (\<lambda>_. True)"
  unfolding fdFdstatGet_def
  by (rule vcg | simp add: range_simps unat_offset_numeral [of "arg32 p (Suc 0)" _ N])+

lemma safe_fdPrestatGet [vcg]:
  "N \<le> 4294967296 \<Longrightarrow> safe N M L fs (fdPrestatGet H cfg p) (\<lambda>_. True)"
  unfolding fdPrestatGet_def
  by (rule vcg | simp add: range_simps unat_offset_numeral [of "arg32 p (Suc 0)" _ N])+

lemma safe_fdFilestatGet [vcg]:
  "N \<le> 4294967296 \<Longrightarrow> safe N M L fs (fdFilestatGet H cfg p) (\<lambda>_. True)"
  unfolding fdFilestatGet_def by (rule vcg | simp add: range_simps)+

lemma safe_setHostFileFlags [vcg]:
  "hasRight M f rightFDStatSetFlags \<Longrightarrow> safe N M L fs (setHostFileFlags H f flags) (\<lambda>_. True)"
  unfolding setHostFileFlags_def by (rule vcg | simp)+

lemma safe_setFileTimes [vcg]:
  "hasAny M f (rightFDFilestatSetTimes OR rightPathFilestatSetTimes) \<Longrightarrow>
     safe N M L fs (setFileTimes H f ts) (\<lambda>_. True)"
  unfolding setFileTimes_def by (rule vcg | simp)+

lemma timesFor_error: "timesFor info a m flags now = Inl c \<Longrightarrow> c \<noteq> wasiOK"
  by (auto simp: timesFor_def Let_def split: if_splits)

lemma safe_requestedTimes [vcg]:
  "cfgOk cfg \<Longrightarrow> safe N M L fs (requestedTimes H cfg info a m flags) (\<lambda>r. \<forall>c. r = Inl c \<longrightarrow> c \<noteq> wasiOK)"
  unfolding requestedTimes_def by (rule vcg | simp add: cfgOk_def | force dest: timesFor_error)+

lemma safe_fdFilestatSetTimes [vcg]:
  "cfgOk cfg \<Longrightarrow> tableOk M fs \<Longrightarrow> safe N M L fs (fdFilestatSetTimes H cfg p) (\<lambda>_. True)"
  unfolding fdFilestatSetTimes_def by (rule vcg | fastforce intro: file_any | simp)+

lemma safe_unsupportedSocket [vcg]: "safe N M L fs (unsupportedSocket p) (\<lambda>_. True)"
  unfolding unsupportedSocket_def by (rule vcg | simp)+

lemma safe_trivial [vcg]:
  "safe N M L fs schedYield (\<lambda>_. True)" "safe N M L fs procRaise (\<lambda>_. True)" "safe N M L fs sockAccept (\<lambda>_. True)"
  unfolding schedYield_def procRaise_def sockAccept_def by (rule vcg | simp)+

lemma safe_fdPrestatDirName [vcg]:
  assumes "N \<le> 4294967296" and "tableOk M fs"
  shows "safe N M L fs (fdPrestatDirName H cfg p) (\<lambda>_. True)"
proof -
  have "length (e_preopen f) \<le> 4294967296" if "map_of (fs_fds fs) fd = Some f" for fd f
    using tableOk_entry [OF assms(2) that] by (simp add: entryOk_def)
  with assms show ?thesis
    unfolding fdPrestatDirName_def
    by - (rule vcg | force simp: range_nat_le_N not_less split: option.splits | simp)+
qed

lemma triple_closeOpt [vcg]:
  "triple (St N M L fs) (closeOpt H f) (\<lambda>_. St N M (L - set_option f) fs) (\<lambda>_. True)"
  unfolding closeOpt_def by (cases f) (auto intro!: vcg)

lemma triple_moveEntry [vcg]:
  "triple (St N M L fs) (moveEntry from to f)
     (\<lambda>_. St N M L (fs\<lparr>fs_fds := AList.delete from (AList.update to f (fs_fds fs))\<rparr>)) (\<lambda>_. True)"
  by (auto simp: triple_def wp_simps St_def moveEntry_def)

text \<open>The handlers that change the descriptor table keep the invariant.\<close>

lemma inv_fdFdstatSetRights:
  "tableOk M fs \<Longrightarrow> L \<subseteq> owned fs \<union> F \<Longrightarrow>
     triple (St N M L fs) (fdFdstatSetRights H cfg p) (\<lambda>_. Inv N M F) (\<lambda>_. True)"
  unfolding fdFdstatSetRights_def
  by (rule vcg | simp add: owned_update_same tableOk_update tableOk_entry entryOk_narrow; fail)+

lemma inv_fdClose:
  "tableOk M fs \<Longrightarrow> L \<subseteq> owned fs \<union> F \<Longrightarrow> triple (St N M L fs) (fdClose H cfg p) (\<lambda>_. Inv N M F) (\<lambda>_. True)"
  unfolding fdClose_def
  by (rule vcg | simp add: tableOk_delete; fail |
      (auto simp: owned_delete owned_split [of M fs "arg32 p 0"] entryFiles_def; fail))+

lemma inv_fdRenumber:
  "tableOk M fs \<Longrightarrow> L \<subseteq> owned fs \<union> F \<Longrightarrow> triple (St N M L fs) (fdRenumber H cfg p) (\<lambda>_. Inv N M F) (\<lambda>_. True)"
  unfolding fdRenumber_def
  by (rule vcg | simp add: tableOk_move; fail |
      (use owned_move [of M fs "arg32 p 0" _ "arg32 p 1"] in \<open>fastforce simp: entryFiles_def\<close>))+

text \<open>The file whose flags are set is the descriptor's own, or a configured stream.\<close>

lemma flagTarget_right:
  assumes "entryOk M f" and "e_rights f AND r = r"
    and "flagTarget f = Some g"
  shows "hasRight M g r"
  using assms inOf_hasRight [OF assms(1,2), of g] outOf_hasRight [OF assms(1,2), of g]
  by (auto simp: flagTarget_def Let_def inOf_def outOf_def streamFile_def split: if_splits option.splits stream.splits)

lemma inv_fdFdstatSetFlags:
  "tableOk M fs \<Longrightarrow> L \<subseteq> owned fs \<union> F \<Longrightarrow>
     triple (St N M L fs) (fdFdstatSetFlags H cfg p) (\<lambda>_. Inv N M F) (\<lambda>_. True)"
  unfolding fdFdstatSetFlags_def
  by (rule vcg | simp; fail | fastforce intro: flagTarget_right tableOk_entry tableOk_update simp: owned_update_same)+

end
