(* ===== verification/Path_Resolve.thy ===== *)
theory Path_Resolve
  imports Fd_Meta
begin

text \<open>
  Path validation and confined opening: \<^verbatim>\<open>resolve\<close>, \<^verbatim>\<open>pathEscapes\<close>, \<^verbatim>\<open>openParent\<close> and \<^verbatim>\<open>renameLeaf\<close> of
  \<^verbatim>\<open>fs.go\<close>, \<^verbatim>\<open>openAt\<close>, \<^verbatim>\<open>openAtWalk\<close>, \<^verbatim>\<open>openAtWalkFD\<close>, \<^verbatim>\<open>openMetadataAt\<close> and the mutating system calls of
  \<^verbatim>\<open>fs_linux.go\<close>. The scans by index of the source are recursions on the rest of the path.
\<close>

section \<open>Components\<close>

definition guestBackslashSeparator :: bool where
  "guestBackslashSeparator = False"

definition volumeName :: "string \<Rightarrow> string" where
  "volumeName s = []"

text \<open>The next component, and what follows its separator: \<^term>\<open>None\<close> when the component reaches the end
  of the path.\<close>

definition nextPart :: "string \<Rightarrow> string \<times> string option" where
  "nextPart s =
     (if guestBackslashSeparator then
        (let part = takeWhile (\<lambda>c. c \<noteq> CHR ''/'' \<and> c \<noteq> CHR 0x5C) s
         in if length part = length s then (part, None) else (part, Some (drop (Suc (length part)) s)))
      else (case indexByte s (CHR ''/'') of
          None \<Rightarrow> (s, None)
        | Some i \<Rightarrow> (take i s, Some (drop (Suc i) s))))"

lemma nextPart_length: "nextPart s = (part, Some rest) \<Longrightarrow> length rest < length s"
  by (auto simp: nextPart_def guestBackslashSeparator_def indexByte_Some split: option.splits)

definition stepDepth :: "string \<Rightarrow> int \<Rightarrow> int" where
  "stepDepth part depth =
     (if part = [] \<or> part = ''.'' then depth else if part = ''..'' then depth - 1 else depth + 1)"

function pathEscapesLoop :: "int \<Rightarrow> string \<Rightarrow> bool" where
  "pathEscapesLoop depth guest =
     (if guest = [] then False
      else (case nextPart guest of (part, next) \<Rightarrow>
        (if stepDepth part depth < 0 then True
         else (case next of None \<Rightarrow> False | Some rest \<Rightarrow> pathEscapesLoop (stepDepth part depth) rest))))"
  by pat_completeness auto
termination
  by (relation "measure (length \<circ> snd)") (auto dest: nextPart_length [OF sym])

declare pathEscapesLoop.simps [simp del]

definition pathEscapes :: "string \<Rightarrow> bool" where
  "pathEscapes guest = pathEscapesLoop 0 guest"

section \<open>Confined opening\<close>

abbreviation (input) maxPinnedPathDepth :: nat where "maxPinnedPathDepth \<equiv> 64"

fun contains :: "string \<Rightarrow> string \<Rightarrow> bool" where
  "contains s pat = (hasPrefix s pat \<or> (case s of [] \<Rightarrow> False | x # xs \<Rightarrow> contains xs pat))"

declare contains.simps [simp del]

function hasParentStep :: "string \<Rightarrow> bool" where
  "hasParentStep name =
     (if name = [] then False
      else (case nextPart name of (part, next) \<Rightarrow>
        (if part = ''..'' then True
         else (case next of None \<Rightarrow> False | Some rest \<Rightarrow> hasParentStep rest))))"
  by pat_completeness auto
termination
  by (relation "measure length") (auto dest: nextPart_length [OF sym])

declare hasParentStep.simps [simp del]

definition openResult :: "goerr + fileid \<Rightarrow> u64 + fileid" where
  "openResult r = (case r of Inl err \<Rightarrow> Inl (capabilityErr err) | Inr f \<Rightarrow> Inr f)"

definition openatNoFollow :: "'w host \<Rightarrow> fileid \<Rightarrow> string \<Rightarrow> u64 \<Rightarrow> u64 \<Rightarrow> ('w st, u64 + fileid) state" where
  "openatNoFollow H cur part flags mode = do {
     r \<leftarrow> hostOpen H (fst cur) (HOpenat cur part (flags OR O_NOFOLLOW OR O_CLOEXEC) mode);
     ret (openResult r) }"

text \<open>\<^verbatim>\<open>unix.Readlinkat\<close> into a buffer of \<open>n\<close> bytes.\<close>

definition hostReadlink :: "'w host \<Rightarrow> fileid \<Rightarrow> string \<Rightarrow> nat \<Rightarrow> ('w st, goerr + string) state" where
  "hostReadlink H d name n = do {
     r \<leftarrow> hostCall H (HReadlinkat d name n);
     ret (case asStr r of Inl e \<Rightarrow> Inl e | Inr t \<Rightarrow> Inr (take n t)) }"

text \<open>The component loop of \<^verbatim>\<open>openAtWalkFD\<close>, with the current directory, the pinned parents and the rest
  of the path; \<open>follow\<close> is the recursive call for a final symbolic link. The result carries the handles
  that the deferred function closes.\<close>

function walkLoop :: "'w host \<Rightarrow> (fileid \<Rightarrow> string \<Rightarrow> ('w st, u64 + fileid) state) \<Rightarrow> u64 \<Rightarrow> u64 \<Rightarrow> bool \<Rightarrow>
    fileid \<Rightarrow> fileid list \<Rightarrow> string \<Rightarrow> ('w st, (u64 + fileid) \<times> fileid \<times> fileid list) state" where
  "walkLoop H follow flags mode retain cur parents rest =
     (if rest = [] then do {
        r \<leftarrow> openatNoFollow H cur ''.'' flags mode;
        ret (r, cur, parents) }
      else (case nextPart rest of (part, next) \<Rightarrow>
        (let rest' = (case next of None \<Rightarrow> [] | Some r \<Rightarrow> r) in
         if part = [] \<or> part = ''.'' then walkLoop H follow flags mode retain cur parents rest'
         else if part = ''..'' then
           (if parents = [] then ret (Inl wasiENotcapable, cur, parents)
            else do {
              hostClose H cur;
              walkLoop H follow flags mode retain (last parents) (butlast parents) rest' })
         else if next = None then
           (if flags AND O_NOFOLLOW = 0 \<and> flags AND (O_CREAT OR O_EXCL) \<noteq> O_CREAT OR O_EXCL then do {
              link \<leftarrow> hostReadlink H cur part 4096;
              case link of
                Inr target \<Rightarrow>
                  if length target = 4096 then ret (Inl wasiENametoolong, cur, parents)
                  else do { r \<leftarrow> follow cur target; ret (r, cur, parents) }
              | Inl linkErr \<Rightarrow>
                  if \<not> errorsIs linkErr (Errno EINVAL) \<and> \<not> errorsIs linkErr (Errno ENOENT)
                  then ret (Inl (capabilityErr linkErr), cur, parents)
                  else do { r \<leftarrow> openatNoFollow H cur part flags mode; ret (r, cur, parents) } }
            else do { r \<leftarrow> openatNoFollow H cur part flags mode; ret (r, cur, parents) })
         else if retain \<and> length parents \<ge> maxPinnedPathDepth then ret (Inl wasiENametoolong, cur, parents)
         else do {
           r \<leftarrow> openatNoFollow H cur part O_DIRECTORY 0;
           case r of
             Inl code \<Rightarrow> ret (Inl code, cur, parents)
           | Inr next \<Rightarrow>
               if retain then walkLoop H follow flags mode retain next (parents @ [cur]) rest'
               else do {
                 hostClose H cur;
                 walkLoop H follow flags mode retain next parents rest' } })))"
  by pat_completeness auto
termination
  by (relation "measure (\<lambda>(H, follow, flags, mode, retain, cur, parents, rest). length rest)")
    (auto dest: nextPart_length [OF sym] split: option.splits)

declare walkLoop.simps [simp del]

fun closeFiles :: "'w host \<Rightarrow> fileid list \<Rightarrow> ('w st, unit) state" where
  "closeFiles H [] = ret ()"
| "closeFiles H (f # files) = do { hostClose H f; closeFiles H files }"

function openAtWalkFD :: "'w host \<Rightarrow> fileid \<Rightarrow> string \<Rightarrow> u64 \<Rightarrow> u64 \<Rightarrow> nat \<Rightarrow> ('w st, u64 + fileid) state" where
  "openAtWalkFD H rootFD name flags mode symlinks =
     (if symlinks > 40 then ret (Inl wasiELoop)
      else if name = [] \<or> hasPrefix name ''/'' \<or> pathEscapes name then ret (Inl wasiENotcapable)
      else do {
        d \<leftarrow> hostOpen H (fst rootFD) (HDup rootFD);
        case d of
          Inl err \<Rightarrow> ret (Inl (errno (Some err)))
        | Inr cur \<Rightarrow> do {
            (r, cur', parents) \<leftarrow> walkLoop H
               (\<lambda>fd target. openAtWalkFD H fd target flags mode (symlinks + 1))
               flags mode (contains name ''..'' \<and> hasParentStep name) cur [] name;
            closeFiles H (cur' # parents);
            ret r } })"
  by pat_completeness auto
termination
  by (relation "measure (\<lambda>(H, rootFD, name, flags, mode, symlinks). 41 - symlinks)") auto

declare openAtWalkFD.simps [simp del]

definition openAtWalk :: "'w host \<Rightarrow> fileid \<Rightarrow> string \<Rightarrow> u64 \<Rightarrow> u64 \<Rightarrow> ('w st, u64 + fileid) state" where
  "openAtWalk H d name flags mode = openAtWalkFD H d name flags mode 0"

text \<open>A nil file has the invalid descriptor -1, which the kernel answers with \<^verbatim>\<open>EBADF\<close>.\<close>

definition openAt :: "'w host \<Rightarrow> fdEntry \<Rightarrow> string \<Rightarrow> u64 \<Rightarrow> u64 \<Rightarrow> ('w st, u64 + fileid) state" where
  "openAt H d name flags mode = (case e_file d of None \<Rightarrow> ret (Inl wasiEBadf) | Some file \<Rightarrow> do {
     let mode = (if flags AND O_CREAT = 0 then 0 else mode);
     r \<leftarrow> hostOpen H (fst file) (HOpenat2 file name (flags OR O_CLOEXEC) mode secureResolve);
     case r of
       Inl err \<Rightarrow>
         if errorsIs err (Errno ENOSYS) \<or> errorsIs err (Errno EINVAL) \<or> errorsIs err (Errno E2BIG) \<or>
            errorsIs err (Errno EPERM)
         then openAtWalk H file name flags mode
         else ret (Inl (capabilityErr err))
     | Inr fd \<Rightarrow> ret (Inr fd) })"

definition openMetadataAt :: "'w host \<Rightarrow> fdEntry \<Rightarrow> string \<Rightarrow> bool \<Rightarrow> ('w st, u64 + fileid) state" where
  "openMetadataAt H d name follow =
     (let flags = O_PATH; flags = (if \<not> follow then flags OR O_NOFOLLOW else flags)
      in openAt H d name flags 0)"

section \<open>Resolution of guest paths\<close>

definition resolve :: "'w host \<Rightarrow> u32 \<Rightarrow> string \<Rightarrow> ('w st, u64 + fdEntry \<times> string) state" where
  "resolve H fd guest = do {
     fe \<leftarrow> entry fd;
     case fe of Inl code \<Rightarrow> ret (Inl code) | Inr d \<Rightarrow>
     (case e_file d of None \<Rightarrow> ret (Inl wasiENotdir) | Some file \<Rightarrow> do {
        st \<leftarrow> hostStat H file;
        case st of Inl err \<Rightarrow> ret (Inl (errno (Some err))) | Inr info \<Rightarrow>
        if \<not> isDir info then ret (Inl wasiENotdir)
        else if guest = [] \<or> hasPrefix guest ''/'' \<or>
           guestBackslashSeparator \<and> (hasPrefix guest [CHR 0x5C] \<or> volumeName guest \<noteq> [])
        then ret (Inl wasiENotcapable)
        else if pathEscapes guest then ret (Inl wasiENotcapable)
        else ret (Inr (d, trimRight guest ''/'')) }) }"

definition splitParent :: "string \<Rightarrow> string \<times> string" where
  "splitParent name =
     (let search = (if guestBackslashSeparator then trimRight name [CHR 0x5C] else name);
          sep = lastIndexByte search (CHR ''/'');
          sep = (if guestBackslashSeparator then
                   (case (lastIndexByte search (CHR 0x5C), sep) of
                      (Some b, Some i) \<Rightarrow> Some (max b i) | (Some b, None) \<Rightarrow> Some b | (None, x) \<Rightarrow> x)
                 else sep)
      in case sep of
           None \<Rightarrow> (''.'', name)
         | Some i \<Rightarrow> ((if take i name = [] then ''.'' else take i name), drop (Suc i) name))"

definition openParent :: "'w host \<Rightarrow> fdEntry \<Rightarrow> string \<Rightarrow> ('w st, u64 + fileid \<times> string) state" where
  "openParent H d name =
     (case splitParent name of (parent, leaf) \<Rightarrow>
       (if guestBackslashSeparator \<and> (hasPrefix leaf [CHR 0x5C] \<or> volumeName leaf \<noteq> [])
        then ret (Inl wasiENotcapable)
        else
          let step = (if guestBackslashSeparator then trimRight leaf [CHR 0x5C] else leaf) in
          if step = ''..'' then do {
            f \<leftarrow> openAt H d name O_DIRECTORY 0;
            case f of Inl code \<Rightarrow> ret (Inl code) | Inr g \<Rightarrow> ret (Inr (g, ''.'')) }
          else do {
            f \<leftarrow> openAt H d parent O_DIRECTORY 0;
            case f of Inl code \<Rightarrow> ret (Inl code) | Inr g \<Rightarrow> ret (Inr (g, leaf)) }))"

section \<open>Mutating system calls\<close>

definition makeDirectoryAt :: "'w host \<Rightarrow> fileid \<Rightarrow> string \<Rightarrow> u32 \<Rightarrow> ('w st, goerr option) state" where
  "makeDirectoryAt H parent name mode = do { r \<leftarrow> hostCall H (HMkdirat parent name mode); ret (asErr r) }"

definition linkAt :: "'w host \<Rightarrow> fileid \<Rightarrow> string \<Rightarrow> fileid \<Rightarrow> string \<Rightarrow> ('w st, goerr option) state" where
  "linkAt H oldParent oldName newParent newName = do {
     r \<leftarrow> hostCall H (HLinkat oldParent oldName newParent newName); ret (asErr r) }"

definition removeAt :: "'w host \<Rightarrow> fileid \<Rightarrow> string \<Rightarrow> bool \<Rightarrow> ('w st, goerr option) state" where
  "removeAt H parent name directory = do { r \<leftarrow> hostCall H (HUnlinkat parent name directory); ret (asErr r) }"

definition renameAt :: "'w host \<Rightarrow> fileid \<Rightarrow> string \<Rightarrow> fileid \<Rightarrow> string \<Rightarrow> ('w st, u64) state" where
  "renameAt H oldParent oldName newParent newName = do {
     r \<leftarrow> hostCall H (HRenameat oldParent oldName newParent newName);
     if asErr r = Some (Errno EEXIST) then ret wasiENotempty else ret (errno (asErr r)) }"

definition symlinkAt :: "'w host \<Rightarrow> string \<Rightarrow> fileid \<Rightarrow> string \<Rightarrow> ('w st, goerr option) state" where
  "symlinkAt H target parent name = do { r \<leftarrow> hostCall H (HSymlinkat target parent name); ret (asErr r) }"

definition setPathTimes :: "'w host \<Rightarrow> fileid \<Rightarrow> string \<Rightarrow> time \<times> time \<Rightarrow> bool \<Rightarrow> ('w st, goerr option) state" where
  "setPathTimes H parent leaf ts noFollow = do {
     r \<leftarrow> hostCall H (HUtimes parent leaf (fst ts) (snd ts) noFollow); ret (asErr r) }"

definition linkAtFollow :: "('w st, u64) state" where
  "linkAtFollow = ret wasiEInval"

text \<open>\<^verbatim>\<open>renameLeaf\<close>: the search runs over the components of \<^verbatim>\<open>original\<close> from the end.\<close>

function renameLeafLoop :: "string \<Rightarrow> string \<Rightarrow> nat \<Rightarrow> string" where
  "renameLeafLoop original leaf end' =
     (if end' > 0 then
        (let start = (case lastIndexByte (take end' original) (CHR ''/'') of None \<Rightarrow> 0 | Some i \<Rightarrow> i + 1) in
         if drop start (take end' original) = leaf then drop start (take (end' + 1) original)
         else if start = 0 then leaf @ ''/''
         else renameLeafLoop original leaf (start - 1))
      else leaf @ ''/'')"
  by pat_completeness auto
termination
  by (relation "measure (\<lambda>(original, leaf, end'). end')") (auto split: option.splits dest: lastIndexByte_Some)

declare renameLeafLoop.simps [simp del]

definition renameLeaf :: "string \<Rightarrow> string \<Rightarrow> string" where
  "renameLeaf original leaf =
     (if guestBackslashSeparator \<and> hasSuffix original [CHR 0x5C] then leaf @ ''/''
      else if \<not> hasSuffix original ''/'' then leaf
      else if leaf = ''.'' then ''./''
      else renameLeafLoop original leaf (length original - 1))"

section \<open>Safety of confined opening\<close>

text \<open>An operation that opens at most one file object, beneath the capability root \<open>root\<close>.\<close>

abbreviation opens :: "nat \<Rightarrow> authority \<Rightarrow> fileid set \<Rightarrow> fsState \<Rightarrow> nat \<Rightarrow> ('w st, u64 + fileid) state \<Rightarrow> bool" where
  "opens N M L fs root m \<equiv> triple (St N M L fs) m
     (\<lambda>r. St N M (case r of Inl c \<Rightarrow> L | Inr f \<Rightarrow> insert f L) fs)
     (\<lambda>r. case r of Inl c \<Rightarrow> c \<noteq> wasiOK | Inr f \<Rightarrow> fst f = root \<and> f \<notin> L)"

text \<open>The simplifier evaluates a disjunction of flag constants, hence the literal forms.\<close>

lemma openFlagsOk_or [simp]:
  "openFlagsOk M d (flags OR 0xA0000) = openFlagsOk M d flags"
  "openFlagsOk M d (flags OR O_CLOEXEC) = openFlagsOk M d flags"
  by (simp_all add: openFlagsOk_def bit.conj_disj_distrib2)

lemma openFlagsOk_root: "fst d = fst e \<Longrightarrow> openFlagsOk M d flags = openFlagsOk M e flags"
  by (simp add: openFlagsOk_def hasRight_def hasAny_def)

lemma openFlagsOk_read [simp]:
  "openFlagsOk M d O_DIRECTORY" "openFlagsOk M d O_PATH" "openFlagsOk M d 0x220000"
  by (simp_all add: openFlagsOk_def)

lemma nofollow_set [simp]: "(flags OR 0xA0000) AND O_NOFOLLOW \<noteq> (0 :: u64)"
proof
  assume "(flags OR 0xA0000) AND O_NOFOLLOW = (0 :: u64)"
  then have "bit ((flags OR 0xA0000) AND O_NOFOLLOW) 17 = bit (0 :: u64) 17" by simp
  then show False by (simp add: bit_simps)
qed

lemma leafName_dot [simp]: "leafName ''.''"
  by (simp add: leafName_def)

lemma opens_openatNoFollow [vcg]:
  "leafName part \<Longrightarrow> openFlagsOk M cur flags \<Longrightarrow> fst cur = root \<Longrightarrow>
     opens N M L fs root (openatNoFollow H cur part flags mode)"
  unfolding openatNoFollow_def
  by (rule vcg | simp; fail | (auto simp: openResult_def split: sum.splits; fail))+

lemma safe_hostReadlink [vcg]:
  "leafName part \<Longrightarrow> safe N M L fs (hostReadlink H cur part n) (\<lambda>r. \<forall>t. r = Inr t \<longrightarrow> length t \<le> n)"
  unfolding hostReadlink_def by (rule vcg | simp; fail | (auto split: sum.splits; fail))+

definition walkPre :: "nat \<Rightarrow> fileid set \<Rightarrow> fileid \<Rightarrow> fileid list \<Rightarrow> bool" where
  "walkPre root L cur parents \<longleftrightarrow> distinct (cur # parents) \<and> set (cur # parents) \<inter> L = {} \<and>
     (\<forall>x\<in>set (cur # parents). fst x = root)"

definition walkFiles :: "fileid set \<Rightarrow> (u64 + fileid) \<times> fileid \<times> fileid list \<Rightarrow> fileid set" where
  "walkFiles L r = (case r of (res, cur, parents) \<Rightarrow>
     (case res of Inl c \<Rightarrow> L \<union> set (cur # parents) | Inr f \<Rightarrow> insert f (L \<union> set (cur # parents))))"

definition walkOk :: "nat \<Rightarrow> fileid set \<Rightarrow> (u64 + fileid) \<times> fileid \<times> fileid list \<Rightarrow> bool" where
  "walkOk root L r = (case r of (res, cur, parents) \<Rightarrow> walkPre root L cur parents \<and>
     (case res of Inl c \<Rightarrow> c \<noteq> wasiOK | Inr f \<Rightarrow> fst f = root \<and> f \<notin> L \<and> f \<notin> set (cur # parents)))"

lemma nextPart_leaf:
  "nextPart s = (part, next) \<Longrightarrow> part \<noteq> [] \<Longrightarrow> part \<noteq> ''..'' \<Longrightarrow> leafName part"
  by (auto simp: nextPart_def guestBackslashSeparator_def leafName_def indexByte_Some split: option.splits)

lemma walkLoop_spec:
  assumes follow: "\<And>cur target L'. fst cur = root \<Longrightarrow> opens N M L' fs root (follow cur target)"
    and flags: "\<And>f. fst f = root \<Longrightarrow> openFlagsOk M f flags"
  shows "L0 = L \<union> set (cur # parents) \<Longrightarrow> walkPre root L cur parents \<Longrightarrow>
    triple (St N M L0 fs) (walkLoop H follow flags mode retain cur parents rest)
      (\<lambda>r. St N M (walkFiles L r) fs) (walkOk root L)"
proof (induction "length rest" arbitrary: L0 cur parents rest rule: less_induct)
  case less
  note IH = less.hyps and pre = less.prems
  have leaf: "leafName part" if "nextPart rest = (part, nx)" "\<not> (part = [] \<or> part = ''.'')" "part \<noteq> ''..''" for part nx
    using that nextPart_leaf [of rest part nx] by auto
  have shorter: "length (case nx of None \<Rightarrow> [] | Some r \<Rightarrow> r) < length rest"
    if "nextPart rest = (part, nx)" "rest \<noteq> []" for part nx
    using that nextPart_length [of rest part] by (auto split: option.splits)
  have root: "fst cur = root" using pre by (simp add: walkPre_def)
  have ret_ok: "walkOk root L (a, cur, parents)"
    if "case a of Inl c \<Rightarrow> c \<noteq> wasiOK | Inr f \<Rightarrow> fst f = root \<and> f \<notin> L0" for a
    using that pre by (auto simp: walkOk_def split: sum.splits)
  have ret_files: "(case a of Inl c \<Rightarrow> L0 | Inr f \<Rightarrow> insert f L0) = walkFiles L (a, cur, parents)"
    "L0 = walkFiles L (Inl c, cur, parents)" for a c
    using pre by (simp_all add: walkFiles_def split: sum.splits)
  have pop: "L0 - {cur} = L \<union> set (last parents # butlast parents)"
    "walkPre root L (last parents) (butlast parents)" if "parents \<noteq> []"
  proof -
    have "parents = butlast parents @ [last parents]" using that by simp
    then obtain ps q where "parents = ps @ [q]" by blast
    with pre show "L0 - {cur} = L \<union> set (last parents # butlast parents)"
      "walkPre root L (last parents) (butlast parents)"
      by (auto simp: walkPre_def)
  qed
  have push: "insert f L0 = L \<union> set (f # parents @ [cur])" "walkPre root L f (parents @ [cur])"
    and swap: "insert f L0 - {cur} = L \<union> set (f # parents)" "walkPre root L f parents"
    if "fst f = root" "f \<notin> L0" for f
    using that pre by (auto simp: walkPre_def)
  show ?case
    by (subst walkLoop.simps)
      (rule vcg IH follow ret_ok ret_files | simp add: root flags leaf shorter pre; fail |
       simp add: pop push ret_files(2) [symmetric]; fail | simp add: swap; fail)+
qed

lemma triple_closeFiles [vcg]:
  "triple (St N M L fs) (closeFiles H files) (\<lambda>_. St N M (L - set files) fs) (\<lambda>_. True)"
proof (induction files arbitrary: L)
  case (Cons f files)
  have "L - set (f # files) = (L - {f}) - set files" by auto
  with Cons.IH [of "L - {f}"] show ?case
    unfolding closeFiles.simps by (intro triple_bind [OF triple_hostClose]) (simp only:)
qed (simp, (rule vcg | simp)+)

lemma opens_openAtWalkFD [vcg]:
  fixes H :: "'w host"
  assumes "\<And>f. fst f = root \<Longrightarrow> openFlagsOk M f flags" and "fst rootFD = root"
  shows "opens N M L fs root (openAtWalkFD H rootFD name flags mode symlinks)"
  using assms(2)
proof (induction "41 - symlinks" arbitrary: L rootFD name symlinks)
  case 0
  then have "symlinks > 40" by simp
  then show ?case by (subst openAtWalkFD.simps, simp) (rule vcg | simp)+
next
  case (Suc k)
  have IH: "opens N M L' fs root (openAtWalkFD H fd target flags mode (symlinks + 1))" if "fst fd = root" for fd target L'
    using Suc.hyps(2) that by (intro Suc.hyps(1)) simp_all
  show ?case
    by (subst openAtWalkFD.simps)
      (rule vcg walkLoop_spec [where L = L] IH assms(1) | simp add: Suc.prems walkPre_def; fail |
       (fastforce simp: walkOk_def walkFiles_def walkPre_def split: sum.splits))+
qed

lemma opens_openAt_file:
  assumes "e_file d = Some file" and "fst file = root" and "openFlagsOk M file flags"
  shows "opens N M L fs root (openAt H d name flags mode)"
proof -
  have "openFlagsOk M f flags" if "fst f = root" for f
    using that assms openFlagsOk_root [of f "file"] by simp
  with assms show ?thesis
    unfolding openAt_def openAtWalk_def
    by - (rule vcg | simp; fail | (hypsubst, simp only: sum.case))+
qed

text \<open>The capability root of a directory descriptor.\<close>

abbreviation rootOf :: "fdEntry \<Rightarrow> nat" where
  "rootOf d \<equiv> fst (the (e_file d))"

lemma opens_openAt [vcg]:
  "e_file d \<noteq> None \<Longrightarrow> openFlagsOk M (the (e_file d)) flags \<Longrightarrow>
     opens N M L fs (rootOf d) (openAt H d name flags mode)"
  by (rule opens_openAt_file) auto

lemma opens_openMetadataAt [vcg]:
  "e_file d \<noteq> None \<Longrightarrow> opens N M L fs (rootOf d) (openMetadataAt H d name follow)"
  unfolding openMetadataAt_def by (rule vcg | simp)+

text \<open>A validated path after the removal of terminal slashes.\<close>

definition goodName :: "string \<Rightarrow> bool" where
  "goodName name \<longleftrightarrow> name \<noteq> [] \<and> last name \<noteq> CHR ''/''"

lemma goodName_trimRight: "guest \<noteq> [] \<Longrightarrow> \<not> hasPrefix guest ''/'' \<Longrightarrow> goodName (trimRight guest ''/'')"
proof (induction guest rule: rev_induct)
  case (snoc x xs)
  then show ?case
    by (cases xs) (auto simp: trimRight_def goodName_def)
qed simp

lemma safe_resolve [vcg]:
  "safe N M L fs (resolve H fd guest)
     (\<lambda>r. case r of Inl c \<Rightarrow> c \<noteq> wasiOK
        | Inr x \<Rightarrow> map_of (fs_fds fs) fd = Some (fst x) \<and> e_file (fst x) \<noteq> None \<and> goodName (snd x))"
  unfolding resolve_def
  by (rule vcg | simp add: goodName_trimRight; fail)+

lemma splitParent_leaf:
  assumes "goodName name" and "splitParent name = (parent, leaf)"
  shows "leaf \<noteq> [] \<and> CHR ''/'' \<notin> set leaf"
proof (cases "lastIndexByte name (CHR ''/'')")
  case None
  with assms show ?thesis
    by (simp add: splitParent_def guestBackslashSeparator_def goodName_def Let_def)
next
  case (Some i)
  then have i: "i < length name" "name ! i = CHR ''/''" "CHR ''/'' \<notin> set (drop (Suc i) name)"
    using lastIndexByte_Some [of name] by auto
  have "Suc i \<noteq> length name"
    using i assms(1) by (auto simp: goodName_def last_conv_nth dest: arg_cong [where f = "\<lambda>n. n - 1"])
  with i have "drop (Suc i) name \<noteq> []" by simp
  with Some i assms(2) show ?thesis
    by (simp add: splitParent_def guestBackslashSeparator_def Let_def)
qed

lemma triple_openParent [vcg]:
  assumes "e_file d \<noteq> None" and "goodName name"
  shows "triple (St N M L fs) (openParent H d name)
     (\<lambda>r. St N M (case r of Inl c \<Rightarrow> L | Inr x \<Rightarrow> insert (fst x) L) fs)
     (\<lambda>r. case r of Inl c \<Rightarrow> c \<noteq> wasiOK | Inr x \<Rightarrow> fst (fst x) = rootOf d \<and> fst x \<notin> L \<and> leafName (snd x))"
proof -
  have leaf: "leafName l" if "splitParent name = (par, l)" "l \<noteq> ''..''" for par l
    using splitParent_leaf [OF assms(2) that(1)] that(2) by (simp add: leafName_def)
  show ?thesis
    unfolding openParent_def guestBackslashSeparator_def
    by (rule vcg | simp add: assms leaf; fail | (fastforce intro: leaf assms))+
qed

section \<open>Reference specifications\<close>

text \<open>Lexical resolution with an explicit stack of directory names: a parent step pops, and popping the
  empty stack leaves the capability root.\<close>

fun lexWalk :: "string list \<Rightarrow> string list \<Rightarrow> string list option" where
  "lexWalk stack [] = Some stack"
| "lexWalk stack (part # parts) =
     (if part = [] \<or> part = ''.'' then lexWalk stack parts
      else if part = ''..'' then (case stack of [] \<Rightarrow> None | x # rest \<Rightarrow> lexWalk rest parts)
      else lexWalk (part # stack) parts)"

lemma nextPart_split:
  "nextPart s = (part, next) \<Longrightarrow>
     split_on (CHR ''/'') s = part # (case next of None \<Rightarrow> [] | Some rest \<Rightarrow> split_on (CHR ''/'') rest)"
proof (cases "indexByte s (CHR ''/'')")
  case None
  assume "nextPart s = (part, next)"
  moreover have "nextPart s = (s, None)" by (simp add: nextPart_def guestBackslashSeparator_def None del: indexByte_None)
  moreover have "CHR ''/'' \<notin> set s" using None by simp
  ultimately show ?thesis by (simp add: split_on_no_sep_id)
next
  case (Some i)
  assume n: "nextPart s = (part, next)"
  from Some have i: "i < length s" "s ! i = CHR ''/''" "CHR ''/'' \<notin> set (take i s)"
    by (auto simp: indexByte_Some)
  have "s = take i s @ CHR ''/'' # drop (Suc i) s"
    using i by (metis id_take_nth_drop)
  then have "split_on (CHR ''/'') s = take i s # split_on (CHR ''/'') (drop (Suc i) s)"
    using split_on_append_sep [OF i(3)] by metis
  with n Some show ?thesis
    by (auto simp: nextPart_def guestBackslashSeparator_def)
qed

lemma pathEscapesLoop_lexWalk:
  "pathEscapesLoop (int (length stack)) guest \<longleftrightarrow> lexWalk stack (split_on (CHR ''/'') guest) = None"
proof (induction "length guest" arbitrary: guest stack rule: less_induct)
  case less
  obtain part nx where n: "nextPart guest = (part, nx)" by (cases "nextPart guest")
  note parts = nextPart_split [OF n]
  have IH: "pathEscapesLoop (int (length st)) rest \<longleftrightarrow> lexWalk st (split_on (CHR ''/'') rest) = None"
    if "nx = Some rest" for rest st
    using less.hyps [of rest st] nextPart_length [of guest part rest] n that by simp
  have unfold: "pathEscapesLoop (int (length stack)) guest \<longleftrightarrow>
      stepDepth part (int (length stack)) < 0 \<or>
      (\<exists>rest. nx = Some rest \<and> pathEscapesLoop (stepDepth part (int (length stack))) rest)" if "guest \<noteq> []"
    using that by (subst pathEscapesLoop.simps) (auto simp: n split: option.splits)
  consider "guest = []" | "guest \<noteq> []" "part = [] \<or> part = ''.''"
    | "guest \<noteq> []" "part = ''..''" "stack = []" | x xs where "guest \<noteq> []" "part = ''..''" "stack = x # xs"
    | "guest \<noteq> []" "part \<noteq> []" "part \<noteq> ''.''" "part \<noteq> ''..''"
    by (cases stack) auto
  then show ?case
  proof cases
    case 1
    then show ?thesis by (simp add: pathEscapesLoop.simps)
  next
    case 2
    then show ?thesis by (cases nx) (auto simp: unfold parts stepDepth_def IH)
  next
    case 3
    then show ?thesis using unfold by (simp add: parts stepDepth_def)
  next
    case 4
    then have "stepDepth part (int (length stack)) = int (length xs)" by (simp add: stepDepth_def)
    with 4 unfold show ?thesis by (cases nx) (simp_all add: parts IH)
  next
    case 5
    then have "stepDepth part (int (length stack)) = int (length (part # stack))" by (simp add: stepDepth_def)
    with 5 unfold IH [of _ "part # stack"] show ?thesis by (cases nx) (simp_all add: parts)
  qed
qed

text \<open>C10: \<open>pathEscapes\<close>, the index scan with a depth counter that \<open>resolve\<close> relies on, rejects exactly the
  guest paths whose lexical resolution would climb above the directory it starts from: equivalence of
  the optimised scan with the stack-based reference \<open>lexWalk\<close> over the components.\<close>

theorem pathEscapes_iff_lexWalk: "pathEscapes guest \<longleftrightarrow> lexWalk [] (split_on (CHR ''/'') guest) = None"
  using pathEscapesLoop_lexWalk [of "[]" guest] by (simp add: pathEscapes_def)

lemma renameLeafLoop_slash:
  "end' < length original \<Longrightarrow> original ! end' = CHR ''/'' \<Longrightarrow> renameLeafLoop original leaf end' = leaf @ ''/''"
proof (induction original leaf end' rule: renameLeafLoop.induct)
  case (1 original leaf end')
  let ?t = "take end' original"
  show ?case
  proof (cases "end' > 0")
    case False
    then show ?thesis by (simp add: renameLeafLoop.simps)
  next
    case True
    define start where "start = (case lastIndexByte ?t (CHR ''/'') of None \<Rightarrow> 0 | Some i \<Rightarrow> i + 1)"
    have "start \<le> end'"
    proof (cases "lastIndexByte ?t (CHR ''/'')")
      case (Some i)
      with 1(2) lastIndexByte_Some [OF Some] show ?thesis by (simp add: start_def)
    qed (simp add: start_def del: lastIndexByte_None)
    then have grow: "drop start (take (end' + 1) original) = drop start ?t @ ''/''"
      using 1(2,3) by (simp add: take_Suc_conv_app_nth)
    have prev: "original ! (start - 1) = CHR ''/''" "start - 1 < length original" if "start \<noteq> 0"
    proof -
      from that obtain i where i: "lastIndexByte ?t (CHR ''/'') = Some i" "start = i + 1"
        by (auto simp: start_def split: option.splits simp del: lastIndexByte_None)
      with 1(2) lastIndexByte_Some [OF i(1)] show "original ! (start - 1) = CHR ''/''" "start - 1 < length original"
        by (auto simp: nth_append)
    qed
    have "renameLeafLoop original leaf end' =
        (if drop start ?t = leaf then drop start (take (end' + 1) original)
         else if start = 0 then leaf @ ''/'' else renameLeafLoop original leaf (start - 1))"
      using True by (subst renameLeafLoop.simps) (simp add: start_def Let_def)
    moreover have "renameLeafLoop original leaf (start - 1) = leaf @ ''/''"
      if "drop start ?t \<noteq> leaf" "start \<noteq> 0"
      using 1(1) [OF True start_def that] prev [OF that(2)] by simp
    ultimately show ?thesis using grow by auto
  qed
qed

lemma renameLeaf_slash: "renameLeaf original leaf = leaf @ (if hasSuffix original ''/'' then ''/'' else [])"
proof (cases "hasSuffix original ''/''")
  case True
  then have "original \<noteq> []" "last original = CHR ''/''" by (simp_all add: hasSuffix_single)
  then have "renameLeafLoop original leaf (length original - 1) = leaf @ ''/''"
    by (intro renameLeafLoop_slash) (simp_all add: last_conv_nth)
  with True show ?thesis by (simp add: renameLeaf_def guestBackslashSeparator_def)
next
  case False
  then show ?thesis by (simp add: renameLeaf_def guestBackslashSeparator_def)
qed

text \<open>\<open>renameLeaf\<close>, which borrows the leaf with its slash from the original path by a backward search
  instead of allocating, always returns the leaf, with a terminal slash exactly when the original path
  has one: the directory requirement that \<open>resolve\<close> removed is restored and nothing else changes.\<close>

theorem renameLeaf_eq: "renameLeaf original leaf = leaf @ (if hasSuffix original ''/'' then ''/'' else [])"
  by (rule renameLeaf_slash)

end
