(* ===== verification/Interfaces.thy ===== *)
theory Interfaces
  imports Main
begin

text \<open>
  The contracts that several components share, as locales: a state machine with an invariant, and a table
  of handles with a quota. Their clients' lemmas are proved here once; the theories of the components
  interpret them on the model's definitions.
\<close>

section \<open>Invariants of state machines\<close>

locale invariant_system =
  fixes initial :: "'s \<Rightarrow> bool" and step :: "'s \<Rightarrow> 's \<Rightarrow> bool" and inv :: "'s \<Rightarrow> bool"
  assumes inv_initial: "initial s \<Longrightarrow> inv s"
    and inv_step: "inv s \<Longrightarrow> step s t \<Longrightarrow> inv t"
begin

lemma inv_steps: "step\<^sup>*\<^sup>* s t \<Longrightarrow> inv s \<Longrightarrow> inv t"
  by (induction rule: rtranclp_induct) (auto intro: inv_step)

lemma inv_run: "initial s \<Longrightarrow> step\<^sup>*\<^sup>* s t \<Longrightarrow> inv t"
  by (auto intro: inv_steps inv_initial)

text \<open>A run that leaves a set of states does so in one of its steps.\<close>

lemma crossing:
  assumes "step\<^sup>*\<^sup>* s t" and "inv s" and "P s" and "\<not> P t"
  shows "\<exists>u v. inv u \<and> P u \<and> step u v \<and> \<not> P v"
  using assms
proof (induction rule: converse_rtranclp_induct)
  case (step y z)
  then show ?case by (cases "P z") (auto intro: inv_step)
qed simp

end

section \<open>Handle tables with a quota\<close>

text \<open>\<open>put v t\<close> stores \<open>v\<close> under a key of the table's choice or refuses, \<open>del k t\<close> drops a key. The table
  refuses exactly when it holds \<open>quota t\<close> entries, and it never hands out a key that is in use.\<close>

locale quota_table =
  fixes wf :: "'t \<Rightarrow> bool" and look :: "'t \<Rightarrow> 'k \<Rightarrow> 'v option" and quota :: "'t \<Rightarrow> nat"
    and put :: "'v \<Rightarrow> 't \<Rightarrow> ('t \<times> 'k) option" and del :: "'k \<Rightarrow> 't \<Rightarrow> 't"
  assumes finite_keys: "wf t \<Longrightarrow> finite (dom (look t))"
    and put_None: "wf t \<Longrightarrow> put v t = None \<longleftrightarrow> quota t \<le> card (dom (look t))"
    and put_Some: "wf t \<Longrightarrow> put v t = Some (t', k) \<Longrightarrow> wf t' \<and> quota t' = quota t \<and> look t k = None \<and> look t' = (look t)(k \<mapsto> v)"
    and del_look: "wf t \<Longrightarrow> wf (del k t) \<and> quota (del k t) = quota t \<and> look (del k t) = (look t)(k := None)"
begin

lemma put_card:
  assumes "wf t" and "put v t = Some (t', k)"
  shows "card (dom (look t')) = Suc (card (dom (look t)))" "card (dom (look t')) \<le> quota t'"
proof -
  have t': "quota t' = quota t" "look t k = None" "look t' = (look t)(k \<mapsto> v)" using put_Some [OF assms] by simp_all
  then have "dom (look t') = insert k (dom (look t))" "k \<notin> dom (look t)" by auto
  then show c: "card (dom (look t')) = Suc (card (dom (look t)))" by (simp add: finite_keys [OF assms(1)])
  have "\<not> quota t \<le> card (dom (look t))" using put_None [OF assms(1), of v] assms(2) by simp
  with c t'(1) show "card (dom (look t')) \<le> quota t'" by simp
qed

lemma del_card: "wf t \<Longrightarrow> card (dom (look (del k t))) \<le> card (dom (look t))"
  using finite_keys [of t] del_look [of t k] by (simp add: card_Diff1_le)

text \<open>What a client sees of a sequence of operations; a refused request leaves the table as it is.\<close>

lemma put_del_within:
  assumes "wf t" and "card (dom (look t)) \<le> quota t"
  shows "put v t = Some (t', k) \<Longrightarrow> card (dom (look t')) \<le> quota t'"
    and "card (dom (look (del k t))) \<le> quota (del k t)"
  using put_card [OF assms(1)] del_card [OF assms(1), of k] del_look [OF assms(1), of k] assms(2) by auto

text \<open>A stored value stays until its own key is dropped.\<close>

lemma put_frame: "wf t \<Longrightarrow> put v t = Some (t', k) \<Longrightarrow> look t j = Some x \<Longrightarrow> look t' j = Some x \<and> j \<noteq> k"
  using put_Some [of t v t' k] by auto

lemma del_frame: "wf t \<Longrightarrow> j \<noteq> k \<Longrightarrow> look (del k t) j = look t j"
  using del_look [of t k] by simp

text \<open>Dropping an entry makes room for another one.\<close>

lemma put_after_del:
  assumes "wf t" and "look t k = Some x" and "card (dom (look t)) \<le> quota t"
  shows "\<exists>t' j. put v (del k t) = Some (t', j)"
proof -
  have d: "wf (del k t)" "quota (del k t) = quota t" "look (del k t) = (look t)(k := None)"
    using del_look [OF assms(1)] by simp_all
  have "k \<in> dom (look t)" using assms(2) by auto
  then have "card (dom (look (del k t))) < card (dom (look t))"
    using finite_keys [OF assms(1)] card_gt_0_iff [of "dom (look t)"] d(3) by auto
  then have "put v (del k t) \<noteq> None" using put_None [OF d(1), of v] d(2) assms(3) by simp
  then show ?thesis by auto
qed

end

end
