(* ===== verification/Fd_Table.thy ===== *)
theory Fd_Table
  imports Path_Resolve Interfaces "HOL-Library.Char_ord" "HOL-Library.List_Lexorder"
begin

text \<open>
  The descriptor table: its construction from the configured streams and mounts (\<^verbatim>\<open>makeFS\<close>), the
  allocation of descriptor numbers (\<^verbatim>\<open>alloc\<close>) and its destruction (\<^verbatim>\<open>closeFS\<close>), all of \<^verbatim>\<open>fs.go\<close>. The sort
  of the mounts by guest path is \<^verbatim>\<open>sort.Slice\<close>, which is unspecified only for equal guest paths; the
  \<open>i\<close>-th preopened mount in that order is capability root \<open>Suc i\<close>.
\<close>

section \<open>Allocation\<close>

text \<open>The search for a free number wraps around at \<open>2 ^ 32\<close>. One more round than there are entries
  always finds one (\<open>nextFree_free\<close> below).\<close>

fun nextFree :: "nat \<Rightarrow> (u32 \<times> fdEntry) list \<Rightarrow> u32 \<Rightarrow> u32" where
  "nextFree 0 tbl fd = fd"
| "nextFree (Suc k) tbl fd = (if map_of tbl fd \<noteq> None then nextFree k tbl (fd + 1) else fd)"

definition alloc :: "fdEntry \<Rightarrow> ('w st, u64 + u32) state" where
  "alloc e = do {
     fs \<leftarrow> gets s_fs;
     if of_nat (length (fs_fds fs)) \<ge> fs_maxFDs fs then ret (Inl wasiEMfile)
     else do {
       let fd = nextFree (Suc (length (fs_fds fs))) (fs_fds fs) (fs_nextFD fs);
       modify (\<lambda>s. s\<lparr>s_fs := fs\<lparr>fs_fds := AList.update fd e (fs_fds fs), fs_nextFD := fd + 1\<rparr>\<rparr>);
       ret (Inr fd) } }"

section \<open>Construction\<close>

record mountConfig =
  m_name :: string
  m_host :: string
  m_rights :: u64
  m_inherited :: u64

definition mountOf :: "preopen \<Rightarrow> mountConfig" where
  "mountOf mount =
     (let rights = 0; inherited = 0;
          rights = (if preopen.Read mount then rights OR directoryReadRights else rights);
          inherited = (if preopen.Read mount then inherited OR (directoryReadRights OR fileReadRights) else inherited);
          rights = (if preopen.Write mount then rights OR (rightPathOpen OR rightPathFilestatSetSize OR
                       rightPathFilestatSetTimes OR rightFDFilestatSetTimes) else rights);
          inherited = (if preopen.Write mount then inherited OR (fileWriteRights OR rightPathOpen OR
                       rightPathFilestatSetSize OR rightPathFilestatSetTimes) else inherited);
          rights = (if MutateDirectory mount then rights OR directoryMutationRights else rights);
          inherited = (if MutateDirectory mount then inherited OR directoryMutationRights else inherited)
      in \<lparr>m_name = GuestPath mount, m_host = HostPath mount, m_rights = rights, m_inherited = inherited\<rparr>)"

definition sortedMounts :: "config \<Rightarrow> mountConfig list" where
  "sortedMounts cfg = sort_key m_name (map mountOf (c_Mounts cfg))"

definition stdioEntries :: "config \<Rightarrow> (u32 \<times> fdEntry) list" where
  "stdioEntries cfg =
     [(0, nilEntry\<lparr>e_reader := c_Stdin cfg, e_rights := rightFDFilestatGet OR rightPollFDReadWrite OR rightFDRead\<rparr>),
      (1, nilEntry\<lparr>e_writer := c_Stdout cfg, e_rights := rightFDFilestatGet OR rightPollFDReadWrite OR rightFDWrite\<rparr>),
      (2, nilEntry\<lparr>e_writer := c_Stderr cfg, e_rights := rightFDFilestatGet OR rightPollFDReadWrite OR rightFDWrite\<rparr>)]"

definition closeEntries :: "'w host \<Rightarrow> (u32 \<times> fdEntry) list \<Rightarrow> ('w st, unit) state" where
  "closeEntries H tbl = closeFiles H (concat (map (\<lambda>x.
     (case e_dirIter (snd x) of None \<Rightarrow> [] | Some f \<Rightarrow> [f]) @
     (case e_file (snd x) of None \<Rightarrow> [] | Some f \<Rightarrow> [f])) tbl))"

text \<open>\<^verbatim>\<open>closeFS\<close>: the table after it is closed and empty.\<close>

definition closeFS :: "'w host \<Rightarrow> fsState \<Rightarrow> ('w st, fsState) state" where
  "closeFS H fs = do {
     closeEntries H (fs_fds fs);
     ret (fs\<lparr>fs_cancelled := True, fs_closed := True, fs_fds := []\<rparr>) }"

definition openPreopen :: "'w host \<Rightarrow> nat \<Rightarrow> string \<Rightarrow> ('w st, goerr + fileid) state" where
  "openPreopen H root path = hostOpen H root (HOsOpen path)"

definition hostMountRoot :: "string \<Rightarrow> string" where
  "hostMountRoot host = host"

text \<open>\<^verbatim>\<open>filepath.Abs\<close>.\<close>

definition filepathAbs :: "'w host \<Rightarrow> string \<Rightarrow> ('w st, goerr + string) state" where
  "filepathAbs H path =
     (if hasPrefix path ''/'' then ret (Inr (clean path))
      else do {
        r \<leftarrow> hostCall H HGetwd;
        ret (case asStr r of Inl e \<Rightarrow> Inl e | Inr wd \<Rightarrow> Inr (joinPath wd path)) })"

text \<open>One preopen: the steps up to the new entry. An error names the step that failed, with the handle
  already closed.\<close>

definition openMount :: "'w host \<Rightarrow> nat \<Rightarrow> mountConfig \<Rightarrow> ('w st, string + fdEntry) state" where
  "openMount H root mount = do {
     abs \<leftarrow> filepathAbs H (m_host mount);
     case abs of Inl err \<Rightarrow> ret (Inl ''resolve preopen'') | Inr host \<Rightarrow> do {
       f \<leftarrow> openPreopen H root host;
       case f of Inl err \<Rightarrow> ret (Inl ''open preopen'') | Inr file \<Rightarrow> do {
         st \<leftarrow> hostStat H file;
         if (case st of Inl err \<Rightarrow> True | Inr info \<Rightarrow> \<not> isDir info)
         then do { hostClose H file; ret (Inl ''stat preopen'') }
         else ret (Inr (nilEntry\<lparr>e_file := Some file, e_mount := host, e_root := hostMountRoot host,
                e_preopen := m_name mount, e_rights := m_rights mount, e_inheriting := m_inherited mount\<rparr>)) } } }"

fun makeFSLoop :: "'w host \<Rightarrow> bool \<Rightarrow> fsState \<Rightarrow> nat \<Rightarrow> mountConfig list \<Rightarrow> ('w st, string + fsState) state" where
  "makeFSLoop H strict fs i [] = ret (Inr fs)"
| "makeFSLoop H strict fs i (mount # mounts) =
     (if of_nat (length (fs_fds fs)) \<ge> fs_maxFDs fs then
        (if strict then do { closeFS H fs; ret (Inl ''preopens exceed maxOpenFiles'') }
         else ret (Inr fs))
      else do {
        r \<leftarrow> openMount H (Suc i) mount;
        case r of
          Inl msg \<Rightarrow>
            if strict then do { closeFS H fs; ret (Inl msg) }
            else makeFSLoop H strict fs (Suc i) mounts
        | Inr e \<Rightarrow> do {
            let fd = fs_nextFD fs;
            makeFSLoop H strict (fs\<lparr>fs_nextFD := fd + 1, fs_fds := AList.update fd e (fs_fds fs)\<rparr>) (Suc i) mounts } })"

definition initialFS :: "config \<Rightarrow> fsState" where
  "initialFS cfg =
     (let maxFDs = c_MaxOpenFiles cfg;
          maxFDs = (if maxFDs = 0 then 1024 else maxFDs);
          maxFDs = (if maxFDs < 3 then 3 else maxFDs)
      in \<lparr>fs_fds = stdioEntries cfg, fs_nextFD = 3, fs_maxFDs = maxFDs, fs_cancelled = False, fs_closed = False\<rparr>)"

definition makeFS :: "'w host \<Rightarrow> config \<Rightarrow> bool \<Rightarrow> ('w st, string + fsState) state" where
  "makeFS H cfg strict = makeFSLoop H strict (initialFS cfg) 0 (sortedMounts cfg)"

section \<open>Free descriptors\<close>

lemma nextFree_char:
  "(\<exists>j<k. map_of tbl (fd + of_nat j) = None) \<Longrightarrow> map_of tbl (nextFree k tbl fd) = None"
proof (induction k arbitrary: fd)
  case (Suc k)
  show ?case
  proof (cases "map_of tbl fd = None")
    case False
    with Suc.prems obtain j where "j < Suc k" "map_of tbl (fd + of_nat j) = None" by blast
    with False obtain i where "j = Suc i" "i < k" "map_of tbl (fd + 1 + of_nat i) = None"
      by (cases j) (auto simp: add.assoc)
    with False show ?thesis using Suc.IH [of "fd + 1"] by auto
  qed simp
qed simp

lemma nextFree_free:
  assumes "length tbl < 2 ^ 32"
  shows "map_of tbl (nextFree (Suc (length tbl)) tbl fd) = None"
proof (rule nextFree_char, rule ccontr)
  assume "\<not> (\<exists>j<Suc (length tbl). map_of tbl (fd + of_nat j) = None)"
  then have sub: "(\<lambda>j. fd + of_nat j) ` {..<Suc (length tbl)} \<subseteq> fst ` set tbl"
    by (auto dest: map_of_in_fst)
  have "inj_on (\<lambda>j. fd + of_nat j :: u32) {..<Suc (length tbl)}"
  proof (rule inj_onI)
    fix i j assume "i \<in> {..<Suc (length tbl)}" "j \<in> {..<Suc (length tbl)}" "fd + of_nat i = fd + of_nat j"
    then have "unat (of_nat i :: u32) = unat (of_nat j :: u32)" "i < 2 ^ 32" "j < 2 ^ 32"
      using assms by auto
    then show "i = j" by (simp add: unat_of_nat)
  qed
  then have "Suc (length tbl) \<le> card (fst ` set tbl)"
    using card_mono [OF _ sub] by (simp add: card_image)
  also have "\<dots> \<le> length tbl" by (metis card_length length_map set_map)
  finally show False by simp
qed

section \<open>Safety\<close>

lemma length_below_max:
  fixes m :: u32
  assumes "length xs \<le> unat m" and "\<not> m \<le> of_nat (length xs)"
  shows "length xs < unat m"
proof -
  have "length xs < 4294967296" using assms(1) unat_u32_bound [of m] by linarith
  then have "unat (of_nat (length xs) :: u32) = length xs" by (simp add: unat_of_nat)
  with assms(2) show ?thesis by (simp add: word_le_nat_alt)
qed

definition allocFS :: "fsState \<Rightarrow> u32 \<Rightarrow> fdEntry \<Rightarrow> fsState" where
  "allocFS fs fd e = fs\<lparr>fs_fds := AList.update fd e (fs_fds fs), fs_nextFD := fd + 1\<rparr>"

lemma triple_alloc [vcg]:
  assumes "tableOk M fs"
  shows "triple (St N M L fs) (alloc e)
    (\<lambda>r. St N M L (case r of Inl c \<Rightarrow> fs | Inr fd \<Rightarrow> allocFS fs fd e))
    (\<lambda>r. case r of Inl c \<Rightarrow> c \<noteq> wasiOK
       | Inr fd \<Rightarrow> map_of (fs_fds fs) fd = None \<and> length (fs_fds fs) < unat (fs_maxFDs fs))"
proof -
  have len: "length (fs_fds fs) \<le> unat (fs_maxFDs fs)" using assms unfolding tableOk_def by blast
  then have "length (fs_fds fs) < 4294967296"
    using unat_u32_bound [of "fs_maxFDs fs"] by linarith
  then have free: "map_of (fs_fds fs) (nextFree (Suc (length (fs_fds fs))) (fs_fds fs) (fs_nextFD fs)) = None"
    by (intro nextFree_free) simp
  show ?thesis
    using free length_below_max [OF len]
    by (auto simp: triple_def alloc_def wp_simps St_def allocFS_def Let_def simp del: nextFree.simps)
qed

lemma tableOk_alloc:
  assumes "tableOk M fs" and "map_of (fs_fds fs) fd = None" and "length (fs_fds fs) < unat (fs_maxFDs fs)"
    and "entryOk M e"
  shows "tableOk M (allocFS fs fd e)"
proof -
  have "fd \<notin> fst ` set (fs_fds fs)" using assms(2) by (simp add: map_of_eq_None_iff)
  with assms show ?thesis
    by (auto simp: tableOk_def allocFS_def length_AList_update distinct_update set_AList_update)
qed

lemma owned_alloc:
  assumes "tableOk M fs" and "map_of (fs_fds fs) fd = None"
  shows "owned (allocFS fs fd e) = entryFiles e \<union> owned fs"
proof -
  have "fst x \<noteq> fd" if "x \<in> set (fs_fds fs)" for x
    using that assms(2) by (metis imageI map_of_eq_None_iff)
  then have "{x \<in> set (fs_fds fs). fst x \<noteq> fd} = set (fs_fds fs)" by auto
  with assms(1) show ?thesis
    by (simp add: owned_def allocFS_def set_AList_update tableOk_def)
qed

subsection \<open>The initial table\<close>

definition mountRights :: "config \<Rightarrow> nat \<Rightarrow> u64" where
  "mountRights cfg root = (case root of
      0 \<Rightarrow> rightFDFilestatGet OR rightPollFDReadWrite OR rightFDRead OR rightFDWrite
    | Suc i \<Rightarrow> (if i < length (sortedMounts cfg)
        then m_rights (sortedMounts cfg ! i) OR m_inherited (sortedMounts cfg ! i) else 0))"

definition mountHost :: "config \<Rightarrow> nat \<Rightarrow> string option" where
  "mountHost cfg root = (case root of 0 \<Rightarrow> None
    | Suc i \<Rightarrow> (if i < length (sortedMounts cfg) then Some (m_host (sortedMounts cfg ! i)) else None))"

definition mountAuthority :: "config \<Rightarrow> authority" where
  "mountAuthority cfg = \<lparr>a_rights = mountRights cfg, a_host = mountHost cfg, a_quota = fs_maxFDs (initialFS cfg)\<rparr>"

definition mountWithin :: "authority \<Rightarrow> nat \<Rightarrow> mountConfig \<Rightarrow> bool" where
  "mountWithin M i mount \<longleftrightarrow> m_rights mount AND NOT (a_rights M (Suc i)) = 0 \<and> m_inherited mount AND NOT (a_rights M (Suc i)) = 0 \<and>
     a_host M (Suc i) = Some (m_host mount) \<and> length (m_name mount) < 2 ^ 32"

lemma triple_filepathAbs [vcg]:
  "safe N M L fs (filepathAbs H path) (\<lambda>r. \<forall>p. r = Inr p \<longrightarrow> absoluteOf path p)"
  unfolding filepathAbs_def by (rule vcg | simp add: absoluteOf_def; fail | (auto simp: absoluteOf_def split: sum.splits; fail))+

lemma set_closeEntries:
  "set (concat (map (\<lambda>x. (case e_dirIter (snd x) of None \<Rightarrow> [] | Some f \<Rightarrow> [f]) @
     (case e_file (snd x) of None \<Rightarrow> [] | Some f \<Rightarrow> [f])) tbl)) = (\<Union>x\<in>set tbl. entryFiles (snd x))"
  unfolding entryFiles_def by (induction tbl) (auto split: option.splits)

lemma triple_closeFS [vcg]:
  "triple (St N M L fs0) (closeFS H fs) (\<lambda>_. St N M (L - owned fs) fs0)
     (\<lambda>r. r = fs\<lparr>fs_cancelled := True, fs_closed := True, fs_fds := []\<rparr>)"
  unfolding closeFS_def closeEntries_def owned_def set_closeEntries [symmetric]
  by (rule vcg | simp)+

lemma triple_openMount [vcg]:
  "mountWithin M i mount \<Longrightarrow>
   triple (St N M L fs0) (openMount H (Suc i) mount)
     (\<lambda>r. St N M (case r of Inl m \<Rightarrow> L | Inr e \<Rightarrow> L \<union> entryFiles e) fs0)
     (\<lambda>r. case r of Inl m \<Rightarrow> True | Inr e \<Rightarrow> entryOk M e \<and> entryFiles e \<inter> L = {})"
  unfolding openMount_def openPreopen_def
  by (rule vcg | simp; fail |
      (force simp: entryOk_def entryRoot_def nilEntry_def entryFiles_def streamOk_def mountWithin_def split: sum.splits))+

text \<open>The numbers of a table under construction are \<open>0, 1, \<dots>\<close>, and the next one follows.\<close>

definition denseTable :: "fsState \<Rightarrow> bool" where
  "denseTable fs \<longleftrightarrow> fst ` set (fs_fds fs) = of_nat ` {..<length (fs_fds fs)} \<and>
     fs_nextFD fs = of_nat (length (fs_fds fs))"

lemma denseTable_next:
  assumes "denseTable fs" and "length (fs_fds fs) < 4294967296"
  shows "map_of (fs_fds fs) (fs_nextFD fs) = None"
proof -
  have "of_nat (length (fs_fds fs)) \<notin> (of_nat :: nat \<Rightarrow> u32) ` {..<length (fs_fds fs)}"
  proof
    assume "of_nat (length (fs_fds fs)) \<in> (of_nat :: nat \<Rightarrow> u32) ` {..<length (fs_fds fs)}"
    then obtain j where j: "j < length (fs_fds fs)" "(of_nat (length (fs_fds fs)) :: u32) = of_nat j" by auto
    then have "unat (of_nat (length (fs_fds fs)) :: u32) = unat (of_nat j :: u32)" by simp
    with j(1) assms(2) show False by (simp add: unat_of_nat)
  qed
  with assms(1) show ?thesis by (simp add: denseTable_def map_of_eq_None_iff)
qed

lemma denseTable_alloc:
  assumes "denseTable fs" and "map_of (fs_fds fs) (fs_nextFD fs) = None"
  shows "denseTable (allocFS fs (fs_nextFD fs) e)"
proof -
  have "fs_nextFD fs \<notin> fst ` set (fs_fds fs)" using assms(2) by (simp add: map_of_eq_None_iff)
  with assms(1) show ?thesis
    by (simp add: denseTable_def allocFS_def length_AList_update AList.dom_update lessThan_Suc image_insert)
qed

lemma makeFSLoop_next:
  "fs\<lparr>fs_nextFD := fs_nextFD fs + 1, fs_fds := AList.update (fs_nextFD fs) e (fs_fds fs)\<rparr> =
     allocFS fs (fs_nextFD fs) e"
  by (simp add: allocFS_def)

lemma triple_makeFSLoop:
  assumes "\<forall>j<length mounts. mountWithin M (i + j) (mounts ! j)"
    and "L0 = L \<union> owned fs" and "owned fs \<inter> L = {}" and "tableOk M fs" and "denseTable fs" and "\<not> fs_closed fs"
  shows "triple (St N M L0 fs0) (makeFSLoop H strict fs i mounts)
    (\<lambda>r. St N M (case r of Inl m \<Rightarrow> L | Inr fs' \<Rightarrow> L \<union> owned fs') fs0)
    (\<lambda>r. case r of Inl m \<Rightarrow> strict
       | Inr fs' \<Rightarrow> tableOk M fs' \<and> owned fs' \<inter> L = {} \<and> \<not> fs_closed fs' \<and> fs_maxFDs fs' = fs_maxFDs fs)"
  using assms
proof (induction mounts arbitrary: fs i L0)
  case Nil
  show ?case by (simp, rule vcg) (use Nil in auto)
next
  case (Cons mount mounts)
  have len: "length (fs_fds fs) \<le> unat (fs_maxFDs fs)" using Cons.prems unfolding tableOk_def by blast
  have within: "mountWithin M i mount" "\<forall>j<length mounts. mountWithin M (Suc i + j) (mounts ! j)"
    using Cons.prems(1) by fastforce+
  have diff: "L0 - owned fs = L" using Cons.prems by auto
  show ?case
  proof (cases "fs_maxFDs fs \<le> of_nat (length (fs_fds fs))")
    case True
    show ?thesis
      unfolding makeFSLoop.simps if_P [OF True]
      by (rule vcg | simp add: diff; fail | simp add: Cons.prems; fail)+
  next
    case False
    note room = length_below_max [OF len False]
    then have "length (fs_fds fs) < 4294967296" using unat_u32_bound [of "fs_maxFDs fs"] by linarith
    note free = denseTable_next [OF Cons.prems(5) this]
    let ?fs = "allocFS fs (fs_nextFD fs)"
    have new: "tableOk M (?fs e)" "owned (?fs e) = entryFiles e \<union> owned fs" "denseTable (?fs e)"
      "fs_maxFDs (?fs e) = fs_maxFDs fs" "fs_closed (?fs e) = fs_closed fs" if "entryOk M e" for e
      using that Cons.prems free room
      by (simp_all add: tableOk_alloc owned_alloc denseTable_alloc) (simp_all add: allocFS_def)
    have skip: "triple (St N M L0 fs0) (makeFSLoop H strict fs (Suc i) mounts)
        (\<lambda>r. St N M (case r of Inl m \<Rightarrow> L | Inr fs' \<Rightarrow> L \<union> owned fs') fs0)
        (\<lambda>r. case r of Inl m \<Rightarrow> strict
           | Inr fs' \<Rightarrow> tableOk M fs' \<and> owned fs' \<inter> L = {} \<and> \<not> fs_closed fs' \<and> fs_maxFDs fs' = fs_maxFDs fs)"
      using Cons.prems within by (intro Cons.IH) simp_all
    have add: "triple (St N M (L0 \<union> entryFiles e) fs0) (makeFSLoop H strict (?fs e) (Suc i) mounts)
        (\<lambda>r. St N M (case r of Inl m \<Rightarrow> L | Inr fs' \<Rightarrow> L \<union> owned fs') fs0)
        (\<lambda>r. case r of Inl m \<Rightarrow> strict
           | Inr fs' \<Rightarrow> tableOk M fs' \<and> owned fs' \<inter> L = {} \<and> \<not> fs_closed fs' \<and> fs_maxFDs fs' = fs_maxFDs fs)"
      if "entryOk M e" "entryFiles e \<inter> L0 = {}" for e
    proof -
      have p: "L0 \<union> entryFiles e = L \<union> owned (?fs e)" "owned (?fs e) \<inter> L = {}"
        using that Cons.prems new(2) [OF that(1)] by auto
      show ?thesis
        using Cons.IH [OF within(2) p new(1,3) [OF that(1)]] Cons.prems(6) by (simp add: new(4,5) [OF that(1)])
    qed
    let ?L = "\<lambda>a :: string + fdEntry. case a of Inl m \<Rightarrow> L0 | Inr e \<Rightarrow> L0 \<union> entryFiles e"
    let ?Q = "\<lambda>r. St N M (case r of Inl m \<Rightarrow> L | Inr fs' \<Rightarrow> L \<union> owned fs') fs0"
    let ?R = "\<lambda>r. case r of Inl m \<Rightarrow> strict
           | Inr fs' \<Rightarrow> tableOk M fs' \<and> owned fs' \<inter> L = {} \<and> \<not> fs_closed fs' \<and> fs_maxFDs fs' = fs_maxFDs fs"
    have step_skip: "triple (St N M (?L a) fs0) (makeFSLoop H strict fs (Suc i) mounts) ?Q ?R"
      if "a = Inl msg" for a msg
      using that skip by simp
    have step_add: "triple (St N M (?L a) fs0) (makeFSLoop H strict (?fs e) (Suc i) mounts) ?Q ?R"
      if "a = Inr e" "case a of Inl m \<Rightarrow> True | Inr e \<Rightarrow> entryOk M e \<and> entryFiles e \<inter> L0 = {}" for a e
      using that add by simp
    show ?thesis
      unfolding makeFSLoop.simps Let_def makeFSLoop_next if_not_P [OF False]
      by (rule vcg within(1) step_skip step_add | simp add: diff; fail | assumption)+
  qed
qed

text \<open>Configurations the development assumes: the packed argument and environment lists and the guest
  paths fit Go's address space, there is a clock, and configured file streams are of capability root 0.\<close>

definition configOk :: "config \<Rightarrow> bool" where
  "configOk cfg \<longleftrightarrow> cfgOk cfg \<and> (\<forall>m\<in>set (c_Mounts cfg). length (GuestPath m) < 2 ^ 32) \<and>
     streamOk (c_Stdin cfg) \<and> streamOk (c_Stdout cfg) \<and> streamOk (c_Stderr cfg)"

lemma mountOf_name [simp]: "m_name (mountOf m) = GuestPath m"
  by (simp add: mountOf_def Let_def)

lemma and_not_or_self:
  fixes a b :: u64
  shows "a AND NOT (a OR b) = 0" "b AND NOT (a OR b) = 0"
  by (auto simp: bit_eq_iff bit_simps)

lemma sortedMounts_within:
  assumes "configOk cfg" and "j < length (sortedMounts cfg)"
  shows "mountWithin (mountAuthority cfg) j (sortedMounts cfg ! j)"
proof -
  have "sortedMounts cfg ! j \<in> set (sortedMounts cfg)" using assms(2) by simp
  then have "length (m_name (sortedMounts cfg ! j)) < 2 ^ 32"
    using assms(1) by (auto simp: sortedMounts_def configOk_def)
  with assms(2) show ?thesis
    by (simp add: mountWithin_def mountAuthority_def mountRights_def mountHost_def and_not_or_self del: bit.de_Morgan_disj)
qed

lemma initialFS_ok:
  assumes "configOk cfg"
  shows "tableOk (mountAuthority cfg) (initialFS cfg)" "denseTable (initialFS cfg)" "owned (initialFS cfg) = {}"
    "\<not> fs_closed (initialFS cfg)"
proof -
  have "3 \<le> fs_maxFDs (initialFS cfg)" by (simp add: initialFS_def Let_def not_less)
  then have "3 \<le> unat (fs_maxFDs (initialFS cfg))" by (simp add: word_le_nat_alt)
  moreover have "fs_fds (initialFS cfg) = stdioEntries cfg" by (simp add: initialFS_def Let_def)
  moreover have "\<not> fs_closed (initialFS cfg)" by (simp add: initialFS_def Let_def)
  ultimately show "tableOk (mountAuthority cfg) (initialFS cfg)"
    using assms
    by (simp add: tableOk_def stdioEntries_def entryOk_def entryRoot_def nilEntry_def mountAuthority_def mountRights_def
        configOk_def streamOk_def)
  have "{..<3} = {0, 1, 2 :: nat}" by auto
  then show "denseTable (initialFS cfg)"
    by (auto simp: denseTable_def initialFS_def stdioEntries_def Let_def numeral_3_eq_3)
  show "owned (initialFS cfg) = {}"
    by (simp add: owned_def initialFS_def stdioEntries_def Let_def entryFiles_def nilEntry_def)
  show "\<not> fs_closed (initialFS cfg)" by (simp add: initialFS_def Let_def)
qed

lemma triple_makeFS [vcg]:
  assumes "configOk cfg" and "M = mountAuthority cfg"
  shows "triple (St N M L fs0) (makeFS H cfg strict)
    (\<lambda>r. St N M (case r of Inl m \<Rightarrow> L | Inr fs \<Rightarrow> L \<union> owned fs) fs0)
    (\<lambda>r. case r of Inl m \<Rightarrow> strict
       | Inr fs \<Rightarrow> tableOk M fs \<and> owned fs \<inter> L = {} \<and> \<not> fs_closed fs \<and> fs_maxFDs fs = fs_maxFDs (initialFS cfg))"
  unfolding makeFS_def
  by (rule triple_makeFSLoop) (use assms initialFS_ok [OF assms(1)] sortedMounts_within in auto)

section \<open>The descriptor table as a handle table\<close>

text \<open>\<open>alloc\<close> and the removal of an entry as functions on the table.\<close>

definition allocIn :: "fdEntry \<Rightarrow> fsState \<Rightarrow> (fsState \<times> u32) option" where
  "allocIn e fs =
     (if of_nat (length (fs_fds fs)) \<ge> fs_maxFDs fs then None
      else (let fd = nextFree (Suc (length (fs_fds fs))) (fs_fds fs) (fs_nextFD fs) in Some (allocFS fs fd e, fd)))"

definition deleteIn :: "u32 \<Rightarrow> fsState \<Rightarrow> fsState" where
  "deleteIn fd fs = fs\<lparr>fs_fds := AList.delete fd (fs_fds fs)\<rparr>"

lemma run_alloc:
  "run_state (alloc e) s = (case allocIn e (s_fs s) of None \<Rightarrow> (Inl wasiEMfile, s) | Some (fs, fd) \<Rightarrow> (Inr fd, s\<lparr>s_fs := fs\<rparr>))"
  by (simp add: alloc_def allocIn_def allocFS_def Let_def del: nextFree.simps)

lemma run_deleteEntry: "run_state (deleteEntry fd) s = ((), s\<lparr>s_fs := deleteIn fd (s_fs s)\<rparr>)"
  by (simp add: deleteEntry_def deleteIn_def)

definition descriptorsOk :: "fsState \<Rightarrow> bool" where
  "descriptorsOk fs \<longleftrightarrow> distinct (map fst (fs_fds fs)) \<and> length (fs_fds fs) \<le> unat (fs_maxFDs fs)"

lemma descriptorsOk_card: "descriptorsOk fs \<Longrightarrow> card (dom (map_of (fs_fds fs))) = length (fs_fds fs)"
  unfolding descriptorsOk_def dom_map_of_conv_image_fst by (metis distinct_card length_map set_map)

lemma descriptorsOk_small: "descriptorsOk fs \<Longrightarrow> length (fs_fds fs) < 2 ^ 32"
  using unat_u32_bound [of "fs_maxFDs fs"] by (simp add: descriptorsOk_def del: unat_u32_bound)

lemma allocIn_Some:
  assumes "descriptorsOk fs" and "allocIn e fs = Some (fs', fd)"
  shows "descriptorsOk fs' \<and> fs_maxFDs fs' = fs_maxFDs fs \<and> map_of (fs_fds fs) fd = None \<and>
    map_of (fs_fds fs') = (map_of (fs_fds fs))(fd \<mapsto> e)"
proof -
  from assms(2) have room: "\<not> fs_maxFDs fs \<le> of_nat (length (fs_fds fs))"
    and fd: "fd = nextFree (Suc (length (fs_fds fs))) (fs_fds fs) (fs_nextFD fs)" and fs': "fs' = allocFS fs fd e"
    by (auto simp: allocIn_def Let_def simp del: nextFree.simps split: if_splits)
  have free: "map_of (fs_fds fs) fd = None"
    unfolding fd by (rule nextFree_free [OF descriptorsOk_small [OF assms(1)]])
  moreover have "length (fs_fds fs) < unat (fs_maxFDs fs)"
    using assms(1) room by (intro length_below_max) (simp_all add: descriptorsOk_def)
  ultimately show ?thesis
    using assms(1) by (auto simp: fs' allocFS_def descriptorsOk_def length_AList_update distinct_update update_conv' map_of_eq_None_iff)
qed

interpretation descriptors: quota_table descriptorsOk "\<lambda>fs. map_of (fs_fds fs)" "\<lambda>fs. unat (fs_maxFDs fs)" allocIn deleteIn
proof unfold_locales
  fix fs :: fsState assume ok: "descriptorsOk fs"
  show "finite (dom (map_of (fs_fds fs)))" by (rule finite_dom_map_of)
  have "unat (of_nat (length (fs_fds fs)) :: u32) = length (fs_fds fs)"
    using descriptorsOk_small [OF ok] by (simp add: unat_of_nat)
  then show "allocIn e fs = None \<longleftrightarrow> unat (fs_maxFDs fs) \<le> card (dom (map_of (fs_fds fs)))" for e
    unfolding descriptorsOk_card [OF ok] by (simp add: allocIn_def Let_def word_le_nat_alt)
  show "descriptorsOk (deleteIn k fs) \<and> unat (fs_maxFDs (deleteIn k fs)) = unat (fs_maxFDs fs) \<and>
      map_of (fs_fds (deleteIn k fs)) = (map_of (fs_fds fs))(k := None)" for k
    using ok length_AList_delete [of "fs_fds fs" k] by (auto simp: deleteIn_def descriptorsOk_def distinct_delete AList.delete_conv')
qed (auto dest: allocIn_Some)

end
