(* ===== verification/Path_Ops.thy ===== *)
theory Path_Ops
  imports Fd_Table
begin

text \<open>
  The path handlers of \<^verbatim>\<open>fs.go\<close>. A handler reads its guest strings, resolves the directory descriptor
  (also when reading a string failed: its \<^verbatim>\<open>Stat\<close> still happens), checks rights and flags and only then
  opens temporary handles, which it closes on every branch.
\<close>

definition trailingSep :: "string \<Rightarrow> bool" where
  "trailingSep name \<longleftrightarrow> hasSuffix name ''/'' \<or> guestBackslashSeparator \<and> hasSuffix name [CHR 0x5C]"

section \<open>Operations on one leaf\<close>

definition pathUnary :: "'w host \<Rightarrow> u64 list \<Rightarrow> u64 \<Rightarrow> (fileid \<Rightarrow> string \<Rightarrow> ('w st, goerr option) state) \<Rightarrow>
    ('w st, u64) state" where
  "pathUnary H p right oper = do {
     (name, code) \<leftarrow> guestBytes (arg32 p 1) (arg32 p 2);
     rs \<leftarrow> resolve H (arg32 p 0) name;
     if code \<noteq> 0 then ret code
     else (case rs of Inl pathCode \<Rightarrow> ret pathCode | Inr (d, name) \<Rightarrow>
       if require d right \<noteq> 0 then ret (require d right)
       else do {
         let name = (if guestBackslashSeparator \<and> (right = rightPathCreateDirectory \<or> right = rightPathRemoveDirectory)
                     then trimRight name [CHR ''/'', CHR 0x5C] else name);
         pr \<leftarrow> openParent H d name;
         case pr of Inl parentCode \<Rightarrow> ret parentCode | Inr (parent, leaf) \<Rightarrow> do {
           err \<leftarrow> oper parent leaf;
           hostClose H parent;
           ret (errno err) } }) }"

definition pathCreateDirectory :: "'w host \<Rightarrow> config \<Rightarrow> u64 list \<Rightarrow> ('w st, u64) state" where
  "pathCreateDirectory H cfg p =
     pathUnary H p rightPathCreateDirectory (\<lambda>parent name. makeDirectoryAt H parent name 0x1ff)"

definition pathRemoveDirectory :: "'w host \<Rightarrow> config \<Rightarrow> u64 list \<Rightarrow> ('w st, u64) state" where
  "pathRemoveDirectory H cfg p =
     pathUnary H p rightPathRemoveDirectory (\<lambda>parent name. removeAt H parent name True)"

definition pathUnlinkFile :: "'w host \<Rightarrow> config \<Rightarrow> u64 list \<Rightarrow> ('w st, u64) state" where
  "pathUnlinkFile H cfg p = do {
     (name, code) \<leftarrow> guestBytes (arg32 p 1) (arg32 p 2);
     if code = 0 \<and> trailingSep name then do {
       rs \<leftarrow> resolve H (arg32 p 0) name;
       case rs of Inl pathCode \<Rightarrow> ret pathCode | Inr (d, cleaned) \<Rightarrow>
         if require d rightPathUnlinkFile \<noteq> 0 then ret (require d rightPathUnlinkFile)
         else do {
           f \<leftarrow> openMetadataAt H d cleaned False;
           case f of Inl openCode \<Rightarrow> ret openCode | Inr file \<Rightarrow> do {
             st \<leftarrow> hostStat H file;
             hostClose H file;
             case st of Inl err \<Rightarrow> ret wasiENotdir
             | Inr info \<Rightarrow> ret (if isDir info then wasiEIsdir else wasiENotdir) } } }
     else pathUnary H p rightPathUnlinkFile (\<lambda>parent name. removeAt H parent name False) }"

section \<open>Metadata\<close>

definition pathFilestatGet :: "'w host \<Rightarrow> config \<Rightarrow> u64 list \<Rightarrow> ('w st, u64) state" where
  "pathFilestatGet H cfg p = do {
     (name, code) \<leftarrow> guestBytes (arg32 p 2) (arg32 p 3);
     let trailingSlash = trailingSep name;
     rs \<leftarrow> resolve H (arg32 p 0) name;
     if code \<noteq> 0 then ret code
     else (case rs of Inl pathCode \<Rightarrow> ret pathCode | Inr (d, name) \<Rightarrow>
       if require d rightPathFilestatGet \<noteq> 0 then ret (require d rightPathFilestatGet)
       else if p ! 1 AND NOT 1 \<noteq> 0 then ret wasiEInval
       else do {
         f \<leftarrow> openMetadataAt H d name ((ucast (p ! 1) :: u16) AND 1 \<noteq> 0 \<or> trailingSlash);
         case f of Inl openCode \<Rightarrow> ret openCode | Inr file \<Rightarrow> do {
           st \<leftarrow> hostStat H file;
           hostClose H file;
           case st of Inl err \<Rightarrow> ret (errno (Some err)) | Inr info \<Rightarrow>
             if trailingSlash \<and> \<not> isDir info then ret wasiENotdir
             else writeFilestat (arg32 p 4) info } }) }"

text \<open>The two ways of \<^verbatim>\<open>pathFilestatSetTimes\<close>: through a handle on the followed target, or on the leaf in
  its pinned parent.\<close>

definition setTimesFollow :: "'w host \<Rightarrow> config \<Rightarrow> u64 list \<Rightarrow> fdEntry \<Rightarrow> string \<Rightarrow> bool \<Rightarrow> ('w st, u64) state" where
  "setTimesFollow H cfg p d name trailingSlash = do {
     f \<leftarrow> openMetadataAt H d name True;
     case f of Inl openCode \<Rightarrow> ret openCode | Inr file \<Rightarrow> do {
       st \<leftarrow> hostStat H file;
       case st of Inl err \<Rightarrow> do { hostClose H file; ret (errno (Some err)) } | Inr info \<Rightarrow>
         if trailingSlash \<and> \<not> isDir info then do { hostClose H file; ret wasiENotdir }
         else do {
           rt \<leftarrow> requestedTimes H cfg info (p ! 4) (p ! 5) (p ! 6);
           case rt of Inl code \<Rightarrow> do { hostClose H file; ret code } | Inr ts \<Rightarrow> do {
             err \<leftarrow> setFileTimes H file ts;
             hostClose H file;
             ret (errno err) } } } }"

definition setTimesLeaf :: "'w host \<Rightarrow> config \<Rightarrow> u64 list \<Rightarrow> fdEntry \<Rightarrow> string \<Rightarrow> ('w st, u64) state" where
  "setTimesLeaf H cfg p d name = do {
     pr \<leftarrow> openParent H d name;
     case pr of Inl parentCode \<Rightarrow> ret parentCode | Inr (parent, leaf) \<Rightarrow> do {
       f \<leftarrow> openMetadataAt H d name False;
       case f of Inl openCode \<Rightarrow> do { hostClose H parent; ret openCode } | Inr file \<Rightarrow> do {
         st \<leftarrow> hostStat H file;
         hostClose H file;
         case st of Inl err \<Rightarrow> do { hostClose H parent; ret (errno (Some err)) } | Inr info \<Rightarrow> do {
           rt \<leftarrow> requestedTimes H cfg info (p ! 4) (p ! 5) (p ! 6);
           case rt of Inl code \<Rightarrow> do { hostClose H parent; ret code } | Inr ts \<Rightarrow> do {
             err \<leftarrow> setPathTimes H parent leaf ts True;
             hostClose H parent;
             ret (errno err) } } } } }"

definition pathFilestatSetTimes :: "'w host \<Rightarrow> config \<Rightarrow> u64 list \<Rightarrow> ('w st, u64) state" where
  "pathFilestatSetTimes H cfg p = do {
     (name, code) \<leftarrow> guestBytes (arg32 p 2) (arg32 p 3);
     let trailingSlash = trailingSep name;
     rs \<leftarrow> resolve H (arg32 p 0) name;
     if code \<noteq> 0 then ret code
     else (case rs of Inl pathCode \<Rightarrow> ret pathCode | Inr (d, name) \<Rightarrow>
       if require d rightPathFilestatSetTimes \<noteq> 0 then ret (require d rightPathFilestatSetTimes)
       else if p ! 1 AND NOT 1 \<noteq> 0 then ret wasiEInval
       else if (ucast (p ! 1) :: u16) AND 1 \<noteq> 0 \<or> trailingSlash
       then setTimesFollow H cfg p d name trailingSlash
       else setTimesLeaf H cfg p d name) }"

definition pathReadlink :: "'w host \<Rightarrow> config \<Rightarrow> u64 list \<Rightarrow> ('w st, u64) state" where
  "pathReadlink H cfg p = do {
     (name, code) \<leftarrow> guestBytes (arg32 p 1) (arg32 p 2);
     let trailingSlash = trailingSep name;
     rs \<leftarrow> resolve H (arg32 p 0) name;
     if code \<noteq> 0 then ret code
     else (case rs of Inl pathCode \<Rightarrow> ret pathCode | Inr (d, name) \<Rightarrow>
       if require d rightPathReadlink \<noteq> 0 then ret (require d rightPathReadlink)
       else if trailingSlash then do {
         f \<leftarrow> openMetadataAt H d name True;
         case f of Inl openCode \<Rightarrow> ret openCode | Inr file \<Rightarrow> do {
           st \<leftarrow> hostStat H file;
           hostClose H file;
           case st of Inl err \<Rightarrow> ret (errno (Some err))
           | Inr info \<Rightarrow> ret (if isDir info then wasiEInval else wasiENotdir) } }
       else do {
         pr \<leftarrow> openParent H d name;
         case pr of Inl parentCode \<Rightarrow> ret parentCode | Inr (parent, leaf) \<Rightarrow> do {
           link \<leftarrow> hostReadlink H parent leaf 4096;
           hostClose H parent;
           case link of Inl err \<Rightarrow> ret (errno (Some err)) | Inr target \<Rightarrow>
             if length target = 4096 then ret wasiENametoolong
             else do {
               mem \<leftarrow> gets s_mem;
               let buf = arg32 p 3; let n = arg32 p 4;
               if (ucast buf :: u64) + ucast n > of_nat (length mem) then ret wasiEFault
               else do {
                 let used = (if length target > unat n then unat n else length target);
                 memStore (unat buf) (string_bytes (take used target));
                 ok \<leftarrow> putLe32 (arg32 p 5) (of_nat used);
                 if \<not> ok then ret wasiEFault else ret wasiOK } } } }) }"

section \<open>Operations on two paths\<close>

definition pathLink :: "'w host \<Rightarrow> config \<Rightarrow> u64 list \<Rightarrow> ('w st, u64) state" where
  "pathLink H cfg p = do {
     (oldName, code) \<leftarrow> guestBytes (arg32 p 2) (arg32 p 3);
     (newName, code2) \<leftarrow> guestBytes (arg32 p 5) (arg32 p 6);
     let oldTrailing = trailingSep oldName;
     let newTrailing = trailingSep newName;
     r1 \<leftarrow> resolve H (arg32 p 0) oldName;
     r2 \<leftarrow> resolve H (arg32 p 4) newName;
     if code \<noteq> 0 then ret code
     else if code2 \<noteq> 0 then ret code2
     else (case r1 of Inl c1 \<Rightarrow> ret c1 | Inr (od, oldName) \<Rightarrow>
       (case r2 of Inl c2 \<Rightarrow> ret c2 | Inr (nd, newName) \<Rightarrow>
         if require od rightPathLinkSource \<noteq> 0 then ret (require od rightPathLinkSource)
         else if require nd rightPathLinkTarget \<noteq> 0 then ret (require nd rightPathLinkTarget)
         else if p ! 1 AND NOT 1 \<noteq> 0 then ret wasiEInval
         else if oldTrailing then ret wasiENotdir
         else if newTrailing then ret wasiENoent
         else if e_mount od \<noteq> e_mount nd then ret 75
         else do {
           np \<leftarrow> openParent H nd newName;
           case np of Inl parentCode \<Rightarrow> ret parentCode | Inr (newParent, newLeaf) \<Rightarrow>
             if (ucast (p ! 1) :: u16) AND 1 \<noteq> 0 then do {
               c \<leftarrow> linkAtFollow;
               hostClose H newParent;
               ret c }
             else do {
               op \<leftarrow> openParent H od oldName;
               case op of Inl oldCode \<Rightarrow> do { hostClose H newParent; ret oldCode }
               | Inr (oldParent, oldLeaf) \<Rightarrow> do {
                   err \<leftarrow> linkAt H oldParent oldLeaf newParent newLeaf;
                   hostClose H oldParent;
                   hostClose H newParent;
                   ret (errno err) } } })) }"

definition pathRename :: "'w host \<Rightarrow> config \<Rightarrow> u64 list \<Rightarrow> ('w st, u64) state" where
  "pathRename H cfg p = do {
     (oldRaw, code) \<leftarrow> guestBytes (arg32 p 1) (arg32 p 2);
     (newRaw, code2) \<leftarrow> guestBytes (arg32 p 4) (arg32 p 5);
     r1 \<leftarrow> resolve H (arg32 p 0) oldRaw;
     r2 \<leftarrow> resolve H (arg32 p 3) newRaw;
     if code \<noteq> 0 then ret code
     else if code2 \<noteq> 0 then ret code2
     else (case r1 of Inl c1 \<Rightarrow> ret c1 | Inr (od, oldName) \<Rightarrow>
       (case r2 of Inl c2 \<Rightarrow> ret c2 | Inr (nd, newName) \<Rightarrow>
         if require od rightPathRenameSource \<noteq> 0 then ret (require od rightPathRenameSource)
         else if require nd rightPathRenameTarget \<noteq> 0 then ret (require nd rightPathRenameTarget)
         else if e_mount od \<noteq> e_mount nd then ret 75
         else do {
           let oldName = (if guestBackslashSeparator then trimRight oldName [CHR ''/'', CHR 0x5C] else oldName);
           let newName = (if guestBackslashSeparator then trimRight newName [CHR ''/'', CHR 0x5C] else newName);
           op \<leftarrow> openParent H od oldName;
           case op of Inl oldCode \<Rightarrow> ret oldCode | Inr (oldParent, oldLeaf) \<Rightarrow> do {
             np \<leftarrow> openParent H nd newName;
             case np of Inl newCode \<Rightarrow> do { hostClose H oldParent; ret newCode }
             | Inr (newParent, newLeaf) \<Rightarrow> do {
                 c \<leftarrow> renameAt H oldParent (renameLeaf oldRaw oldLeaf) newParent (renameLeaf newRaw newLeaf);
                 hostClose H newParent;
                 hostClose H oldParent;
                 ret c } } })) }"

definition pathSymlink :: "'w host \<Rightarrow> config \<Rightarrow> u64 list \<Rightarrow> ('w st, u64) state" where
  "pathSymlink H cfg p = do {
     (target, code) \<leftarrow> guestBytes (arg32 p 0) (arg32 p 1);
     (name, code2) \<leftarrow> guestBytes (arg32 p 3) (arg32 p 4);
     let trailingSlash = trailingSep name;
     rs \<leftarrow> resolve H (arg32 p 2) name;
     if code \<noteq> 0 then ret code
     else if code2 \<noteq> 0 then ret code2
     else (case rs of Inl pathCode \<Rightarrow> ret pathCode | Inr (d, name) \<Rightarrow>
       if require d rightPathSymlink \<noteq> 0 then ret (require d rightPathSymlink)
       else if hasPrefix target ''/'' then ret wasiENotcapable
       else if trailingSlash then ret wasiENoent
       else do {
         pr \<leftarrow> openParent H d name;
         case pr of Inl parentCode \<Rightarrow> ret parentCode | Inr (parent, leaf) \<Rightarrow> do {
           err \<leftarrow> symlinkAt H target parent leaf;
           hostClose H parent;
           ret (errno err) } }) }"

section \<open>Safety\<close>

lemma resolved_right:
  assumes "tableOk M fs" and "map_of (fs_fds fs) fd = Some d" and "e_file d \<noteq> None"
    and "e_rights d AND r = r" and "fst f = rootOf d"
  shows "hasRight M f r"
  using file_right [OF assms(1,2), of "the (e_file d)" r] assms(3-) by (auto simp: hasRight_def)

lemma resolved_any:
  "tableOk M fs \<Longrightarrow> map_of (fs_fds fs) fd = Some d \<Longrightarrow> e_file d \<noteq> None \<Longrightarrow> e_rights d AND r = r \<Longrightarrow>
     fst f = rootOf d \<Longrightarrow> r AND r' \<noteq> 0 \<Longrightarrow> hasAny M f r'"
  by (blast intro: resolved_right hasRight_hasAny)

lemma safe_leafOps [vcg]:
  "leafName name \<Longrightarrow> hasRight M d rightPathCreateDirectory \<Longrightarrow> safe N M L fs (makeDirectoryAt H d name mode) (\<lambda>_. True)"
  "leafName name \<Longrightarrow> hasRight M d (if dir then rightPathRemoveDirectory else rightPathUnlinkFile) \<Longrightarrow>
     safe N M L fs (removeAt H d name dir) (\<lambda>_. True)"
  "leafName name \<Longrightarrow> \<not> hasPrefix target ''/'' \<Longrightarrow> hasRight M d rightPathSymlink \<Longrightarrow>
     safe N M L fs (symlinkAt H target d name) (\<lambda>_. True)"
  "leafName name \<Longrightarrow> hasAny M d (rightFDFilestatSetTimes OR rightPathFilestatSetTimes) \<Longrightarrow>
     safe N M L fs (setPathTimes H d name ts True) (\<lambda>_. True)"
  "leafName name \<Longrightarrow> leafName name' \<Longrightarrow> hasRight M d rightPathLinkSource \<Longrightarrow> hasRight M d' rightPathLinkTarget \<Longrightarrow>
     safe N M L fs (linkAt H d name d' name') (\<lambda>_. True)"
  "renameName name \<Longrightarrow> renameName name' \<Longrightarrow> hasRight M d rightPathRenameSource \<Longrightarrow>
     hasRight M d' rightPathRenameTarget \<Longrightarrow> safe N M L fs (renameAt H d name d' name') (\<lambda>_. True)"
  "safe N M L fs linkAtFollow (\<lambda>_. True)"
  unfolding makeDirectoryAt_def removeAt_def symlinkAt_def setPathTimes_def linkAt_def renameAt_def linkAtFollow_def
  by (rule vcg | simp)+

lemma safe_pathUnary [vcg]:
  assumes "N \<le> 4294967296" and "tableOk M fs"
    and oper: "\<And>parent leaf L'. leafName leaf \<Longrightarrow> hasRight M parent right \<Longrightarrow> safe N M L' fs (oper parent leaf) (\<lambda>_. True)"
  shows "safe N M L fs (pathUnary H p right oper) (\<lambda>_. True)"
  unfolding pathUnary_def guestBackslashSeparator_def
  by (rule vcg oper assms | simp; fail | (fastforce intro: resolved_right assms(2)))+

lemma safe_pathUnaries [vcg]:
  assumes "N \<le> 4294967296" and "tableOk M fs"
  shows "safe N M L fs (pathCreateDirectory H cfg p) (\<lambda>_. True)"
    "safe N M L fs (pathRemoveDirectory H cfg p) (\<lambda>_. True)"
  unfolding pathCreateDirectory_def pathRemoveDirectory_def
  by (rule vcg assms | simp)+

lemma safe_pathUnlinkFile [vcg]:
  "N \<le> 4294967296 \<Longrightarrow> tableOk M fs \<Longrightarrow> safe N M L fs (pathUnlinkFile H cfg p) (\<lambda>_. True)"
  unfolding pathUnlinkFile_def by (rule vcg | simp)+

lemma safe_pathFilestatGet [vcg]:
  "N \<le> 4294967296 \<Longrightarrow> safe N M L fs (pathFilestatGet H cfg p) (\<lambda>_. True)"
  unfolding pathFilestatGet_def by (rule vcg | simp; fail | (clarsimp, rule safe_writeFilestat))+

lemma safe_setTimesFollow [vcg]:
  "cfgOk cfg \<Longrightarrow> e_file d \<noteq> None \<Longrightarrow>
   (\<And>f. fst f = rootOf d \<Longrightarrow> hasAny M f (rightFDFilestatSetTimes OR rightPathFilestatSetTimes)) \<Longrightarrow>
     safe N M L fs (setTimesFollow H cfg p d name tr) (\<lambda>_. True)"
  unfolding setTimesFollow_def by (rule vcg | simp; fail)+

lemma safe_setTimesLeaf [vcg]:
  "cfgOk cfg \<Longrightarrow> e_file d \<noteq> None \<Longrightarrow> goodName name \<Longrightarrow>
   (\<And>f. fst f = rootOf d \<Longrightarrow> hasAny M f (rightFDFilestatSetTimes OR rightPathFilestatSetTimes)) \<Longrightarrow>
     safe N M L fs (setTimesLeaf H cfg p d name) (\<lambda>_. True)"
  unfolding setTimesLeaf_def by (rule vcg | simp; fail | (auto; fail))+

lemma safe_pathFilestatSetTimes [vcg]:
  "N \<le> 4294967296 \<Longrightarrow> cfgOk cfg \<Longrightarrow> tableOk M fs \<Longrightarrow> safe N M L fs (pathFilestatSetTimes H cfg p) (\<lambda>_. True)"
  unfolding pathFilestatSetTimes_def
  by (rule vcg | simp; fail | (fastforce intro: resolved_any))+

lemma safe_pathReadlink [vcg]:
  "N \<le> 4294967296 \<Longrightarrow> safe N M L fs (pathReadlink H cfg p) (\<lambda>_. True)"
  unfolding pathReadlink_def by (rule vcg | simp add: range_simps; fail)+

lemma safe_pathSymlink [vcg]:
  "N \<le> 4294967296 \<Longrightarrow> tableOk M fs \<Longrightarrow> safe N M L fs (pathSymlink H cfg p) (\<lambda>_. True)"
  unfolding pathSymlink_def by (rule vcg | simp; fail | (fastforce intro: resolved_right))+

lemma safe_pathLink [vcg]:
  "N \<le> 4294967296 \<Longrightarrow> tableOk M fs \<Longrightarrow> safe N M L fs (pathLink H cfg p) (\<lambda>_. True)"
  unfolding pathLink_def by (rule vcg | simp; fail | (fastforce intro: resolved_right) | (auto; fail))+

lemma renameLeaf_renameName: "leafName leaf \<Longrightarrow> renameName (renameLeaf original leaf)"
  by (auto simp: renameName_def renameLeaf_slash)

lemma safe_pathRename [vcg]:
  "N \<le> 4294967296 \<Longrightarrow> tableOk M fs \<Longrightarrow> safe N M L fs (pathRename H cfg p) (\<lambda>_. True)"
  unfolding pathRename_def guestBackslashSeparator_def
  by (rule vcg renameLeaf_renameName | simp; fail | (fastforce intro: resolved_right) | (auto; fail))+

end
