(* ===== verification/Path_Open.thy ===== *)
theory Path_Open
  imports Path_Ops
begin

text \<open>
  \<^verbatim>\<open>path_open\<close> of \<^verbatim>\<open>fs.go\<close>: the checks of the requested rights against the inheriting rights of the
  directory descriptor, the translation of rights and flags to host open flags, the retry for
  directories, and the allocation of the new descriptor.
\<close>

definition wantsHostWrite :: "u64 \<Rightarrow> u16 \<Rightarrow> bool" where
  "wantsHostWrite rights oflags \<longleftrightarrow> rights AND rightFDWrite \<noteq> 0 \<or>
     rights AND (rightFDAllocate OR rightFDFilestatSetSize) \<noteq> 0 \<or> oflags AND 8 \<noteq> 0"

definition openFlags :: "u64 \<Rightarrow> u16 \<Rightarrow> u16 \<Rightarrow> u16 \<Rightarrow> bool \<Rightarrow> u64" where
  "openFlags rights oflags fdflags lookup trailingSlash =
     (let hostRead = (rights AND rightFDRead \<noteq> 0); hostWrite = wantsHostWrite rights oflags;
          flags = (if hostRead \<and> hostWrite then O_RDWR else if hostWrite then O_WRONLY else 0);
          flags = (if oflags AND 1 \<noteq> 0 then flags OR O_CREAT else flags);
          flags = (if oflags AND 4 \<noteq> 0 then flags OR O_EXCL else flags);
          flags = (if oflags AND 8 \<noteq> 0 then flags OR O_TRUNC else flags);
          flags = (if fdflags AND 1 \<noteq> 0 then flags OR O_APPEND else flags);
          flags = (if fdflags AND 4 \<noteq> 0 then flags OR O_NONBLOCK else flags);
          flags = (if rights AND (rightFDFilestatSetTimes OR rightPathFilestatSetTimes) \<noteq> 0 then flags OR 0 else flags);
          flags = (if oflags AND 2 \<noteq> 0 \<or> trailingSlash then flags OR O_DIRECTORY else flags);
          flags = (if lookup AND 1 = 0 \<and> \<not> trailingSlash then flags OR O_NOFOLLOW else flags)
      in flags)"

text \<open>The first open, and the retry without write access for a directory requested with file-only rights.\<close>

definition openForGuest :: "'w host \<Rightarrow> fdEntry \<Rightarrow> string \<Rightarrow> u64 \<Rightarrow> u64 \<Rightarrow> u16 \<Rightarrow> ('w st, u64 + fileid) state" where
  "openForGuest H d name flags rights oflags = do {
     f \<leftarrow> openAt H d name flags 0x1b6;
     case f of Inr file \<Rightarrow> ret (Inr file) | Inl code \<Rightarrow>
       if wantsHostWrite rights oflags \<and> \<not> rights AND rightFDWrite \<noteq> 0 \<and> oflags AND (1 OR 4 OR 8) = 0 then do {
         c \<leftarrow> openAt H d name (flags AND NOT (O_WRONLY OR O_RDWR OR O_APPEND)) 0;
         case c of Inl retryCode \<Rightarrow> ret (Inl code) | Inr candidate \<Rightarrow> do {
           st \<leftarrow> hostStat H candidate;
           if (case st of Inl err \<Rightarrow> False | Inr info \<Rightarrow> isDir info) then ret (Inr candidate)
           else do { hostClose H candidate; ret (Inl code) } } }
       else ret (Inl code) }"

text \<open>The checks on the opened file, and the rights it keeps.\<close>

definition openedRights :: "goerr + finfo \<Rightarrow> u64 \<Rightarrow> u16 \<Rightarrow> u64 + u64" where
  "openedRights st rights oflags = (case st of
      Inl err \<Rightarrow> Inl (errno (Some err))
    | Inr info \<Rightarrow>
        if oflags AND 2 \<noteq> 0 \<and> \<not> isDir info then Inl wasiENotdir
        else if isDir info \<and> rights AND rightFDWrite \<noteq> 0 then Inl wasiEIsdir
        else Inr (if isDir info then rights AND directoryRights else rights))"

definition pathOpenCheck :: "fsState \<Rightarrow> bytes \<Rightarrow> fdEntry \<Rightarrow> u64 list \<Rightarrow> u64" where
  "pathOpenCheck fs mem d p =
     (let oflags = (ucast (p ! 4) :: u16); rights = p ! 5; inheriting = p ! 6; fdflags = (ucast (p ! 7) :: u16) in
      if require d rightPathOpen \<noteq> 0 then require d rightPathOpen
      else if p ! 1 AND NOT 1 \<noteq> 0 \<or> p ! 4 AND NOT 15 \<noteq> 0 \<or> p ! 7 AND NOT 31 \<noteq> 0 then wasiEInval
      else if fdflags AND 0x1a \<noteq> 0 then wasiENotsup
      else if rights AND NOT (e_inheriting d) \<noteq> 0 \<or> inheriting AND NOT (e_inheriting d) \<noteq> 0 then wasiENotcapable
      else if oflags AND 1 \<noteq> 0 \<and> require d rightPathCreateFile \<noteq> 0 then require d rightPathCreateFile
      else if oflags AND 8 \<noteq> 0 \<and> require d rightPathFilestatSetSize \<noteq> 0 then require d rightPathFilestatSetSize
      else if \<not> validMemoryRange mem (arg32 p 8) 4 then wasiEFault
      else if of_nat (length (fs_fds fs)) \<ge> fs_maxFDs fs then wasiEMfile
      else wasiOK)"

text \<open>The end of the handler: the new descriptor, or the file closed again.\<close>

definition installFile :: "'w host \<Rightarrow> fdEntry \<Rightarrow> fileid \<Rightarrow> u16 \<Rightarrow> u64 \<Rightarrow> u64 \<Rightarrow> u32 \<Rightarrow> ('w st, u64) state" where
  "installFile H d file fdflags granted inheriting resultPtr = do {
     let entry = nilEntry\<lparr>e_file := Some file, e_mount := e_mount d, e_root := e_root d,
       e_flags := fdflags, e_rights := granted, e_inheriting := inheriting\<rparr>;
     a \<leftarrow> alloc entry;
     case a of
       Inl allocCode \<Rightarrow> do { hostClose H file; ret allocCode }
     | Inr fd \<Rightarrow> do {
         ok \<leftarrow> putLe32 resultPtr fd;
         if \<not> ok then do { hostClose H file; deleteEntry fd; ret wasiEFault }
         else ret wasiOK } }"

definition pathOpen :: "'w host \<Rightarrow> config \<Rightarrow> u64 list \<Rightarrow> ('w st, u64) state" where
  "pathOpen H cfg p = do {
     (name, code) \<leftarrow> guestBytes (arg32 p 2) (arg32 p 3);
     let trailingSlash = hasSuffix name ''/'';
     rs \<leftarrow> resolve H (arg32 p 0) name;
     mem \<leftarrow> gets s_mem;
     fs \<leftarrow> gets s_fs;
     if code \<noteq> 0 then ret code
     else (case rs of Inl pathCode \<Rightarrow> ret pathCode | Inr (d, name) \<Rightarrow> do {
       let oflags = (ucast (p ! 4) :: u16); let rights = p ! 5; let inheriting = p ! 6;
       let fdflags = (ucast (p ! 7) :: u16);
       if pathOpenCheck fs mem d p \<noteq> 0 then ret (pathOpenCheck fs mem d p)
       else do {
         f \<leftarrow> openForGuest H d name (openFlags rights oflags fdflags (ucast (p ! 1)) trailingSlash) rights oflags;
         case f of Inl openCode \<Rightarrow> ret openCode | Inr file \<Rightarrow> do {
           st \<leftarrow> hostStat H file;
           case openedRights st rights oflags of
             Inl statCode \<Rightarrow> do { hostClose H file; ret statCode }
           | Inr granted \<Rightarrow> installFile H d file fdflags granted inheriting (arg32 p 8) } } }) }"

section \<open>Safety\<close>

lemma subset_bit: "a AND NOT b = 0 \<Longrightarrow> (a :: u64) AND r \<noteq> 0 \<Longrightarrow> b AND r \<noteq> 0"
  by (auto simp: bit_eq_iff bit_simps)

lemma any_mono: "(m :: u64) AND r \<noteq> 0 \<Longrightarrow> r AND NOT r' = 0 \<Longrightarrow> m AND r' \<noteq> 0"
  using subset_bit [of r r' m] by (simp add: and.commute)

text \<open>The rights that justify opening a file for writing.\<close>

abbreviation (input) writeMask :: u64 where
  "writeMask \<equiv> rightFDWrite OR rightFDAllocate OR rightFDFilestatSetSize OR rightPathFilestatSetSize"

lemma wantsHostWrite_any:
  assumes within: "rights AND NOT m = 0" and trunc: "oflags AND 8 \<noteq> 0 \<Longrightarrow> m AND rightPathFilestatSetSize = rightPathFilestatSetSize"
    and wants: "wantsHostWrite rights oflags"
  shows "m AND writeMask \<noteq> 0"
proof -
  have byRight: "m AND writeMask \<noteq> 0" if "rights AND r \<noteq> 0" "r AND NOT writeMask = 0" for r
    using any_mono [OF subset_bit [OF within that(1)] that(2)] .
  have byTrunc: "m AND writeMask \<noteq> 0" if "oflags AND 8 \<noteq> 0"
  proof -
    have "m AND rightPathFilestatSetSize \<noteq> 0" using trunc [OF that] by simp
    then show ?thesis by (rule any_mono) simp
  qed
  from wants consider "rights AND rightFDWrite \<noteq> 0" | "rights AND (rightFDAllocate OR rightFDFilestatSetSize) \<noteq> 0"
    | "oflags AND 8 \<noteq> 0" unfolding wantsHostWrite_def by blast
  then show ?thesis
  proof cases
    case 1
    then show ?thesis by (rule byRight) simp
  next
    case 2
    then show ?thesis by (rule byRight) simp
  next
    case 3
    then show ?thesis by (rule byTrunc)
  qed
qed

lemma openFlags_bits:
  "openFlags rights oflags fdflags lookup tr AND O_CREAT \<noteq> 0 \<Longrightarrow> oflags AND 1 \<noteq> 0"
  "openFlags rights oflags fdflags lookup tr AND O_TRUNC \<noteq> 0 \<Longrightarrow> oflags AND 8 \<noteq> 0"
  "openFlags rights oflags fdflags lookup tr AND O_ACCMODE \<noteq> 0 \<Longrightarrow> wantsHostWrite rights oflags"
  by (auto simp: openFlags_def Let_def bit.conj_disj_distrib2 split: if_splits)

lemma openFlags_ok:
  assumes d: "entryOk M d" "e_file d = Some g"
    and inh: "rights AND NOT (e_inheriting d) = 0"
    and opens: "e_rights d AND rightPathOpen = rightPathOpen"
    and creat: "oflags AND 1 \<noteq> 0 \<Longrightarrow> e_rights d AND rightPathCreateFile = rightPathCreateFile"
    and trunc: "oflags AND 8 \<noteq> 0 \<Longrightarrow> e_rights d AND rightPathFilestatSetSize = rightPathFilestatSetSize"
  shows "openFlagsOk M g (openFlags rights oflags fdflags lookup tr)"
proof -
  note has = entryOk_hasRight [OF d]
  have within: "rights AND NOT (a_rights M (fst g)) = 0"
    using word_and_subset_trans [OF inh] d by (simp add: entryOk_def entryRoot_def)
  have any: "hasAny M g writeMask" if "wantsHostWrite rights oflags"
    unfolding hasAny_def
    using has [OF trunc] by (intro wantsHostWrite_any [OF within _ that]) (simp add: hasRight_def)
  show ?thesis
    unfolding openFlagsOk_def
    by (intro conjI impI has opens creat trunc any) (erule openFlags_bits)+
qed

lemma pathOpenCheck_ok:
  assumes "pathOpenCheck fs mem d p = 0"
  shows "(p ! 5) AND NOT (e_inheriting d) = 0" "(p ! 6) AND NOT (e_inheriting d) = 0"
    "(ucast (p ! 4) :: u16) AND 1 \<noteq> 0 \<Longrightarrow> e_rights d AND rightPathCreateFile = rightPathCreateFile"
    "(ucast (p ! 4) :: u16) AND 8 \<noteq> 0 \<Longrightarrow> e_rights d AND rightPathFilestatSetSize = rightPathFilestatSetSize"
    "validMemoryRange mem (arg32 p 8) 4" "e_rights d AND rightPathOpen = rightPathOpen" "\<not> fs_maxFDs fs \<le> of_nat (length (fs_fds fs))"
  using assms by (auto simp: pathOpenCheck_def Let_def split: if_splits)

lemma openFlagsOk_retry: "openFlagsOk M f flags \<Longrightarrow> openFlagsOk M f (flags AND NOT (O_WRONLY OR O_RDWR OR O_APPEND))"
proof -
  assume a: "openFlagsOk M f flags"
  have "(flags AND NOT (O_WRONLY OR O_RDWR OR O_APPEND)) AND O_CREAT = flags AND O_CREAT"
    "(flags AND NOT (O_WRONLY OR O_RDWR OR O_APPEND)) AND O_TRUNC = flags AND O_TRUNC"
    "(flags AND NOT (O_WRONLY OR O_RDWR OR O_APPEND)) AND O_ACCMODE = 0"
    by (simp_all add: and.assoc)
  with a show ?thesis by (simp add: openFlagsOk_def)
qed

lemma opens_openForGuest [vcg]:
  "e_file d \<noteq> None \<Longrightarrow> openFlagsOk M (the (e_file d)) flags \<Longrightarrow>
     opens N M L fs (rootOf d) (openForGuest H d name flags rights oflags)"
  unfolding openForGuest_def
  by (rule vcg openFlagsOk_retry | simp; fail | (auto; fail) )+

lemma openedRights_narrow: "openedRights st rights oflags = Inr g \<Longrightarrow> g AND NOT rights = 0"
  by (auto simp: openedRights_def bit_eq_iff bit_simps split: sum.splits if_splits)

lemma openedRights_error: "openedRights st rights oflags = Inl c \<Longrightarrow> c \<noteq> wasiOK"
  by (auto simp: openedRights_def split: sum.splits if_splits)

text \<open>The entry that \<open>pathOpen\<close> adds stays within the authority of the directory's root.\<close>

lemma newEntry_ok:
  assumes "entryOk M d" and "e_file d \<noteq> None" and "fst f = rootOf d"
    and "granted AND NOT rights = 0" and "rights AND NOT (e_inheriting d) = 0"
    and "inheriting AND NOT (e_inheriting d) = 0"
  shows "entryOk M (nilEntry\<lparr>e_file := Some f, e_mount := m, e_root := r, e_flags := fl,
    e_rights := granted, e_inheriting := inheriting\<rparr>)"
proof -
  have d: "e_inheriting d AND NOT (a_rights M (rootOf d)) = 0"
    using assms(1,2) by (auto simp: entryOk_def entryRoot_def)
  have "granted AND NOT (a_rights M (rootOf d)) = 0"
    by (rule word_and_subset_trans [OF word_and_subset_trans [OF assms(4,5)] d])
  moreover have "inheriting AND NOT (a_rights M (rootOf d)) = 0"
    by (rule word_and_subset_trans [OF assms(6) d])
  ultimately show ?thesis
    using assms(3) by (simp add: entryOk_def entryRoot_def nilEntry_def streamOk_def)
qed

lemma entryFiles_new [simp]: "entryFiles (nilEntry\<lparr>e_file := Some f, e_mount := m, e_root := r\<rparr>) = {f}"
  by (simp add: entryFiles_def nilEntry_def)

lemma owned_delete_fresh:
  assumes "tableOk M fs" and "map_of (fs_fds fs) fd = None"
  shows "owned ((allocFS fs fd e)\<lparr>fs_fds := AList.delete fd (fs_fds (allocFS fs fd e))\<rparr>) = owned fs"
    and "tableOk M ((allocFS fs fd e)\<lparr>fs_fds := AList.delete fd (fs_fds (allocFS fs fd e))\<rparr>)"
  using assms
  by (auto simp: allocFS_def owned_def tableOk_def AList.delete_update_same map_of_eq_None_iff)

text \<open>Case distinctions on a result that the open files or the table depend on.\<close>

lemma triple_case_live:
  "(\<And>e. x = Inl e \<Longrightarrow> triple (St N M (L1 e) fs) (f e) Q R) \<Longrightarrow>
   (\<And>a. x = Inr a \<Longrightarrow> triple (St N M (L2 a) fs) (g a) Q R) \<Longrightarrow>
     triple (St N M (case x of Inl e \<Rightarrow> L1 e | Inr a \<Rightarrow> L2 a) fs) (case x of Inl e \<Rightarrow> f e | Inr a \<Rightarrow> g a) Q R"
  by (cases x) auto

lemma triple_case_table:
  "(\<And>e. x = Inl e \<Longrightarrow> triple (St N M L (fs1 e)) (f e) Q R) \<Longrightarrow>
   (\<And>a. x = Inr a \<Longrightarrow> triple (St N M L (fs2 a)) (g a) Q R) \<Longrightarrow>
     triple (St N M L (case x of Inl e \<Rightarrow> fs1 e | Inr a \<Rightarrow> fs2 a)) (case x of Inl e \<Rightarrow> f e | Inr a \<Rightarrow> g a) Q R"
  by (cases x) auto

lemma inv_installFile:
  assumes "N \<le> 4294967296" and "tableOk M fs" and "L \<subseteq> insert f (owned fs \<union> F)"
    and "entryOk M d" and "e_file d \<noteq> None" and "fst f = rootOf d"
    and "granted AND NOT rights = 0" and "rights AND NOT (e_inheriting d) = 0"
    and "inheriting AND NOT (e_inheriting d) = 0"
  shows "triple (St N M L fs) (installFile H d f fdflags granted inheriting ptr) (\<lambda>_. Inv N M F) (\<lambda>_. True)"
proof -
  have closed: "L - {f} \<subseteq> owned fs \<union> F" using assms(3) by auto
  note new = newEntry_ok [OF assms(4-9)]
  have ok: "tableOk M (allocFS fs fd e)" "L \<subseteq> owned (allocFS fs fd e) \<union> F"
    "L - {f} \<subseteq> owned (allocFS fs fd e\<lparr>fs_fds := AList.delete fd (fs_fds (allocFS fs fd e))\<rparr>) \<union> F"
    "tableOk M (allocFS fs fd e\<lparr>fs_fds := AList.delete fd (fs_fds (allocFS fs fd e))\<rparr>)"
    if "case Inr fd of Inl c \<Rightarrow> c \<noteq> wasiOK
       | Inr fd \<Rightarrow> map_of (fs_fds fs) fd = None \<and> length (fs_fds fs) < unat (fs_maxFDs fs)"
      "e = nilEntry\<lparr>e_file := Some f, e_mount := e_mount d, e_root := e_root d,
         e_flags := fdflags, e_rights := granted, e_inheriting := inheriting\<rparr>" for fd e
    using that new closed assms(3)
    by (auto simp: tableOk_alloc [OF assms(2)] owned_alloc [OF assms(2)] owned_delete_fresh [OF assms(2)])
  show ?thesis
    unfolding installFile_def
    by (rule triple_case_table vcg assms closed | hypsubst, erule ok | simp add: assms; fail)+
qed

lemma inv_pathOpen:
  assumes "N \<le> 4294967296" and "tableOk M fs" and "L \<subseteq> owned fs \<union> F"
  shows "triple (St N M L fs) (pathOpen H cfg p) (\<lambda>_. Inv N M F) (\<lambda>_. True)"
proof -
  have flags: "openFlagsOk M (the (e_file d)) (openFlags (p ! 5) (ucast (p ! 4)) fl lk tr)"
    if "map_of (fs_fds fs) fd = Some d" "e_file d \<noteq> None" "pathOpenCheck fs mem d p = 0" for fd d fl lk tr mem
    using openFlags_ok [OF tableOk_entry [OF assms(2) that(1)] _ pathOpenCheck_ok(1,6,3,4) [OF that(3)]] that(2)
    by auto
  have inst: "triple (St n M (insert f L) fs) (installFile H d f fl g (p ! 6) ptr) (\<lambda>_. Inv n M F) (\<lambda>_. True)"
    if "N = n" "map_of (fs_fds fs) fd = Some d" "e_file d \<noteq> None" "pathOpenCheck fs mem d p = 0"
      "openedRights st (p ! 5) oflags = Inr g" "fst f = rootOf d" for n fd d mem st oflags g f fl ptr
    using that assms pathOpenCheck_ok(1,2) [OF that(4)] openedRights_narrow [OF that(5)]
      tableOk_entry [OF assms(2) that(2)]
    by (intro inv_installFile) auto
  have closed: "insert f L - {f} \<subseteq> owned fs \<union> F" for f using assms(3) by auto
  show ?thesis
    unfolding pathOpen_def
    by (rule triple_case_live vcg assms closed | simp add: assms; fail | hypsubst, rule flags inst; (auto; fail)?)+
qed

end
