(* ===== verification/Readdir.thy ===== *)
theory Readdir
  imports Path_Open
begin

text \<open>
  \<^verbatim>\<open>fd_readdir\<close> of \<^verbatim>\<open>fs.go\<close>: positioning of the directory iterator at a cookie, and the loop that
  copies directory entry records into the guest buffer until the buffer is full or the directory ends.
  The directory iterator, its cookie and the highest issued cookie are fields of the descriptor entry;
  the model writes the entry back whenever the code assigns one of them through its pointer.
\<close>

section \<open>Definitions\<close>

definition directoryEntryInfo :: "'w host \<Rightarrow> fdEntry \<Rightarrow> dirent \<Rightarrow> ('w st, u64 + finfo) state" where
  "directoryEntryInfo H parent de = do {
     o' \<leftarrow> openMetadataAt H parent (de_name de) False;
     case o' of Inl code \<Rightarrow> ret (Inl code) | Inr f \<Rightarrow> do {
       st \<leftarrow> hostStat H f;
       hostClose H f;
       ret (case st of Inl err \<Rightarrow> Inl (errno (Some err)) | Inr info \<Rightarrow> Inr info) } }"

text \<open>\<^verbatim>\<open>f.dirIter.ReadDir(n)\<close>; a nil file answers with an error.\<close>

definition iterReadDir :: "'w host \<Rightarrow> fileid option \<Rightarrow> nat \<Rightarrow> ('w st, dirent list \<times> goerr option) state" where
  "iterReadDir H it n = (case it of None \<Rightarrow> ret ([], Some (OtherError ''invalid argument'')) | Some d \<Rightarrow> hostReadDir H d n)"

text \<open>The loop ends because every round either stops or lowers the number of entries to skip.\<close>

lemma state_bind_cong_run:
  assumes "m = m'" and "\<And>a s t. run_state m' s = (a, t) \<Longrightarrow> f a = f' a"
  shows "State_Monad.bind m f = State_Monad.bind m' f'"
  using assms by (auto simp: State_Monad.bind_def fun_eq_iff split: prod.splits)

declare state_bind_cong [fundef_cong del] state_bind_cong_run [fundef_cong]

lemma iterReadDir_length: "run_state (iterReadDir H it n) s = ((es, e), t) \<Longrightarrow> length es \<le> n"
  by (auto simp: iterReadDir_def hostReadDir_def hostCall_def State_Monad.bind_def split: option.splits prod.splits)

function skipDirectoryEntries :: "'w host \<Rightarrow> u32 \<Rightarrow> fdEntry \<Rightarrow> u64 \<Rightarrow> ('w st, u64 \<times> fdEntry) state" where
  "skipDirectoryEntries H fd f remaining = (if \<not> remaining > 0 then ret (wasiOK, f) else do {
     (entries, err) \<leftarrow> iterReadDir H (e_dirIter f) (unat (min remaining 1024));
     let f' = f\<lparr>e_dirCookie := e_dirCookie f + of_nat (length entries)\<rparr>;
     putEntry fd f';
     case err of
       Some e \<Rightarrow> ret (if errorsIs e EOF then wasiOK else errno (Some e), f')
     | None \<Rightarrow>
         if entries = [] then ret (wasiOK, f')
         else skipDirectoryEntries H fd f' (remaining - of_nat (length entries)) })"
  by pat_completeness auto

lemma skip_decreases:
  fixes r :: u64
  assumes "n \<le> unat (min r 1024)" and "0 < n"
  shows "unat (r - of_nat n) = unat r - n" "unat r - n < unat r"
proof -
  have n: "n \<le> unat r" "n \<le> 1024" using assms(1) by (auto simp: min_def word_le_nat_alt split: if_splits)
  then have "unat (of_nat n :: u64) = n" by (simp add: unat_of_nat)
  with n show "unat (r - of_nat n) = unat r - n" by (simp add: unat_sub_if_size)
  show "unat r - n < unat r" using n assms(2) by simp
qed

termination skipDirectoryEntries
  by (relation "measure (\<lambda>(H, fd, f, remaining). unat remaining)")
    (auto simp: skip_decreases dest!: iterReadDir_length)

declare skipDirectoryEntries.simps [simp del]

definition positionDirectory :: "'w host \<Rightarrow> u32 \<Rightarrow> fdEntry \<Rightarrow> u64 \<Rightarrow> ('w st, u64 \<times> fdEntry) state" where
  "positionDirectory H fd f cookie =
     (if cookie \<noteq> 0 \<and> cookie > e_dirIssued f then ret (wasiENoent, f)
      else if e_dirIter f \<noteq> None \<and> e_dirCookie f = cookie then ret (wasiOK, f)
      else do {
        closeOpt H (e_dirIter f);
        dir \<leftarrow> openAt H f ''.'' O_DIRECTORY 0;
        case dir of Inl code \<Rightarrow> ret (code, f) | Inr d \<Rightarrow> do {
          let f' = f\<lparr>e_dirIter := Some d, e_dirCookie := 2\<rparr>;
          putEntry fd f';
          skipDirectoryEntries H fd f' (if cookie > 2 then cookie - 2 else 0) } })"

text \<open>The entry with number \<open>i\<close>: the descriptor's own directory for \<^verbatim>\<open>.\<close> and \<^verbatim>\<open>..\<close>, then the iterator.
  The result is the code the loop stops with (0 at the end of the directory) or the name and its
  attributes.\<close>

definition readdirEntry :: "'w host \<Rightarrow> u32 \<Rightarrow> fdEntry \<Rightarrow> u64 \<Rightarrow> ('w st, fdEntry \<times> (u64 + string \<times> finfo)) state" where
  "readdirEntry H fd f i =
     (if i = 0 \<or> i = 1 then do {
        st \<leftarrow> hostStat H (the (e_file f));
        ret (f, case st of Inl err \<Rightarrow> Inl (errno (Some err)) | Inr info \<Rightarrow> Inr (if i = 0 then ''.'' else ''..'', info)) }
      else do {
        (entries, readErr) \<leftarrow> iterReadDir H (e_dirIter f) 1;
        case readErr of
          Some e \<Rightarrow> ret (f, Inl (if errorsIs e EOF then wasiOK else errno (Some e)))
        | None \<Rightarrow> (case entries of
            [] \<Rightarrow> ret (f, Inl wasiOK)
          | de # _ \<Rightarrow> do {
              let f' = f\<lparr>e_dirCookie := i + 1\<rparr>;
              putEntry fd f';
              r \<leftarrow> directoryEntryInfo H f' de;
              ret (f', case r of Inl code \<Rightarrow> Inl code | Inr info \<Rightarrow> Inr (de_name de, info)) }) })"

definition direntRecord :: "u64 \<Rightarrow> string \<Rightarrow> finfo \<Rightarrow> bytes" where
  "direntRecord i name info = le_bytes 8 (i + 1) @ le_bytes 8 (hostInode info) @
     le_bytes 4 (of_nat (length name) :: u32) @ [filetype info, 0, 0, 0] @ string_bytes name"

function readdirLoop :: "'w host \<Rightarrow> u32 \<Rightarrow> u32 \<Rightarrow> u32 \<Rightarrow> fdEntry \<Rightarrow> u64 \<Rightarrow> u32 \<Rightarrow> ('w st, u64 \<times> u32) state" where
  "readdirLoop H fd buf bufLen f i used = do {
     x \<leftarrow> readdirEntry H fd f i;
     case x of (f', en) \<Rightarrow> (case en of
       Inl code \<Rightarrow> ret (code, used)
     | Inr (name, info) \<Rightarrow> do {
         let rec = direntRecord i name info;
         let remaining = unat (bufLen - used);
         if remaining \<le> 0 then ret (wasiOK, used)
         else do {
           let n = (if length rec > remaining then remaining else length rec);
           memStore (unat (buf + used)) (take n rec);
           let f'' = (if n \<ge> 24 \<and> i + 1 > e_dirIssued f' then f'\<lparr>e_dirIssued := i + 1\<rparr> else f');
           putEntry fd f'';
           if n < length rec then ret (wasiOK, used + of_nat n)
           else readdirLoop H fd buf bufLen f'' (i + 1) (used + of_nat n) } }) }"
  by pat_completeness auto

lemma length_direntRecord [simp]: "length (direntRecord i name info) = 24 + length name"
  by (simp add: direntRecord_def string_bytes_def)

lemma used_decreases:
  fixes len used :: u32
  assumes "n \<le> unat (len - used)"
  shows "unat (len - (used + of_nat n)) = unat (len - used) - n"
proof -
  have "n < 4294967296" using assms unat_u32_bound [of "len - used"] by linarith
  then have "unat (of_nat n :: u32) = n" by (simp add: unat_of_nat)
  with assms have "unat ((len - used) - of_nat n) = unat (len - used) - n" by (simp add: unat_sub_if_size)
  then show ?thesis by (simp add: algebra_simps)
qed

termination readdirLoop
  by (relation "measure (\<lambda>(H, fd, buf, bufLen, f, i, used). unat (bufLen - used))")
    (auto simp: used_decreases not_less split: if_splits)

declare readdirLoop.simps [simp del]

definition fdReaddir :: "'w host \<Rightarrow> config \<Rightarrow> u64 list \<Rightarrow> ('w st, u64) state" where
  "fdReaddir H cfg p = do {
     let fd = arg32 p 0;
     fe \<leftarrow> entryRight fd rightFDReadDir;
     mem \<leftarrow> gets s_mem;
     case fe of Inl code \<Rightarrow> ret code | Inr f \<Rightarrow> do {
       let cookie = p ! 3; let buf = arg32 p 1; let bufLen = arg32 p 2;
       if e_file f = None then ret wasiEBadf
       else if (ucast buf :: u64) + ucast bufLen > of_nat (length mem) then ret wasiEFault
       else if \<not> validMemoryRange mem (arg32 p 4) 4 then ret wasiEFault
       else do {
         (code, f') \<leftarrow> positionDirectory H fd f cookie;
         if code \<noteq> 0 then ret code
         else do {
           (code, used) \<leftarrow> readdirLoop H fd buf bufLen f' cookie 0;
           if code \<noteq> 0 then ret code
           else do {
             ok \<leftarrow> putLe32 (arg32 p 4) used;
             ret (if \<not> ok then wasiEFault else wasiOK) } } } } }"

section \<open>Safety\<close>

text \<open>The invariant together with the entry that a descriptor has.\<close>

definition InvAt :: "nat \<Rightarrow> authority \<Rightarrow> fileid set \<Rightarrow> u32 \<Rightarrow> fdEntry \<Rightarrow> 'w st \<Rightarrow> bool" where
  "InvAt N M F fd f s \<longleftrightarrow> (\<exists>L fs. St N M L fs s \<and> tableOk M fs \<and> L \<subseteq> owned fs \<union> F \<and> map_of (fs_fds fs) fd = Some f)"

lemma InvAt_Inv: "InvAt N M F fd f s \<Longrightarrow> Inv N M F s"
  by (auto simp: InvAt_def Inv_def)

lemma invAt_intro:
  "(\<And>L fs. tableOk M fs \<Longrightarrow> L \<subseteq> owned fs \<union> F \<Longrightarrow> map_of (fs_fds fs) fd = Some f \<Longrightarrow> entryOk M f \<Longrightarrow>
     triple (St N M L fs) m Q R) \<Longrightarrow> triple (InvAt N M F fd f) m Q R"
  by (auto simp: triple_def InvAt_def intro: tableOk_entry)

lemma invAt_return [vcg]: "R a \<Longrightarrow> f = f' a \<Longrightarrow> triple (InvAt N M F fd f) (ret a) (\<lambda>r. InvAt N M F fd (f' r)) R"
  by (simp add: triple_def wp_simps)

lemma invAt_return_Inv [vcg]: "R a \<Longrightarrow> triple (InvAt N M F fd f) (ret a) (\<lambda>_. Inv N M F) R"
  by (auto simp: triple_def wp_simps intro: InvAt_Inv)

text \<open>Operations that leave the table and the open files alone.\<close>

lemma invAt_safe:
  assumes "\<And>L fs. tableOk M fs \<Longrightarrow> entryOk M f \<Longrightarrow> safe N M L fs m R"
  shows "triple (InvAt N M F fd f) m (\<lambda>_. InvAt N M F fd f) R"
proof (rule invAt_intro)
  fix L fs assume a: "tableOk M fs" "L \<subseteq> owned fs \<union> F" "map_of (fs_fds fs) fd = Some f" "entryOk M f"
  show "triple (St N M L fs) m (\<lambda>_. InvAt N M F fd f) R"
    by (rule triple_weaken [OF assms [OF a(1,4)]]) (use a in \<open>auto simp: InvAt_def\<close>)
qed

lemma invAt_putEntry [vcg]:
  assumes "entryFiles f' = entryFiles f" and "entryOk M f \<Longrightarrow> entryOk M f'"
  shows "triple (InvAt N M F fd f) (putEntry fd f') (\<lambda>_. InvAt N M F fd f') (\<lambda>_. True)"
proof (rule invAt_intro)
  fix L fs assume a: "tableOk M fs" "L \<subseteq> owned fs \<union> F" "map_of (fs_fds fs) fd = Some f" "entryOk M f"
  then have "map_of (fs_fds fs) fd \<noteq> None" by simp
  from triple_putEntry [OF this, of N M L f'] show "triple (St N M L fs) (putEntry fd f') (\<lambda>_. InvAt N M F fd f') (\<lambda>_. True)"
    by (rule triple_weaken) (use a assms in \<open>auto simp: InvAt_def tableOk_update owned_update_same intro!: exI\<close>)
qed

lemma entryOk_dirFields [simp]:
  "entryOk M (f\<lparr>e_dirCookie := c\<rparr>) = entryOk M f" "entryOk M (f\<lparr>e_dirIssued := c\<rparr>) = entryOk M f"
  by (simp_all add: entryOk_def)

lemma safe_directoryEntryInfo [vcg]:
  "e_file f \<noteq> None \<Longrightarrow> safe N M L fs (directoryEntryInfo H f de) (\<lambda>r. \<forall>c. r = Inl c \<longrightarrow> c \<noteq> wasiOK)"
  unfolding directoryEntryInfo_def
  by (rule triple_case_live vcg | simp; fail | (auto split: sum.splits; fail))+

text \<open>A directory descriptor: it has a file and the right to list it.\<close>

definition dirEntry :: "fdEntry \<Rightarrow> bool" where
  "dirEntry f \<longleftrightarrow> e_file f \<noteq> None \<and> e_rights f AND rightFDReadDir = rightFDReadDir"

lemma dirEntry_update [simp]:
  "dirEntry (f\<lparr>e_dirCookie := c\<rparr>) = dirEntry f" "dirEntry (f\<lparr>e_dirIssued := c\<rparr>) = dirEntry f"
  "dirEntry (f\<lparr>e_dirIter := d\<rparr>) = dirEntry f" "dirEntry (f\<lparr>e_dirIter := d, e_dirCookie := c\<rparr>) = dirEntry f"
  by (simp_all add: dirEntry_def)

lemma safe_iterReadDir:
  assumes "entryOk M f" and "dirEntry f"
  shows "safe N M L fs (iterReadDir H (e_dirIter f) n) (\<lambda>r. length (fst r) \<le> n)"
proof -
  have "hasRight M d rightFDReadDir" if "e_dirIter f = Some d" for d
    using assms that by (auto simp: entryOk_def dirEntry_def entryRoot_def hasRight_def dest: right_within)
  then show ?thesis
    unfolding iterReadDir_def by - (rule vcg | simp; fail )+
qed

lemma invAt_iterReadDir [vcg]:
  "dirEntry f \<Longrightarrow> triple (InvAt N M F fd f) (iterReadDir H (e_dirIter f) n) (\<lambda>_. InvAt N M F fd f)
     (\<lambda>r. length (fst r) \<le> n)"
  by (rule invAt_safe) (rule safe_iterReadDir)

lemma invAt_skip [vcg]:
  "dirEntry f \<Longrightarrow> triple (InvAt N M F fd f) (skipDirectoryEntries H fd f remaining)
     (\<lambda>r. InvAt N M F fd (snd r)) (\<lambda>r. dirEntry (snd r))"
proof (induction "unat remaining" arbitrary: f remaining rule: less_induct)
  case less
  have IH: "triple (InvAt N M F fd f') (skipDirectoryEntries H fd f' (remaining - of_nat (length (es :: dirent list))))
      (\<lambda>r. InvAt N M F fd (snd r)) (\<lambda>r. dirEntry (snd r))"
    if "length (fst (es, err)) \<le> unat (min remaining 1024)" "es \<noteq> []" "dirEntry f'" for es f' and err :: "goerr option"
    using that by (intro less.hyps) (auto simp: skip_decreases)
  show ?case
    by (subst skipDirectoryEntries.simps)
      (rule vcg less.prems | simp add: less.prems; fail | hypsubst, erule IH, assumption, simp add: less.prems; fail)+
qed

lemma triple_InvAt:
  "triple (InvAt N M F fd f) m Q R \<Longrightarrow> tableOk M fs \<Longrightarrow> L \<subseteq> owned fs \<union> F \<Longrightarrow> map_of (fs_fds fs) fd = Some f \<Longrightarrow>
     triple (St N M L fs) m Q R"
  by (auto simp: triple_def InvAt_def)

lemma InvAt_newIter:
  assumes "tableOk M fs" and "L \<subseteq> owned fs \<union> F" and "map_of (fs_fds fs) fd = Some f"
    and "f' = f\<lparr>e_dirIter := Some d, e_dirCookie := c\<rparr>" and "fst d = entryRoot f"
  shows "tableOk M (fs\<lparr>fs_fds := AList.update fd f' (fs_fds fs)\<rparr>)"
    "insert d (L - set_option (e_dirIter f)) \<subseteq> owned (fs\<lparr>fs_fds := AList.update fd f' (fs_fds fs)\<rparr>) \<union> F"
proof -
  have "entryOk M f'" using assms(4,5) tableOk_entry [OF assms(1,3)] by (auto simp: entryOk_def entryRoot_def)
  then show "tableOk M (fs\<lparr>fs_fds := AList.update fd f' (fs_fds fs)\<rparr>)" by (rule tableOk_update [OF assms(1,3)])
  show "insert d (L - set_option (e_dirIter f)) \<subseteq> owned (fs\<lparr>fs_fds := AList.update fd f' (fs_fds fs)\<rparr>) \<union> F"
    using assms(2,4) by (auto simp: owned_update [OF assms(1)] owned_split [OF assms(1,3)] entryFiles_def)
qed

lemma triple_positionDirectory:
  assumes "tableOk M fs" and "L \<subseteq> owned fs \<union> F" and "map_of (fs_fds fs) fd = Some f" and "dirEntry f"
  shows "triple (St N M L fs) (positionDirectory H fd f cookie)
     (\<lambda>r. InvAt N M F fd (snd r)) (\<lambda>r. dirEntry (snd r))"
proof -
  have hasFile: "e_file f \<noteq> None" using assms(4) by (simp add: dirEntry_def)
  have closed: "L - set_option (e_dirIter f) \<subseteq> owned fs \<union> F" using assms(2) by auto
  have stay: "triple (St N M L' fs) (ret (c, f)) (\<lambda>r. InvAt N M F fd (snd r)) (\<lambda>r. dirEntry (snd r))"
    if "L' \<subseteq> owned fs \<union> F" for L' c
    using that assms by (auto simp: triple_def wp_simps InvAt_def)
  have step: "triple (St N M (insert d (L - set_option (e_dirIter f))) (fs\<lparr>fs_fds := AList.update fd f' (fs_fds fs)\<rparr>))
      (skipDirectoryEntries H fd f' n) (\<lambda>r. InvAt N M F fd (snd r)) (\<lambda>r. dirEntry (snd r))"
    if "f' = f\<lparr>e_dirIter := Some d, e_dirCookie := 2\<rparr>" "case Inr d of Inl c \<Rightarrow> c \<noteq> wasiOK | Inr g \<Rightarrow> fst g = rootOf f \<and> P g"
    for d f' n P
  proof -
    have root: "fst d = entryRoot f" using that(2) hasFile by (auto simp: entryRoot_def)
    show ?thesis
      by (rule triple_InvAt [OF invAt_skip]) (use InvAt_newIter [OF assms(1-3) that(1) root] that assms in simp_all)
  qed
  show ?thesis
    unfolding positionDirectory_def
    by (rule triple_case_live stay step vcg | simp add: assms closed hasFile; fail | hypsubst, assumption)+
qed

lemmas invAt_steps [vcg] =
  invAt_safe [OF triple_hostStat] invAt_safe [OF triple_memStore] invAt_safe [OF safe_putLe32]
  invAt_safe [OF safe_directoryEntryInfo]

lemma triple_case_list [vcg]:
  "(x = [] \<Longrightarrow> triple P m Q R) \<Longrightarrow> (\<And>a as. x = a # as \<Longrightarrow> triple P (f a as) Q R) \<Longrightarrow>
     triple P (case x of [] \<Rightarrow> m | a # as \<Rightarrow> f a as) Q R"
  by (cases x) auto

lemma invAt_readdirEntry [vcg]:
  "dirEntry f \<Longrightarrow> triple (InvAt N M F fd f) (readdirEntry H fd f i)
     (\<lambda>r. InvAt N M F fd (fst r)) (\<lambda>r. dirEntry (fst r))"
  unfolding readdirEntry_def
  by (rule vcg | simp; fail | simp add: dirEntry_def; fail)+

text \<open>The loop stays inside the guest buffer.\<close>

lemma readdir_room:
  fixes buf bufLen used :: u32
  assumes "unat buf + unat bufLen \<le> N" and "N \<le> 4294967296" and "used \<le> bufLen" and "n \<le> unat (bufLen - used)"
  shows "0 < n \<Longrightarrow> unat (buf + used) + n \<le> N" "used + of_nat n \<le> bufLen" "unat (used + of_nat n) = unat used + n"
proof -
  have u: "unat used \<le> unat bufLen" "unat (bufLen - used) = unat bufLen - unat used"
    using assms(3) by (simp_all add: word_le_nat_alt unat_sub)
  show "unat (buf + used) + n \<le> N" if "0 < n"
  proof -
    have "unat buf + unat used < 4294967296" using that assms(1,2,4) u by linarith
    then have "unat (buf + used) = unat buf + unat used" by (simp add: unat_word_ariths)
    then show ?thesis using assms(1,4) u by linarith
  qed
  have "n < 4294967296" "unat used + n < 4294967296"
    using assms(4) u unat_u32_bound [of bufLen] by linarith+
  then show n: "unat (used + of_nat n) = unat used + n" by (simp add: unat_word_ariths unat_of_nat)
  show "used + of_nat n \<le> bufLen" unfolding word_le_nat_alt n using assms(4) u by linarith
qed

lemma invAt_readdirLoop [vcg]:
  assumes "unat buf + unat bufLen \<le> N" and "N \<le> 4294967296"
  shows "dirEntry f \<Longrightarrow> used \<le> bufLen \<Longrightarrow> triple (InvAt N M F fd f) (readdirLoop H fd buf bufLen f i used)
     (\<lambda>_. Inv N M F) (\<lambda>r. snd r \<le> bufLen)"
proof (induction "unat (bufLen - used)" arbitrary: f i used rule: less_induct)
  case less
  note room = readdir_room [OF assms less.prems(2)]
  have IH: "triple (InvAt N M F fd g) (readdirLoop H fd buf bufLen g (i + 1) (used + of_nat n))
     (\<lambda>_. Inv N M F) (\<lambda>r. snd r \<le> bufLen)"
    if "\<not> n < length (direntRecord i name info)" "n \<le> unat (bufLen - used)" "dirEntry g" for n name info g
    using that by (intro less.hyps) (auto simp: used_decreases room)
  show ?case
    by (subst readdirLoop.simps)
      (rule vcg less.prems | simp add: less.prems room; fail | rule IH, hypsubst, assumption, simp, simp)+
qed

lemma inv_fdReaddir:
  assumes "N \<le> 4294967296" and "tableOk M fs" and "L \<subseteq> owned fs \<union> F"
  shows "triple (St N M L fs) (fdReaddir H cfg p) (\<lambda>_. Inv N M F) (\<lambda>_. True)"
proof -
  have pos: "triple (St N M L fs) (positionDirectory H fd f cookie)
     (\<lambda>r. InvAt N M F fd (snd r)) (\<lambda>r. dirEntry (snd r))"
    if "case Inr f of Inl c \<Rightarrow> c \<noteq> wasiOK | Inr f \<Rightarrow> map_of (fs_fds fs) fd = Some f \<and> e_rights f AND rightFDReadDir = rightFDReadDir"
      "e_file f \<noteq> None" for fd f cookie
    using that assms by (intro triple_positionDirectory) (auto simp: dirEntry_def)
  have inv: "triple (Inv N M F) (putLe32 q v) (\<lambda>_. Inv N M F) (\<lambda>_. True)" for q v
    by (rule preserves_safe, rule safe_putLe32 [OF assms(1)])
  have loop: "triple (InvAt N M F fd (snd x)) (readdirLoop H fd buf bufLen f cookie 0) (\<lambda>_. Inv N M F) (\<lambda>r. snd r \<le> bufLen)"
    if "x = (code, f)" "dirEntry (snd x)" "length mem = N" "\<not> of_nat (length mem) < (ucast buf :: u64) + ucast bufLen"
    for x code f fd buf bufLen cookie and mem :: bytes
    using that assms(1) by (auto intro!: invAt_readdirLoop simp: range_simps)
  show ?thesis
    unfolding fdReaddir_def
    by (rule vcg pos inv loop triple_return | assumption | simp add: assms range_simps; fail)+
qed

end
