(* ===== verification/Poll.thy ===== *)
theory Poll
  imports Readdir
begin

text \<open>
  \<^verbatim>\<open>poll_oneoff\<close> of \<^verbatim>\<open>poll.go\<close> and the descriptor checks of \<^verbatim>\<open>poll_unix.go\<close>: decoding of the
  subscriptions, the readiness scan, the bounded wait between scans and the encoding of the events.
  Blocking is a host call: \<open>HWait\<close> stands for the select over the waiting goroutines, the context and the
  timeout of \<^verbatim>\<open>waitSubscriptions\<close>, \<open>HPause\<close> for the timer between two scans and \<open>HMonoNow\<close> for
  \<^verbatim>\<open>time.Now()\<close>, read as nanoseconds of the monotonic clock.
\<close>

section \<open>Subscriptions\<close>

record pollSubscription =
  ps_userdata :: u64
  ps_typ :: u8
  ps_entry :: "fdEntry option"
  ps_due :: u64
  ps_clock :: bool
  ps_code :: u16

definition streamObject :: "fdEntry option \<Rightarrow> u8 \<Rightarrow> stream" where
  "streamObject en typ = (case en of
      None \<Rightarrow> NilStream
    | Some f \<Rightarrow> (case e_file f of
        Some g \<Rightarrow> OsFile g
      | None \<Rightarrow> (if typ = 1 then e_reader f else e_writer f)))"

text \<open>A descriptor that was closed cannot be examined at all and reads as \<open>ErrClosed\<close>.\<close>

definition osFileError :: "'w host \<Rightarrow> fileid \<Rightarrow> ('w st, u16) state" where
  "osFileError H f = do {
     r \<leftarrow> hostCall H (HFstat f);
     ret (if asErr r = Some ErrClosed then ucast (wasiEBadf :: u64) else ucast (errno (asErr r))) }"

definition osFileReady :: "'w host \<Rightarrow> fileid \<Rightarrow> u8 \<Rightarrow> ('w st, bool) state" where
  "osFileReady H f typ = do { r \<leftarrow> hostCall H (HPollFile f typ); ret (asBool r) }"

definition streamFileError :: "'w host \<Rightarrow> fdEntry option \<Rightarrow> u8 \<Rightarrow> ('w st, u16) state" where
  "streamFileError H en typ = (case streamObject en typ of
      NilStream \<Rightarrow> ret 0
    | OsFile f \<Rightarrow> osFileError H f
    | CustomStream i pb hb \<Rightarrow> ret 0)"

definition streamReady :: "'w host \<Rightarrow> fdEntry option \<Rightarrow> u8 \<Rightarrow> ('w st, bool) state" where
  "streamReady H en typ = (case streamObject en typ of
      NilStream \<Rightarrow> ret True
    | OsFile f \<Rightarrow> do {
        st \<leftarrow> hostStat H f;
        if (case st of Inl err \<Rightarrow> False | Inr info \<Rightarrow> isRegular info) then ret True
        else osFileReady H f typ }
    | CustomStream i pb hb \<Rightarrow>
        if pb then do { r \<leftarrow> hostCall H (HStreamReady i typ); ret (asBool r) }
        else ret (typ = 2 \<and> hb))"

text \<open>The error code of a descriptor subscription, and whether it is ready.\<close>

definition subscriptionCode :: "'w host \<Rightarrow> pollSubscription \<Rightarrow> ('w st, u16) state" where
  "subscriptionCode H sub =
     (if ps_code sub = 0 then streamFileError H (ps_entry sub) (ps_typ sub) else ret (ps_code sub))"

definition subscriptionReady :: "'w host \<Rightarrow> pollSubscription \<Rightarrow> u16 \<Rightarrow> ('w st, bool) state" where
  "subscriptionReady H sub code = (if code \<noteq> 0 then ret True else streamReady H (ps_entry sub) (ps_typ sub))"

text \<open>One pass over the subscriptions: the error codes found and the indices that are ready.\<close>

fun readySubscriptions :: "'w host \<Rightarrow> u64 \<Rightarrow> nat \<Rightarrow> pollSubscription list \<Rightarrow> ('w st, pollSubscription list \<times> nat list) state" where
  "readySubscriptions H elapsed i [] = ret ([], [])"
| "readySubscriptions H elapsed i (sub # subs) =
     (if ps_clock sub then do {
        (rest, ready) \<leftarrow> readySubscriptions H elapsed (Suc i) subs;
        ret (sub # rest, if elapsed \<ge> ps_due sub then i # ready else ready) }
      else do {
        code \<leftarrow> subscriptionCode H sub;
        isReady \<leftarrow> subscriptionReady H sub code;
        (rest, ready) \<leftarrow> readySubscriptions H elapsed (Suc i) subs;
        ret (sub\<lparr>ps_code := code\<rparr> # rest, if isReady then i # ready else ready) })"

section \<open>Waiting\<close>

definition saturate64 :: "int \<Rightarrow> int" where
  "saturate64 d = max (- (2 ^ 63)) (min d (2 ^ 63 - 1))"

text \<open>\<^verbatim>\<open>pollElapsed\<close>: \<open>now.Sub(measuredAt)\<close> saturates, and so does the accumulated time.\<close>

definition addElapsed :: "u64 \<Rightarrow> int \<Rightarrow> int \<Rightarrow> u64" where
  "addElapsed elapsed measuredAt now =
     (let interval = saturate64 (now - measuredAt) in
      if interval > 0 then
        (if (of_int interval :: u64) > NOT 0 - elapsed then NOT 0 else elapsed + of_int interval)
      else elapsed)"

definition timeNow :: "'w host \<Rightarrow> ('w st, int) state" where
  "timeNow H = do { r \<leftarrow> hostCall H HMonoNow; ret (case asInt r of Inl e \<Rightarrow> 0 | Inr n \<Rightarrow> sint n) }"

definition pollElapsed :: "'w host \<Rightarrow> u64 \<Rightarrow> int \<Rightarrow> ('w st, u64 \<times> int) state" where
  "pollElapsed H elapsed measuredAt = do {
     now \<leftarrow> timeNow H;
     ret (addElapsed elapsed measuredAt now, now) }"

text \<open>The objects to wait for. The result is the error for a stream without readiness.\<close>

fun pollWaiters :: "pollSubscription list \<Rightarrow> goerr + stream list" where
  "pollWaiters [] = Inr []"
| "pollWaiters (sub # subs) =
     (if ps_clock sub \<or> ps_code sub \<noteq> 0 then pollWaiters subs
      else (case streamObject (ps_entry sub) (ps_typ sub) of
          NilStream \<Rightarrow> pollWaiters subs
        | OsFile f \<Rightarrow> (case pollWaiters subs of Inl e \<Rightarrow> Inl e | Inr ws \<Rightarrow> Inr (OsFile f # ws))
        | CustomStream i pb hb \<Rightarrow>
            if pb then (case pollWaiters subs of Inl e \<Rightarrow> Inl e | Inr ws \<Rightarrow> Inr (CustomStream i pb hb # ws))
            else if ps_typ sub = 2 \<and> hb then pollWaiters subs
            else Inl ErrPollUnsupported))"

definition waitSubscriptions :: "'w host \<Rightarrow> pollSubscription list \<Rightarrow> u64 option \<Rightarrow> ('w st, goerr option) state" where
  "waitSubscriptions H subs delay = (case pollWaiters subs of
      Inl e \<Rightarrow> ret (Some e)
    | Inr ws \<Rightarrow>
        if ws = [] \<and> delay = None then ret (Some ErrPollUnsupported)
        else do {
          r \<leftarrow> hostCall H (HWait ws delay);
          ret (case asErr r of
              None \<Rightarrow> None
            | Some e \<Rightarrow> (if delay \<noteq> None \<and> errorsIs e CtxDeadlineExceeded then None else Some e)) })"

definition waitError :: "goerr \<Rightarrow> u64" where
  "waitError err =
     (if errorsIs err CtxCanceled \<or> errorsIs err CtxDeadlineExceeded then wasiEIntr
      else if errorsIs err ErrPollUnsupported then wasiENotsup
      else errno (Some err))"

definition pollDelay :: "u64 \<Rightarrow> u64 \<Rightarrow> u64" where
  "pollDelay earliest elapsed =
     (let remaining = earliest - elapsed in if remaining > maxInt64Value then maxInt64Value else remaining)"

definition pollPause :: "u64 option \<Rightarrow> u64 \<Rightarrow> u64" where
  "pollPause earliest elapsed = (case earliest of
      None \<Rightarrow> 1000000
    | Some due \<Rightarrow> (if due - elapsed < 1000000 then due - elapsed else 1000000))"

definition pauseInterrupted :: "'w host \<Rightarrow> u64 \<Rightarrow> ('w st, bool) state" where
  "pauseInterrupted H pause =
     (if pause > 0 then do { r \<leftarrow> hostCall H (HPause pause); ret (asErr r \<noteq> None) } else ret False)"

fun pollLoop :: "'w host \<Rightarrow> u64 option \<Rightarrow> pollSubscription list \<Rightarrow> u64 \<Rightarrow> int \<Rightarrow> nat list \<Rightarrow> nat \<Rightarrow>
    ('w st, u64 + pollSubscription list \<times> nat list) state" where
  "pollLoop H earliest subs elapsed measuredAt ready 0 =
     (if ready \<noteq> [] then ret (Inr (subs, ready)) else do { stuck; ret (Inl wasiEIntr) })"
| "pollLoop H earliest subs elapsed measuredAt ready (Suc k) =
     (if ready \<noteq> [] then ret (Inr (subs, ready))
      else do {
        err \<leftarrow> waitSubscriptions H subs (map_option (\<lambda>due. pollDelay due elapsed) earliest);
        case err of Some e \<Rightarrow> ret (Inl (waitError e)) | None \<Rightarrow> do {
          (elapsed, measuredAt) \<leftarrow> pollElapsed H elapsed measuredAt;
          (subs, ready) \<leftarrow> readySubscriptions H elapsed 0 subs;
          if ready \<noteq> [] then pollLoop H earliest subs elapsed measuredAt ready k
          else do {
            cancelled \<leftarrow> pauseInterrupted H (pollPause earliest elapsed);
            if cancelled then ret (Inl wasiEIntr)
            else do {
              (elapsed, measuredAt) \<leftarrow> pollElapsed H elapsed measuredAt;
              (subs, ready) \<leftarrow> readySubscriptions H elapsed 0 subs;
              pollLoop H earliest subs elapsed measuredAt ready k } } } })"

section \<open>Decoding and encoding\<close>

definition clockSubscription :: "u64 \<Rightarrow> u64 \<Rightarrow> pollSubscription" where
  "clockSubscription userdata due = \<lparr>ps_userdata = userdata, ps_typ = 0, ps_entry = None, ps_due = due,
     ps_clock = True, ps_code = 0\<rparr>"

definition remainingTime :: "u64 \<Rightarrow> u16 \<Rightarrow> u64 \<Rightarrow> u64" where
  "remainingTime timeout flags now =
     (if flags AND 1 \<noteq> 0 then (if timeout > now then timeout - now else 0) else timeout)"

definition decodeSubscription :: "'w host \<Rightarrow> config \<Rightarrow> bytes \<Rightarrow> ('w st, u64 + pollSubscription) state" where
  "decodeSubscription H cfg raw = do {
     let userdata = le_word (mem_slice 0 8 raw); let typ = raw ! 8;
     if typ = 0 then do {
       let clockID = (le_word (mem_slice 16 4 raw) :: u32);
       let timeout = le_word (mem_slice 24 8 raw);
       let flags = (le_word (mem_slice 40 2 raw) :: u16);
       if clockID > 3 \<or> flags AND NOT 1 \<noteq> 0 then ret (Inl wasiEInval)
       else do {
         (now, resolution, err) \<leftarrow> clockValue H cfg clockID;
         if (case err of None \<Rightarrow> False | Some e \<Rightarrow> errorsIs e ErrClockOverflow) \<and> flags AND 1 \<noteq> 0
         then ret (Inl wasiEOverflow)
         else if (case err of None \<Rightarrow> False | Some e \<Rightarrow> \<not> errorsIs e ErrClockOverflow) then ret (Inl wasiENotsup)
         else ret (Inr (clockSubscription userdata (remainingTime timeout flags now))) } }
     else if typ = 1 \<or> typ = 2 then do {
       en \<leftarrow> entry (le_word (mem_slice 16 4 raw));
       let code = (case en of Inl code \<Rightarrow> code | Inr f \<Rightarrow> require f rightPollFDReadWrite);
       ret (Inr \<lparr>ps_userdata = userdata, ps_typ = typ,
         ps_entry = (case en of Inl code \<Rightarrow> None | Inr f \<Rightarrow> Some f),
         ps_due = 0, ps_clock = False, ps_code = ucast code\<rparr>) }
     else ret (Inl wasiEInval) }"

definition earlier :: "u64 option \<Rightarrow> pollSubscription \<Rightarrow> u64 option" where
  "earlier earliest sub =
     (if \<not> ps_clock sub then earliest
      else (case earliest of None \<Rightarrow> Some (ps_due sub)
        | Some due \<Rightarrow> (if ps_due sub < due then Some (ps_due sub) else Some due)))"

fun decodeSubscriptions :: "'w host \<Rightarrow> config \<Rightarrow> nat \<Rightarrow> nat \<Rightarrow> u64 option \<Rightarrow> ('w st, u64 + pollSubscription list \<times> u64 option) state" where
  "decodeSubscriptions H cfg start 0 earliest = ret (Inr ([], earliest))"
| "decodeSubscriptions H cfg start (Suc n) earliest = do {
     raw \<leftarrow> memLoad start 48;
     sub \<leftarrow> decodeSubscription H cfg raw;
     case sub of Inl code \<Rightarrow> ret (Inl code) | Inr sub \<Rightarrow> do {
       r \<leftarrow> decodeSubscriptions H cfg (start + 48) n (earlier earliest sub);
       ret (case r of Inl code \<Rightarrow> Inl code | Inr (subs, earliest) \<Rightarrow> Inr (sub # subs, earliest)) } }"

definition readableRegularFileBytes :: "'w host \<Rightarrow> fdEntry option \<Rightarrow> ('w st, u64) state" where
  "readableRegularFileBytes H en = (case en of None \<Rightarrow> ret 0 | Some f \<Rightarrow> (case e_file f of None \<Rightarrow> ret 0 | Some g \<Rightarrow> do {
     st \<leftarrow> hostStat H g;
     case st of Inl err \<Rightarrow> ret 0 | Inr info \<Rightarrow>
       if \<not> isRegular info then ret 0
       else do {
         r \<leftarrow> hostCall H (HSeek g 0 1);
         case asInt r of Inl err \<Rightarrow> ret 0 | Inr offset \<Rightarrow>
           ret (if sint offset \<ge> sint (fi_size info) then 0 else fi_size info - offset) } }))"

text \<open>The events, 32 bytes each, at consecutive addresses.\<close>

fun encodeEvents :: "'w host \<Rightarrow> u32 \<Rightarrow> pollSubscription list \<Rightarrow> nat \<Rightarrow> nat list \<Rightarrow> ('w st, unit) state" where
  "encodeEvents H out subs i [] = ret ()"
| "encodeEvents H out subs i (index # ready) = do {
     let sub = subs ! index;
     let b = unat (out + of_nat i * 32);
     memStore b (le_bytes 8 (ps_userdata sub));
     memStore (b + 8) (le_bytes 2 (ps_code sub));
     memStore (b + 10) [ps_typ sub];
     if ps_typ sub = 1 \<and> ps_code sub = 0 then do {
       nbytes \<leftarrow> readableRegularFileBytes H (ps_entry sub);
       memStore (b + 16) (le_bytes 8 nbytes);
       encodeEvents H out subs (Suc i) ready }
     else encodeEvents H out subs (Suc i) ready }"

definition pollLimit :: "config \<Rightarrow> u32" where
  "pollLimit cfg = (if c_MaxSubscriptionsPerPoll cfg = 0 then 1024 else c_MaxSubscriptionsPerPoll cfg)"

definition pollOneoff :: "'w host \<Rightarrow> config \<Rightarrow> u64 list \<Rightarrow> ('w st, u64) state" where
  "pollOneoff H cfg p = do {
     let inp = arg32 p 0; let out = arg32 p 1; let n = arg32 p 2; let result = arg32 p 3;
     mem \<leftarrow> gets s_mem;
     if n = 0 then ret wasiEInval
     else if n > pollLimit cfg then ret wasiENomem
     else if (ucast inp :: u64) + ucast n * 48 > of_nat (length mem) \<or>
       (ucast out :: u64) + ucast n * 32 > of_nat (length mem) \<or> (ucast result :: u64) + 4 > of_nat (length mem)
     then ret wasiEFault
     else do {
       d \<leftarrow> decodeSubscriptions H cfg (unat inp) (unat n) None;
       case d of Inl code \<Rightarrow> ret code | Inr (subs, earliest) \<Rightarrow> do {
         measuredAt \<leftarrow> timeNow H;
         (subs, ready) \<leftarrow> readySubscriptions H 0 0 subs;
         k \<leftarrow> gets s_fuel;
         w \<leftarrow> pollLoop H earliest subs 0 measuredAt ready k;
         case w of Inl code \<Rightarrow> ret code | Inr (subs, ready) \<Rightarrow> do {
           memStore (unat out) (replicate (unat n * 32) 0);
           encodeEvents H out subs 0 ready;
           ok \<leftarrow> putLe32 result (of_nat (length ready));
           if \<not> ok then ret wasiEFault else ret wasiOK } } } }"

section \<open>Safety\<close>

lemma safe_osFile [vcg]:
  "safe N M L fs (osFileError H f) (\<lambda>_. True)" "safe N M L fs (osFileReady H f typ) (\<lambda>_. True)"
  "safe N M L fs (timeNow H) (\<lambda>_. True)" "safe N M L fs (pauseInterrupted H d) (\<lambda>_. True)"
  unfolding osFileError_def osFileReady_def timeNow_def pauseInterrupted_def by (rule vcg | simp; fail)+

lemma safe_stream [vcg]:
  "safe N M L fs (streamFileError H en typ) (\<lambda>_. True)" "safe N M L fs (streamReady H en typ) (\<lambda>_. True)"
  "safe N M L fs (pollElapsed H el at) (\<lambda>_. True)"
  unfolding streamFileError_def streamReady_def pollElapsed_def by (rule vcg | simp; fail)+

lemma safe_subscription [vcg]:
  "safe N M L fs (subscriptionCode H sub) (\<lambda>_. True)" "safe N M L fs (subscriptionReady H sub code) (\<lambda>_. True)"
  unfolding subscriptionCode_def subscriptionReady_def by (rule vcg | simp; fail)+

text \<open>The indices that are ready are distinct and within the subscriptions.\<close>

definition readyFrom :: "nat \<Rightarrow> pollSubscription list \<Rightarrow> nat list \<Rightarrow> bool" where
  "readyFrom i subs ready \<longleftrightarrow> distinct ready \<and> (\<forall>j\<in>set ready. i \<le> j \<and> j < i + length subs)"

lemma readyFrom_Cons:
  "readyFrom (Suc i) subs ready \<Longrightarrow> readyFrom i (sub # subs) (if b then i # ready else ready)"
  by (force simp: readyFrom_def)

lemma readyFrom_length_eq: "readyFrom i subs ready \<Longrightarrow> length subs' = length subs \<Longrightarrow> readyFrom i subs' ready"
  by (simp add: readyFrom_def)

lemma safe_readySubscriptions [vcg]:
  "safe N M L fs (readySubscriptions H el i subs)
     (\<lambda>r. length (fst r) = length subs \<and> readyFrom i subs (snd r))"
proof (induction subs arbitrary: i)
  case Nil
  show ?case by (simp, rule vcg) (simp_all add: readyFrom_def)
next
  case (Cons sub subs)
  show ?case
    unfolding readySubscriptions.simps
    by (rule vcg Cons.IH | simp add: readyFrom_Cons; fail)+
qed

lemma safe_waitSubscriptions [vcg]: "safe N M L fs (waitSubscriptions H subs d) (\<lambda>_. True)"
  unfolding waitSubscriptions_def by (rule vcg | simp; fail)+

lemma waitError_nonzero [simp]: "waitError e \<noteq> 0"
  by (simp add: waitError_def)

lemma readyFrom_length: "readyFrom i subs ready \<Longrightarrow> length ready \<le> length subs"
proof -
  assume "readyFrom i subs ready"
  then have "distinct ready" "set ready \<subseteq> {i..<i + length subs}" by (auto simp: readyFrom_def)
  then have "length ready \<le> card {i..<i + length subs}" by (metis card_mono distinct_card finite_atLeastLessThan)
  then show ?thesis by simp
qed

lemma safe_pollLoop [vcg]:
  "length subs = n \<Longrightarrow> readyFrom 0 subs ready \<Longrightarrow> safe N M L fs (pollLoop H earliest subs el at ready k)
     (\<lambda>r. case r of Inl c \<Rightarrow> c \<noteq> wasiOK
       | Inr (subs', ready') \<Rightarrow> length subs' = n \<and> readyFrom 0 subs' ready' \<and> ready' \<noteq> [])"
proof (induction k arbitrary: subs el at ready)
  case 0
  show ?case unfolding pollLoop.simps by (rule vcg | simp add: 0; fail)+
next
  case (Suc k)
  show ?case
    unfolding pollLoop.simps
    by (rule vcg Suc.IH | simp add: Suc.prems; fail | (auto simp: Suc.prems intro: readyFrom_length_eq; fail))+
qed

lemma safe_decodeSubscription [vcg]:
  "c_Clocks cfg \<noteq> None \<Longrightarrow> safe N M L fs (decodeSubscription H cfg raw) (\<lambda>r. \<forall>c. r = Inl c \<longrightarrow> c \<noteq> wasiOK)"
  unfolding decodeSubscription_def by (rule vcg | simp; fail)+

lemma safe_decodeSubscriptions [vcg]:
  "c_Clocks cfg \<noteq> None \<Longrightarrow> start + n * 48 \<le> N \<Longrightarrow> safe N M L fs (decodeSubscriptions H cfg start n earliest)
     (\<lambda>r. case r of Inl c \<Rightarrow> c \<noteq> wasiOK | Inr (subs, e) \<Rightarrow> length subs = n)"
proof (induction n arbitrary: start earliest)
  case 0
  show ?case by (simp, rule vcg, simp_all)
next
  case (Suc n)
  show ?case
    unfolding decodeSubscriptions.simps
    by (rule vcg Suc.IH | use Suc.prems in \<open>simp; fail\<close> | (auto split: sum.splits; fail))+
qed

lemma safe_readableRegularFileBytes [vcg]: "safe N M L fs (readableRegularFileBytes H en) (\<lambda>_. True)"
  unfolding readableRegularFileBytes_def by (rule vcg | simp; fail)+

lemma event_address:
  assumes "unat (out :: u32) + n * 32 \<le> N" and "N \<le> 4294967296" and "i < n"
  shows "unat (out + of_nat i * 32) = unat out + i * 32"
  using assms unat_offset [of out "n * 32" N "i * 32"] by simp

lemma safe_encodeEvents:
  "unat out + n * 32 \<le> N \<Longrightarrow> N \<le> 4294967296 \<Longrightarrow> i + length ready \<le> n \<Longrightarrow>
     safe N M L fs (encodeEvents H out subs i ready) (\<lambda>_. True)"
proof (induction ready arbitrary: i)
  case Nil
  show ?case by (simp, rule vcg, simp_all)
next
  case (Cons x ready)
  have b: "unat (out + of_nat i * 32) = unat out + i * 32"
    using Cons.prems by (intro event_address [of out n N]) simp_all
  have room: "unat out + i * 32 + 32 \<le> N" using Cons.prems by simp
  have IH: "safe N M L fs (encodeEvents H out subs (Suc i) ready) (\<lambda>_. True)"
    using Cons.prems by (intro Cons.IH) simp_all
  show ?case
    unfolding encodeEvents.simps
    by (rule vcg IH | use room b in \<open>simp; fail\<close>)+
qed

lemma safe_pollEvents [vcg]:
  assumes "N \<le> 4294967296" and "unat out + length subs * 32 \<le> N" and "readyFrom 0 subs ready"
  shows "safe N M L fs (encodeEvents H out subs 0 ready) (\<lambda>_. True)"
  using assms readyFrom_length [OF assms(3)] by (intro safe_encodeEvents) simp_all

lemma safe_pollOneoff [vcg]:
  assumes "N \<le> 4294967296" and "c_Clocks cfg \<noteq> None"
  shows "safe N M L fs (pollOneoff H cfg p) (\<lambda>_. True)"
  unfolding pollOneoff_def
  by (rule vcg assms | simp add: assms range_simps; fail | (auto intro: readyFrom_length_eq; fail))+

end
