(* ===== verification/Dispatch.thy ===== *)
theory Dispatch
  imports Poll
begin

text \<open>
  The dispatch of Preview 1 imports in \<^verbatim>\<open>core.go\<close>: the handler identifiers, the table of import
  bindings with their signatures and capabilities, and the call of a handler. A handler either returns
  an errno or, for \<^verbatim>\<open>proc_exit\<close>, leaves the guest with an exit code; \<open>NoResult\<close> is an import without
  result slots whose call was refused.
\<close>

section \<open>Handlers\<close>

datatype handlerID =
    dispatchfdWrite
  | dispatchfdRead
  | dispatchfdClose
  | dispatchfdSeek
  | dispatchfdFdstatGet
  | dispatchfdPrestatGet
  | dispatchfdPrestatDirName
  | dispatchprocExit
  | dispatchargsSizesGet
  | dispatchargsGet
  | dispatchenvironSizesGet
  | dispatchenvironGet
  | dispatchclockTimeGet
  | dispatchclockResGet
  | dispatchrandomGet
  | dispatchschedYield
  | dispatchfdAdvise
  | dispatchfdAllocate
  | dispatchfdDatasync
  | dispatchfdSync
  | dispatchfdFdstatSetFlags
  | dispatchfdFdstatSetRights
  | dispatchfdFilestatGet
  | dispatchfdFilestatSetSize
  | dispatchfdFilestatSetTimes
  | dispatchfdPread
  | dispatchfdPwrite
  | dispatchfdReaddir
  | dispatchfdRenumber
  | dispatchfdTell
  | dispatchpathCreateDirectory
  | dispatchpathFilestatGet
  | dispatchpathFilestatSetTimes
  | dispatchpathLink
  | dispatchpathOpen
  | dispatchpathReadlink
  | dispatchpathRemoveDirectory
  | dispatchpathRename
  | dispatchpathSymlink
  | dispatchpathUnlinkFile
  | dispatchpollOneoff
  | dispatchprocRaise
  | dispatchsockAccept
  | dispatchsockRecv
  | dispatchsockSend
  | dispatchsockShutdown

datatype outcome = Code u64 | Exit u32 | NoResult

definition coded :: "('w st, u64) state \<Rightarrow> ('w st, outcome) state" where
  "coded m = do { c \<leftarrow> m; ret (Code c) }"

fun handlerCall :: "'w host \<Rightarrow> config \<Rightarrow> handlerID \<Rightarrow> u64 list \<Rightarrow> ('w st, outcome) state" where
  "handlerCall H cfg dispatchfdWrite p = coded (fdWrite H cfg p)"
| "handlerCall H cfg dispatchfdRead p = coded (fdRead H cfg p)"
| "handlerCall H cfg dispatchfdClose p = coded (fdClose H cfg p)"
| "handlerCall H cfg dispatchfdSeek p = coded (fdSeek H cfg p)"
| "handlerCall H cfg dispatchfdFdstatGet p = coded (fdFdstatGet H cfg p)"
| "handlerCall H cfg dispatchfdPrestatGet p = coded (fdPrestatGet H cfg p)"
| "handlerCall H cfg dispatchfdPrestatDirName p = coded (fdPrestatDirName H cfg p)"
| "handlerCall H cfg dispatchprocExit p = ret (Exit (ucast (p ! 0)))"
| "handlerCall H cfg dispatchargsSizesGet p = coded (argsSizesGet cfg p)"
| "handlerCall H cfg dispatchargsGet p = coded (argsGet cfg p)"
| "handlerCall H cfg dispatchenvironSizesGet p = coded (environSizesGet cfg p)"
| "handlerCall H cfg dispatchenvironGet p = coded (environGet cfg p)"
| "handlerCall H cfg dispatchclockTimeGet p = coded (clockTimeGet H cfg p)"
| "handlerCall H cfg dispatchclockResGet p = coded (clockResGet H cfg p)"
| "handlerCall H cfg dispatchrandomGet p = coded (randomGet H cfg p)"
| "handlerCall H cfg dispatchschedYield p = coded schedYield"
| "handlerCall H cfg dispatchfdAdvise p = coded (fdAdvise H cfg p)"
| "handlerCall H cfg dispatchfdAllocate p = coded (fdAllocate H cfg p)"
| "handlerCall H cfg dispatchfdDatasync p = coded (fdDatasync H cfg p)"
| "handlerCall H cfg dispatchfdSync p = coded (fdSync H cfg p)"
| "handlerCall H cfg dispatchfdFdstatSetFlags p = coded (fdFdstatSetFlags H cfg p)"
| "handlerCall H cfg dispatchfdFdstatSetRights p = coded (fdFdstatSetRights H cfg p)"
| "handlerCall H cfg dispatchfdFilestatGet p = coded (fdFilestatGet H cfg p)"
| "handlerCall H cfg dispatchfdFilestatSetSize p = coded (fdFilestatSetSize H cfg p)"
| "handlerCall H cfg dispatchfdFilestatSetTimes p = coded (fdFilestatSetTimes H cfg p)"
| "handlerCall H cfg dispatchfdPread p = coded (fdPread H cfg p)"
| "handlerCall H cfg dispatchfdPwrite p = coded (fdPwrite H cfg p)"
| "handlerCall H cfg dispatchfdReaddir p = coded (fdReaddir H cfg p)"
| "handlerCall H cfg dispatchfdRenumber p = coded (fdRenumber H cfg p)"
| "handlerCall H cfg dispatchfdTell p = coded (fdTell H cfg p)"
| "handlerCall H cfg dispatchpathCreateDirectory p = coded (pathCreateDirectory H cfg p)"
| "handlerCall H cfg dispatchpathFilestatGet p = coded (pathFilestatGet H cfg p)"
| "handlerCall H cfg dispatchpathFilestatSetTimes p = coded (pathFilestatSetTimes H cfg p)"
| "handlerCall H cfg dispatchpathLink p = coded (pathLink H cfg p)"
| "handlerCall H cfg dispatchpathOpen p = coded (pathOpen H cfg p)"
| "handlerCall H cfg dispatchpathReadlink p = coded (pathReadlink H cfg p)"
| "handlerCall H cfg dispatchpathRemoveDirectory p = coded (pathRemoveDirectory H cfg p)"
| "handlerCall H cfg dispatchpathRename p = coded (pathRename H cfg p)"
| "handlerCall H cfg dispatchpathSymlink p = coded (pathSymlink H cfg p)"
| "handlerCall H cfg dispatchpathUnlinkFile p = coded (pathUnlinkFile H cfg p)"
| "handlerCall H cfg dispatchpollOneoff p = coded (pollOneoff H cfg p)"
| "handlerCall H cfg dispatchprocRaise p = coded procRaise"
| "handlerCall H cfg dispatchsockAccept p = coded sockAccept"
| "handlerCall H cfg dispatchsockRecv p = coded (unsupportedSocket p)"
| "handlerCall H cfg dispatchsockSend p = coded (unsupportedSocket p)"
| "handlerCall H cfg dispatchsockShutdown p = coded (unsupportedSocket p)"

section \<open>Bindings\<close>

datatype valType = ValI32 | ValI64

datatype capability =
    CapFDRead
  | CapFDWrite
  | CapFDManage
  | CapPathRead
  | CapPathOpen
  | CapPathWrite
  | CapArgumentsRead
  | CapEnvironmentRead
  | CapClockRead
  | CapRandomRead
  | CapProcessExit
  | CapPoll
  | CapSchedulerYield
  | CapUnsupported

fun capabilityName :: "capability \<Rightarrow> string" where
  "capabilityName CapFDRead = ''wasi.fd.read''"
| "capabilityName CapFDWrite = ''wasi.fd.write''"
| "capabilityName CapFDManage = ''wasi.fd.manage''"
| "capabilityName CapPathRead = ''wasi.path.read''"
| "capabilityName CapPathOpen = ''wasi.path.open''"
| "capabilityName CapPathWrite = ''wasi.path.write''"
| "capabilityName CapArgumentsRead = ''wasi.arguments.read''"
| "capabilityName CapEnvironmentRead = ''wasi.environment.read''"
| "capabilityName CapClockRead = ''wasi.clock.read''"
| "capabilityName CapRandomRead = ''wasi.random.read''"
| "capabilityName CapProcessExit = ''wasi.process.exit''"
| "capabilityName CapPoll = ''wasi.poll''"
| "capabilityName CapSchedulerYield = ''wasi.scheduler.yield''"
| "capabilityName CapUnsupported = ''wasi.unsupported''"

definition guestCapabilities :: "capability list" where
  "guestCapabilities = [CapFDRead, CapFDWrite, CapFDManage, CapPathRead, CapPathOpen, CapPathWrite, CapArgumentsRead, CapEnvironmentRead, CapClockRead, CapRandomRead, CapProcessExit, CapPoll, CapSchedulerYield, CapUnsupported]"

definition importSignatures :: "valType list list" where
  "importSignatures = [
     [ValI32, ValI32, ValI32, ValI32],
     [ValI32],
     [ValI32, ValI64, ValI32, ValI32],
     [ValI32, ValI32],
     [ValI32, ValI32, ValI32],
     [ValI32, ValI64, ValI32],
     [],
     [ValI32, ValI64, ValI64, ValI32],
     [ValI32, ValI64, ValI64],
     [ValI32, ValI64],
     [ValI32, ValI32, ValI32, ValI64, ValI32],
     [ValI32, ValI32, ValI32, ValI32, ValI32],
     [ValI32, ValI32, ValI32, ValI32, ValI64, ValI64, ValI32],
     [ValI32, ValI32, ValI32, ValI32, ValI32, ValI32, ValI32],
     [ValI32, ValI32, ValI32, ValI32, ValI32, ValI64, ValI64, ValI32, ValI32],
     [ValI32, ValI32, ValI32, ValI32, ValI32, ValI32]]"

record binding =
  b_name :: string
  b_handler :: handlerID
  b_signature :: nat
  b_errno :: bool
  b_cap :: capability

definition b_params :: "binding \<Rightarrow> valType list" where
  "b_params b = importSignatures ! b_signature b"

definition b_results :: "binding \<Rightarrow> valType list" where
  "b_results b = (if \<not> b_errno b then [] else [ValI32])"

definition importBindings :: "binding list" where
  "importBindings = [
     binding.make ''fd_write'' dispatchfdWrite 0 True CapFDWrite,
     binding.make ''fd_read'' dispatchfdRead 0 True CapFDRead,
     binding.make ''fd_close'' dispatchfdClose 1 True CapFDManage,
     binding.make ''fd_seek'' dispatchfdSeek 2 True CapFDManage,
     binding.make ''fd_fdstat_get'' dispatchfdFdstatGet 3 True CapFDManage,
     binding.make ''fd_prestat_get'' dispatchfdPrestatGet 3 True CapFDManage,
     binding.make ''fd_prestat_dir_name'' dispatchfdPrestatDirName 4 True CapFDManage,
     binding.make ''proc_exit'' dispatchprocExit 1 False CapProcessExit,
     binding.make ''args_sizes_get'' dispatchargsSizesGet 3 True CapArgumentsRead,
     binding.make ''args_get'' dispatchargsGet 3 True CapArgumentsRead,
     binding.make ''environ_sizes_get'' dispatchenvironSizesGet 3 True CapEnvironmentRead,
     binding.make ''environ_get'' dispatchenvironGet 3 True CapEnvironmentRead,
     binding.make ''clock_time_get'' dispatchclockTimeGet 5 True CapClockRead,
     binding.make ''clock_res_get'' dispatchclockResGet 3 True CapClockRead,
     binding.make ''random_get'' dispatchrandomGet 3 True CapRandomRead,
     binding.make ''sched_yield'' dispatchschedYield 6 True CapSchedulerYield,
     binding.make ''fd_advise'' dispatchfdAdvise 7 True CapFDManage,
     binding.make ''fd_allocate'' dispatchfdAllocate 8 True CapFDWrite,
     binding.make ''fd_datasync'' dispatchfdDatasync 1 True CapFDWrite,
     binding.make ''fd_sync'' dispatchfdSync 1 True CapFDWrite,
     binding.make ''fd_fdstat_set_flags'' dispatchfdFdstatSetFlags 3 True CapFDManage,
     binding.make ''fd_fdstat_set_rights'' dispatchfdFdstatSetRights 8 True CapFDManage,
     binding.make ''fd_filestat_get'' dispatchfdFilestatGet 3 True CapFDRead,
     binding.make ''fd_filestat_set_size'' dispatchfdFilestatSetSize 9 True CapFDWrite,
     binding.make ''fd_filestat_set_times'' dispatchfdFilestatSetTimes 7 True CapFDWrite,
     binding.make ''fd_pread'' dispatchfdPread 10 True CapFDRead,
     binding.make ''fd_pwrite'' dispatchfdPwrite 10 True CapFDWrite,
     binding.make ''fd_readdir'' dispatchfdReaddir 10 True CapFDRead,
     binding.make ''fd_renumber'' dispatchfdRenumber 3 True CapFDManage,
     binding.make ''fd_tell'' dispatchfdTell 3 True CapFDManage,
     binding.make ''path_create_directory'' dispatchpathCreateDirectory 4 True CapPathWrite,
     binding.make ''path_filestat_get'' dispatchpathFilestatGet 11 True CapPathRead,
     binding.make ''path_filestat_set_times'' dispatchpathFilestatSetTimes 12 True CapPathWrite,
     binding.make ''path_link'' dispatchpathLink 13 True CapPathWrite,
     binding.make ''path_open'' dispatchpathOpen 14 True CapPathOpen,
     binding.make ''path_readlink'' dispatchpathReadlink 15 True CapPathRead,
     binding.make ''path_remove_directory'' dispatchpathRemoveDirectory 4 True CapPathWrite,
     binding.make ''path_rename'' dispatchpathRename 15 True CapPathWrite,
     binding.make ''path_symlink'' dispatchpathSymlink 11 True CapPathWrite,
     binding.make ''path_unlink_file'' dispatchpathUnlinkFile 4 True CapPathWrite,
     binding.make ''poll_oneoff'' dispatchpollOneoff 0 True CapPoll,
     binding.make ''proc_raise'' dispatchprocRaise 1 True CapUnsupported,
     binding.make ''sock_accept'' dispatchsockAccept 4 True CapUnsupported,
     binding.make ''sock_recv'' dispatchsockRecv 15 True CapUnsupported,
     binding.make ''sock_send'' dispatchsockSend 11 True CapUnsupported,
     binding.make ''sock_shutdown'' dispatchsockShutdown 3 True CapUnsupported]"

text \<open>The number of parameter slots that the binding of a handler declares.\<close>

definition paramCount :: "handlerID \<Rightarrow> nat" where
  "paramCount h = (case find (\<lambda>b. b_handler b = h) importBindings of
      Some b \<Rightarrow> length (b_params b)
    | None \<Rightarrow> 0)"

section \<open>The binding table\<close>

lemma importBindings_handlers:
  "map b_handler importBindings = [dispatchfdWrite, dispatchfdRead, dispatchfdClose, dispatchfdSeek,
     dispatchfdFdstatGet, dispatchfdPrestatGet, dispatchfdPrestatDirName, dispatchprocExit,
     dispatchargsSizesGet, dispatchargsGet, dispatchenvironSizesGet, dispatchenvironGet,
     dispatchclockTimeGet, dispatchclockResGet, dispatchrandomGet, dispatchschedYield,
     dispatchfdAdvise, dispatchfdAllocate, dispatchfdDatasync, dispatchfdSync,
     dispatchfdFdstatSetFlags, dispatchfdFdstatSetRights, dispatchfdFilestatGet, dispatchfdFilestatSetSize,
     dispatchfdFilestatSetTimes, dispatchfdPread, dispatchfdPwrite, dispatchfdReaddir,
     dispatchfdRenumber, dispatchfdTell, dispatchpathCreateDirectory, dispatchpathFilestatGet,
     dispatchpathFilestatSetTimes, dispatchpathLink, dispatchpathOpen, dispatchpathReadlink,
     dispatchpathRemoveDirectory, dispatchpathRename, dispatchpathSymlink, dispatchpathUnlinkFile,
     dispatchpollOneoff, dispatchprocRaise, dispatchsockAccept, dispatchsockRecv,
     dispatchsockSend, dispatchsockShutdown]"
  by (simp add: importBindings_def binding.make_def)

lemma bound_handler: "\<exists>b\<in>set importBindings. b_handler b = h"
proof -
  have "h \<in> set (map b_handler importBindings)" unfolding importBindings_handlers by (cases h) simp_all
  then show ?thesis by auto
qed

lemma distinct_handlers: "distinct (map b_handler importBindings)"
  unfolding importBindings_handlers by simp

lemma distinct_names: "distinct (map b_name importBindings)"
  by (simp add: importBindings_def binding.make_def)

text \<open>The capability of every binding is declared to the runtime.\<close>

lemma capabilities_declared: "b_cap ` set importBindings = set guestCapabilities"
  by (auto simp: importBindings_def binding.make_def guestCapabilities_def)

lemma signatures_within: "\<forall>b\<in>set importBindings. b_signature b < length importSignatures"
  by (simp add: importBindings_def binding.make_def importSignatures_def)

lemma errno_handlers: "b \<in> set importBindings \<Longrightarrow> b_errno b \<longleftrightarrow> b_handler b \<noteq> dispatchprocExit"
  by (auto simp: importBindings_def binding.make_def)

lemma coded_returns: "\<exists>c. fst (run_state (coded m) s) = Code c"
  by (simp add: coded_def split: prod.splits)

lemma handlerCall_Code: "(\<exists>c. fst (run_state (handlerCall H cfg h p) s) = Code c) \<longleftrightarrow> h \<noteq> dispatchprocExit"
  by (cases h) (simp_all add: coded_returns)

text \<open>A handler reads only the parameter slots that its binding declares.\<close>

lemma paramCount_simps [simp]:
  "paramCount dispatchfdWrite = 4"
  "paramCount dispatchfdRead = 4"
  "paramCount dispatchfdClose = 1"
  "paramCount dispatchfdSeek = 4"
  "paramCount dispatchfdFdstatGet = 2"
  "paramCount dispatchfdPrestatGet = 2"
  "paramCount dispatchfdPrestatDirName = 3"
  "paramCount dispatchprocExit = 1"
  "paramCount dispatchargsSizesGet = 2"
  "paramCount dispatchargsGet = 2"
  "paramCount dispatchenvironSizesGet = 2"
  "paramCount dispatchenvironGet = 2"
  "paramCount dispatchclockTimeGet = 3"
  "paramCount dispatchclockResGet = 2"
  "paramCount dispatchrandomGet = 2"
  "paramCount dispatchschedYield = 0"
  "paramCount dispatchfdAdvise = 4"
  "paramCount dispatchfdAllocate = 3"
  "paramCount dispatchfdDatasync = 1"
  "paramCount dispatchfdSync = 1"
  "paramCount dispatchfdFdstatSetFlags = 2"
  "paramCount dispatchfdFdstatSetRights = 3"
  "paramCount dispatchfdFilestatGet = 2"
  "paramCount dispatchfdFilestatSetSize = 2"
  "paramCount dispatchfdFilestatSetTimes = 4"
  "paramCount dispatchfdPread = 5"
  "paramCount dispatchfdPwrite = 5"
  "paramCount dispatchfdReaddir = 5"
  "paramCount dispatchfdRenumber = 2"
  "paramCount dispatchfdTell = 2"
  "paramCount dispatchpathCreateDirectory = 3"
  "paramCount dispatchpathFilestatGet = 5"
  "paramCount dispatchpathFilestatSetTimes = 7"
  "paramCount dispatchpathLink = 7"
  "paramCount dispatchpathOpen = 9"
  "paramCount dispatchpathReadlink = 6"
  "paramCount dispatchpathRemoveDirectory = 3"
  "paramCount dispatchpathRename = 6"
  "paramCount dispatchpathSymlink = 5"
  "paramCount dispatchpathUnlinkFile = 3"
  "paramCount dispatchpollOneoff = 4"
  "paramCount dispatchprocRaise = 1"
  "paramCount dispatchsockAccept = 3"
  "paramCount dispatchsockRecv = 6"
  "paramCount dispatchsockSend = 5"
  "paramCount dispatchsockShutdown = 2"
  by (simp_all add: paramCount_def importBindings_def binding.make_def b_params_def importSignatures_def)

lemmas handler_defs = fdWrite_def fdRead_def fdClose_def fdSeek_def fdFdstatGet_def fdPrestatGet_def fdPrestatDirName_def
  argsSizesGet_def argsGet_def environSizesGet_def environGet_def clockTimeGet_def clockResGet_def
  randomGet_def
  fdAdvise_def fdAllocate_def fdDatasync_def fdSync_def fdFdstatSetFlags_def fdFdstatSetRights_def fdFilestatGet_def
  fdFilestatSetSize_def fdFilestatSetTimes_def fdPread_def fdPwrite_def readAt_def writeAt_def fdReaddir_def fdRenumber_def
  fdTell_def pathCreateDirectory_def pathFilestatGet_def pathFilestatSetTimes_def setTimesFollow_def setTimesLeaf_def pathLink_def pathOpen_def pathOpenCheck_def
  pathReadlink_def pathRemoveDirectory_def pathRename_def pathSymlink_def pathUnlinkFile_def pathUnary_def pollOneoff_def
  unsupportedSocket_def

lemma handlerCall_slots: "handlerCall H cfg h (take (paramCount h) p) = handlerCall H cfg h p"
  by (cases h; simp only: handlerCall.simps paramCount_simps handler_defs nth_take less_numeral_simps
      zero_less_numeral one_less_numeral_iff numeral_less_iff semiring_norm zero_less_one)

section \<open>The invariant over calls\<close>

lemma preserves_coded: "preserves N M F m \<Longrightarrow> preserves N M F (coded m)"
  unfolding coded_def by (erule triple_bind) (simp add: triple_def wp_simps)

lemma preserves_ret: "preserves N M F (ret a)"
  by (simp add: triple_def wp_simps)

text \<open>The handlers that change the descriptor table, and the aliases among the others.\<close>

lemmas table_handlers = preservesI [OF inv_fdClose] preservesI [OF inv_fdRenumber] preservesI [OF inv_fdFdstatSetRights]
  preservesI [OF inv_fdFdstatSetFlags] preservesI [OF inv_pathOpen] preservesI [OF inv_fdReaddir]

lemmas handler_aliases = fdDatasync_def fdSync_def fdPread_def fdPwrite_def

lemma preserves_handlerCall:
  assumes "N \<le> 4294967296" and "cfgOk cfg"
  shows "preserves N M F (handlerCall H cfg h p)"
proof -
  have clk: "c_Clocks cfg \<noteq> None" using assms(2) by (simp add: cfgOk_def)
  show ?thesis
    by (cases h; simp only: handlerCall.simps handler_aliases;
        (rule preserves_ret | rule preserves_coded,
          ((rule table_handlers; (assumption | rule assms)+; fail) |
           (rule preserves_safe, (rule vcg assms clk | assumption | simp; fail)+; fail))))
qed

end
