(* ===== verification/Lifecycle.thy ===== *)
theory Lifecycle
  imports Dispatch Interfaces
begin

text \<open>
  The plugin object of \<^verbatim>\<open>core.go\<close> and \<^verbatim>\<open>fs.go\<close> over its life: \<^verbatim>\<open>initFS\<close>, the choice of the descriptor table
  of a calling instance (\<^verbatim>\<open>stateFor\<close>), the callback around a handler, \<^verbatim>\<open>closeInstance\<close> and \<^verbatim>\<open>closeAll\<close>. Here
  each of these runs to its end before the next one. Descriptor
  tables are objects that the plugin refers to by pointer: \<open>rt_heap\<close> holds them and a pointer is an index.
  The identity of the calling instance comes from the \<^verbatim>\<open>CallerResolver\<close> of the runtime and is an argument,
  and so is the memory of that instance.
\<close>

section \<open>State\<close>

text \<open>\<open>rt_fs\<close> is \<^verbatim>\<open>e.fs\<close>; the other fields are those of \<^verbatim>\<open>fsGuard\<close>. A nil map is \<open>None\<close>.\<close>

record 'w rt =
  rt_core :: "'w st"
  rt_heap :: "fsState list"
  rt_fs :: "nat option"
  rt_resolver :: bool
  rt_states :: "(nat \<times> nat) list option"
  rt_claimed :: bool
  rt_closed :: bool

definition inCore :: "('w st, 'a) state \<Rightarrow> ('w rt, 'a) state" where
  "inCore m = State (\<lambda>s. case run_state m (rt_core s) of (a, t) \<Rightarrow> (a, s\<lparr>rt_core := t\<rparr>))"

text \<open>A host function on the table \<open>i\<close> and the memory of the caller.\<close>

definition onTable :: "nat \<Rightarrow> bytes \<Rightarrow> ('w st, 'a) state \<Rightarrow> ('w rt, 'a) state" where
  "onTable i mem m = State (\<lambda>s.
     case run_state m ((rt_core s)\<lparr>s_mem := mem, s_fs := rt_heap s ! i\<rparr>) of
       (a, t) \<Rightarrow> (a, s\<lparr>rt_core := t, rt_heap := (rt_heap s)[i := s_fs t]\<rparr>))"

definition newTable :: "fsState \<Rightarrow> ('w rt, nat) state" where
  "newTable fs = State (\<lambda>s. (length (rt_heap s), s\<lparr>rt_heap := rt_heap s @ [fs]\<rparr>))"

section \<open>Operations\<close>

text \<open>\<^verbatim>\<open>resetFS\<close> installs a fresh guard; \<^verbatim>\<open>Register\<close> also sets its resolver.\<close>

definition resetFS :: "bool \<Rightarrow> ('w rt, unit) state" where
  "resetFS resolver = modify (\<lambda>s. s\<lparr>rt_resolver := resolver, rt_states := Some [], rt_claimed := False, rt_closed := False\<rparr>)"

definition initFS :: "'w host \<Rightarrow> config \<Rightarrow> bool \<Rightarrow> ('w rt, string option) state" where
  "initFS H cfg strict = do {
     r \<leftarrow> inCore (makeFS H cfg strict);
     case r of Inl err \<Rightarrow> ret (Some err) | Inr fs \<Rightarrow> do {
       i \<leftarrow> newTable fs;
       modify (\<lambda>s. s\<lparr>rt_fs := Some i, rt_closed := False, rt_claimed := False\<rparr>);
       ret None } }"

text \<open>\<^verbatim>\<open>e.guard.states[identity] = state\<close>, the last step of finding the table of an instance: an assignment to a nil map
  panics. The panic unwinds the call, which is the result \<open>None\<close> here and in the functions that use it.\<close>

definition putState :: "nat \<Rightarrow> nat \<Rightarrow> ('w rt, (u64 + nat) option) state" where
  "putState identity i = State (\<lambda>s. case rt_states s of
      None \<Rightarrow> (None, s\<lparr>rt_core := (rt_core s)\<lparr>s_panic := True\<rparr>\<rparr>)
    | Some m \<Rightarrow> (Some (Inr i), s\<lparr>rt_states := Some (AList.update identity i m)\<rparr>))"

definition lookupState :: "nat \<Rightarrow> 'w rt \<Rightarrow> nat option" where
  "lookupState identity s = (case rt_states s of None \<Rightarrow> None | Some m \<Rightarrow> map_of m identity)"

definition instanceState :: "'w host \<Rightarrow> config \<Rightarrow> nat \<Rightarrow> ('w rt, (u64 + nat) option) state" where
  "instanceState H cfg identity = do {
     st \<leftarrow> gets (lookupState identity);
     case st of Some i \<Rightarrow> ret (Some (Inr i)) | None \<Rightarrow> do {
       claimed \<leftarrow> gets rt_claimed;
       if \<not> claimed then do {
         i \<leftarrow> gets (\<lambda>s. the (rt_fs s));
         modify (\<lambda>s. s\<lparr>rt_claimed := True\<rparr>);
         putState identity i }
       else do {
         r \<leftarrow> inCore (makeFS H cfg True);
         case r of Inl err \<Rightarrow> ret (Some (Inl wasiEIo)) | Inr fs \<Rightarrow> do {
           i \<leftarrow> newTable fs;
           putState identity i } } } }"

definition tableFor :: "'w host \<Rightarrow> config \<Rightarrow> goerr + nat \<Rightarrow> ('w rt, (u64 + nat) option) state" where
  "tableFor H cfg caller = do {
     resolver \<leftarrow> gets rt_resolver;
     if resolver then (case caller of Inl err \<Rightarrow> ret (Some (Inl wasiEPerm)) | Inr identity \<Rightarrow> instanceState H cfg identity)
     else gets (\<lambda>s. Some (Inr (the (rt_fs s)))) }"

definition stateFor :: "'w host \<Rightarrow> config \<Rightarrow> goerr + nat \<Rightarrow> ('w rt, (u64 + nat) option) state" where
  "stateFor H cfg caller = do {
     down \<leftarrow> gets (\<lambda>s. rt_closed s \<or> rt_fs s = None);
     if down then ret (Some (Inl wasiEBadf))
     else do {
       st \<leftarrow> tableFor H cfg caller;
       case st of Some (Inr i) \<Rightarrow> do {
         closed \<leftarrow> gets (\<lambda>s. fs_closed (rt_heap s ! i));
         ret (Some (if closed then Inl wasiEBadf else Inr i)) }
       | _ \<Rightarrow> ret st } }"

definition setStateError :: "valType list \<Rightarrow> u64 \<Rightarrow> outcome" where
  "setStateError results code = (if results \<noteq> [] then Code code else NoResult)"

definition callback :: "'w host \<Rightarrow> config \<Rightarrow> binding \<Rightarrow> goerr + nat \<Rightarrow> bytes \<Rightarrow> u64 list \<Rightarrow> ('w rt, outcome) state" where
  "callback H cfg b caller mem p = do {
     st \<leftarrow> stateFor H cfg caller;
     case st of None \<Rightarrow> ret NoResult | Some res \<Rightarrow> (case res of
         Inl code \<Rightarrow> ret (setStateError (b_results b) code)
       | Inr i \<Rightarrow> onTable i mem (handlerCall H cfg (b_handler b) p)) }"

definition closeTable :: "'w host \<Rightarrow> nat \<Rightarrow> ('w rt, unit) state" where
  "closeTable H i = do {
     fs \<leftarrow> gets (\<lambda>s. rt_heap s ! i);
     fs' \<leftarrow> inCore (closeFS H fs);
     modify (\<lambda>s. s\<lparr>rt_heap := (rt_heap s)[i := fs']\<rparr>) }"

definition closeInstance :: "'w host \<Rightarrow> nat \<Rightarrow> ('w rt, unit) state" where
  "closeInstance H identity = do {
     st \<leftarrow> gets (lookupState identity);
     modify (\<lambda>s. s\<lparr>rt_states := map_option (AList.delete identity) (rt_states s)\<rparr>);
     case st of None \<Rightarrow> ret () | Some i \<Rightarrow> closeTable H i }"

fun closeTables :: "'w host \<Rightarrow> nat list \<Rightarrow> ('w rt, unit) state" where
  "closeTables H [] = ret ()"
| "closeTables H (i # is) = do { closeTable H i; closeTables H is }"

definition closeAll :: "'w host \<Rightarrow> ('w rt, unit) state" where
  "closeAll H = do {
     states \<leftarrow> gets (\<lambda>s. case rt_states s of None \<Rightarrow> [] | Some m \<Rightarrow> map snd m);
     initial \<leftarrow> gets rt_fs;
     modify (\<lambda>s. s\<lparr>rt_states := None, rt_fs := None, rt_closed := True\<rparr>);
     closeTables H (case initial of None \<Rightarrow> [] | Some i \<Rightarrow> [i]);
     closeTables H (filter (\<lambda>i. Some i \<noteq> initial) states) }"

section \<open>The invariant of the plugin\<close>

definition allOwned :: "fsState list \<Rightarrow> fileid set" where
  "allOwned heap = (\<Union>fs\<in>set heap. owned fs)"

definition coreOk :: "authority \<Rightarrow> fileid set \<Rightarrow> 'w st \<Rightarrow> bool" where
  "coreOk M F s \<longleftrightarrow> (\<forall>c\<in>set (s_log s). allowed M c) \<and> (\<forall>f\<in>s_live s. snd f < s_next s) \<and> s_live s \<subseteq> F"

definition heapOk :: "authority \<Rightarrow> fsState list \<Rightarrow> bool" where
  "heapOk M heap \<longleftrightarrow> (\<forall>fs\<in>set heap. fs_closed fs \<and> fs_fds fs = [] \<or> tableOk M fs)"

text \<open>The map from instances to tables is injective, the first table belongs to at most one instance, and
  every table outside \<open>X\<close> (the tables about to be closed) that is not closed is still referred to.\<close>

definition guardOk :: "nat set \<Rightarrow> 'w rt \<Rightarrow> bool" where
  "guardOk X s \<longleftrightarrow>
     (\<forall>i\<in>set_option (rt_fs s). i < length (rt_heap s)) \<and> (rt_closed s \<longrightarrow> rt_fs s = None) \<and>
     (case rt_states s of None \<Rightarrow> True
      | Some m \<Rightarrow> distinct (map fst m) \<and> distinct (map snd m) \<and> (\<forall>x\<in>set m. snd x < length (rt_heap s)) \<and>
         (\<not> rt_claimed s \<longrightarrow> set_option (rt_fs s) \<inter> snd ` set m = {})) \<and>
     (\<forall>i<length (rt_heap s). i \<in> X \<or> fs_closed (rt_heap s ! i) \<or> rt_fs s = Some i \<or>
        (\<exists>m. rt_states s = Some m \<and> i \<in> snd ` set m))"

text \<open>A plugin that was stopped and started again has no map of instances: the first call that needs one panics, with
  the first table claimed.\<close>

definition restartOk :: "'w rt \<Rightarrow> bool" where
  "restartOk s \<longleftrightarrow> (s_panic (rt_core s) \<longrightarrow> rt_resolver s \<and> rt_states s = None) \<and>
     (rt_states s = None \<and> rt_fs s \<noteq> None \<and> rt_claimed s \<longrightarrow> s_panic (rt_core s))"

definition PInvX :: "authority \<Rightarrow> nat set \<Rightarrow> 'w rt \<Rightarrow> bool" where
  "PInvX M X s \<longleftrightarrow> coreOk M (allOwned (rt_heap s)) (rt_core s) \<and> heapOk M (rt_heap s) \<and> guardOk X s \<and> restartOk s"

abbreviation PInv :: "authority \<Rightarrow> 'w rt \<Rightarrow> bool" where
  "PInv M \<equiv> PInvX M {}"

lemma wp_inCore [wp_simps]: "wp (inCore m) Q s = wp m (\<lambda>a t. Q a (s\<lparr>rt_core := t\<rparr>)) (rt_core s)"
  by (simp add: wp_def inCore_def split: prod.splits)

lemma wp_putState [wp_simps]:
  "wp (putState k i) Q s = (case rt_states s of None \<Rightarrow> Q None (s\<lparr>rt_core := (rt_core s)\<lparr>s_panic := True\<rparr>\<rparr>)
     | Some m \<Rightarrow> Q (Some (Inr i)) (s\<lparr>rt_states := Some (AList.update k i m)\<rparr>))"
  by (simp add: wp_def putState_def split: option.splits)

lemma wp_newTable [wp_simps]: "wp (newTable fs) Q s = Q (length (rt_heap s)) (s\<lparr>rt_heap := rt_heap s @ [fs]\<rparr>)"
  by (simp add: wp_def newTable_def)

lemma wp_onTable [wp_simps]:
  "wp (onTable i mem m) Q s = wp m (\<lambda>a t. Q a (s\<lparr>rt_core := t, rt_heap := (rt_heap s)[i := s_fs t]\<rparr>))
     ((rt_core s)\<lparr>s_mem := mem, s_fs := rt_heap s ! i\<rparr>)"
  by (simp add: wp_def onTable_def split: prod.splits)

subsection \<open>Files of the tables\<close>

definition others :: "fsState list \<Rightarrow> nat \<Rightarrow> fileid set" where
  "others heap i = (\<Union>j\<in>{..<length heap} - {i}. owned (heap ! j))"

lemma allOwned_append [simp]: "allOwned (heap @ [fs]) = allOwned heap \<union> owned fs"
  by (auto simp: allOwned_def)

lemma allOwned_split: "i < length heap \<Longrightarrow> allOwned heap = owned (heap ! i) \<union> others heap i"
  by (fastforce simp: allOwned_def others_def set_conv_nth)

lemma others_update [simp]: "others (heap[i := fs]) i = others heap i"
  by (auto simp: others_def)

lemma allOwned_update: "i < length heap \<Longrightarrow> allOwned (heap[i := fs]) = owned fs \<union> others heap i"
  using allOwned_split [of i "heap[i := fs]"] by simp

lemma coreOk_St: "coreOk M F s \<Longrightarrow> \<not> s_panic s \<Longrightarrow> St (length (s_mem s)) M (s_live s) (s_fs s) s"
  by (simp add: coreOk_def St_def)

lemma St_coreOk: "St N M L fs s \<Longrightarrow> L \<subseteq> F \<Longrightarrow> coreOk M F s" "St N M L fs s \<Longrightarrow> \<not> s_panic s"
  by (auto simp: coreOk_def St_def)

lemma coreOk_panic [simp]: "coreOk M F (c\<lparr>s_panic := b\<rparr>) = coreOk M F c"
  by (simp add: coreOk_def)

lemma heapOk_update: "heapOk M heap \<Longrightarrow> tableOk M fs \<or> fs_closed fs \<and> fs_fds fs = [] \<Longrightarrow> heapOk M (heap[i := fs])"
  by (auto simp: heapOk_def dest: set_update_subset_insert [THEN subsetD])

lemma heapOk_append: "heapOk M heap \<Longrightarrow> tableOk M fs \<Longrightarrow> heapOk M (heap @ [fs])"
  by (auto simp: heapOk_def)

lemma heapOk_nth: "heapOk M heap \<Longrightarrow> i < length heap \<Longrightarrow> \<not> fs_closed (heap ! i) \<Longrightarrow> tableOk M (heap ! i)"
  by (auto simp: heapOk_def)

subsection \<open>Calls\<close>

lemma guardOk_table:
  assumes "guardOk X s" and "i < length (rt_heap s)" and "fs_closed (rt_heap s ! i) \<longrightarrow> fs_closed fs"
  shows "guardOk X (s\<lparr>rt_core := t, rt_heap := (rt_heap s)[i := fs]\<rparr>)"
  using assms unfolding guardOk_def by (auto simp: nth_list_update split: option.splits)

lemma guardOk_core [simp]: "guardOk X (s\<lparr>rt_core := t\<rparr>) = guardOk X s"
  by (simp add: guardOk_def split: option.split)

lemma PInv_onTable:
  fixes s :: "'w rt"
  assumes m: "\<And>F. preserves (length mem) M F m" and "PInv M s" and "i < length (rt_heap s)"
    and "\<not> fs_closed (rt_heap s ! i)" and "\<not> s_panic (rt_core s)"
  shows "wp (onTable i mem m) (\<lambda>_. PInv M) s"
proof -
  let ?F = "others (rt_heap s) i"
  let ?t = "(rt_core s)\<lparr>s_mem := mem, s_fs := rt_heap s ! i\<rparr>"
  from assms(2) have ok: "coreOk M (owned (rt_heap s ! i) \<union> ?F) (rt_core s)" "heapOk M (rt_heap s)" "guardOk {} s" "restartOk s"
    by (simp_all add: PInvX_def allOwned_split [OF assms(3)])
  then have "Inv (length mem) M ?F ?t"
    using heapOk_nth [OF ok(2) assms(3,4)] assms(5) by (auto simp: Inv_def St_def coreOk_def)
  with m [of ?F] have "wp m (\<lambda>_. Inv (length mem) M ?F) ?t" by (simp add: triple_def)
  then show ?thesis
    unfolding wp_onTable
  proof (rule wp_mono)
    fix a and t :: "'w st" assume "Inv (length mem) M ?F t"
    then obtain L fs where t: "St (length mem) M L fs t" "tableOk M fs" "L \<subseteq> owned fs \<union> ?F" by (auto simp: Inv_def)
    then have fs: "s_fs t = fs" by (simp add: St_def)
    show "PInv M (s\<lparr>rt_core := t, rt_heap := (rt_heap s)[i := s_fs t]\<rparr>)"
      using St_coreOk(1) [OF t(1,3)] St_coreOk(2) [OF t(1)] ok(4) assms(5) heapOk_update [OF ok(2)] guardOk_table [OF ok(3) assms(3)] t(2) assms(3,4)
      by (simp add: PInvX_def fs allOwned_update restartOk_def)
  qed
qed

subsection \<open>New tables\<close>

lemma wp_makeFS:
  fixes c :: "'w st"
  assumes "configOk cfg" and "M = mountAuthority cfg" and "coreOk M F c" and "\<not> s_panic c"
    and "\<And>r t. \<not> s_panic t \<Longrightarrow> (case r of Inl m \<Rightarrow> coreOk M F t | Inr fs \<Rightarrow> coreOk M (F \<union> owned fs) t \<and> tableOk M fs) \<Longrightarrow> Q r t"
  shows "wp (makeFS H cfg strict) Q c"
proof -
  have F: "s_live c \<subseteq> F" using assms(3) by (simp add: coreOk_def)
  have "wp (makeFS H cfg strict)
    (\<lambda>r t. St (length (s_mem c)) M (case r of Inl m \<Rightarrow> s_live c | Inr fs \<Rightarrow> s_live c \<union> owned fs) (s_fs c) t \<and>
      (case r of Inl m \<Rightarrow> True | Inr fs \<Rightarrow> tableOk M fs)) c"
    using triple_makeFS [OF assms(1,2), of "length (s_mem c)" "s_live c" "s_fs c" H strict] coreOk_St [OF assms(3,4)]
    by (auto simp: triple_def elim!: wp_mono split: sum.splits)
  then show ?thesis
  proof (rule wp_mono)
    fix r :: "string + fsState" and t :: "'w st"
    assume "St (length (s_mem c)) M (case r of Inl m \<Rightarrow> s_live c | Inr fs \<Rightarrow> s_live c \<union> owned fs) (s_fs c) t \<and>
      (case r of Inl m \<Rightarrow> True | Inr fs \<Rightarrow> tableOk M fs)"
    then show "Q r t" using F by (intro assms(5)) (auto split: sum.splits intro: St_coreOk dest: St_coreOk(2))
  qed
qed

text \<open>\<open>i\<close> is an open table.\<close>

definition openTable :: "'w rt \<Rightarrow> nat \<Rightarrow> bool" where
  "openTable s i \<longleftrightarrow> i < length (rt_heap s) \<and> \<not> fs_closed (rt_heap s ! i)"

lemma PInv_initFS:
  assumes "configOk cfg" and "M = mountAuthority cfg" and "PInv M s" and "rt_fs s = None" and "\<not> s_panic (rt_core s)"
  shows "wp (initFS H cfg strict) (\<lambda>r t. PInv M t \<and> (r = None \<longrightarrow> rt_fs t \<noteq> None \<and> \<not> rt_closed t)) s"
proof -
  have core: "coreOk M (allOwned (rt_heap s)) (rt_core s)" using assms(3) by (simp add: PInvX_def)
  show ?thesis
    unfolding initFS_def wp_simps
    by (rule wp_makeFS [OF assms(1,2) core assms(5)])
      (use assms(3-5) in \<open>auto simp: wp_simps PInvX_def guardOk_def restartOk_def heapOk_append nth_append less_Suc_eq split: sum.splits option.splits\<close>)
qed

text \<open>The state with a new pair in the map of the guard.\<close>

lemma guardOk_claim:
  assumes "guardOk {} s" and "rt_fs s = Some i" and "\<not> rt_claimed s" and "rt_states s = Some m" and "map_of m k = None"
  shows "guardOk {} (s\<lparr>rt_claimed := True, rt_states := Some (AList.update k i m)\<rparr>)"
proof -
  have k: "k \<notin> fst ` set m" using assms(5) by (simp add: map_of_eq_None_iff)
  then have u: "AList.update k i m = m @ [(k, i)]" by (induction m) auto
  show ?thesis using assms k unfolding guardOk_def by (auto simp: u image_iff)
qed

lemma guardOk_fresh:
  assumes "guardOk {} s" and "rt_fs s \<noteq> None" and "rt_states s = Some m" and "map_of m k = None"
    and "rt_claimed s"
  shows "guardOk {} (s\<lparr>rt_core := c, rt_heap := rt_heap s @ [fs], rt_states := Some (AList.update k (length (rt_heap s)) m)\<rparr>)"
proof -
  have k: "k \<notin> fst ` set m" using assms(4) by (simp add: map_of_eq_None_iff)
  then have u: "AList.update k (length (rt_heap s)) m = m @ [(k, length (rt_heap s))]" by (induction m) auto
  show ?thesis
    using assms k unfolding guardOk_def
    by (auto simp: u nth_append less_Suc_eq split: if_splits)
qed

definition serving :: "'w rt \<Rightarrow> bool" where
  "serving s \<longleftrightarrow> rt_fs s \<noteq> None \<and> \<not> rt_closed s"

lemma PInv_instanceState:
  assumes "configOk cfg" and "M = mountAuthority cfg" and "PInv M s" and "serving s" and "rt_resolver s" and "\<not> s_panic (rt_core s)"
  shows "wp (instanceState H cfg k) (\<lambda>r t. PInv M t \<and>
    (r \<noteq> None \<longrightarrow> \<not> s_panic (rt_core t)) \<and> (\<forall>i. r = Some (Inr i) \<longrightarrow> lookupState k t = Some i \<and> i < length (rt_heap t))) s"
proof -
  have core: "coreOk M (allOwned (rt_heap s)) (rt_core s)" and g: "guardOk {} s" and h: "heapOk M (rt_heap s)" and r: "restartOk s"
    using assms(3) by (simp_all add: PInvX_def)
  obtain i0 where i0: "rt_fs s = Some i0" using assms(4) by (auto simp: serving_def)
  show ?thesis
  proof (cases "rt_states s")
    case None
    then have "\<not> rt_claimed s" using r i0 assms(6) by (simp add: restartOk_def)
    with None assms(5) core g h i0 show ?thesis
      by (simp add: instanceState_def wp_simps lookupState_def PInvX_def guardOk_def restartOk_def)
  next
    case m: (Some m)
    show ?thesis
    proof (cases "map_of m k")
      case (Some i)
      then have "i < length (rt_heap s)" using g m by (fastforce simp: guardOk_def dest: map_of_SomeD)
      with Some assms(3,6) m show ?thesis by (simp add: instanceState_def wp_simps lookupState_def)
    next
      case None
      show ?thesis
      proof (cases "rt_claimed s")
        case False
        have "i0 < length (rt_heap s)" using g i0 by (simp add: guardOk_def)
        with False None m i0 core h assms(6) guardOk_claim [OF g i0 False m None] show ?thesis
          by (simp add: instanceState_def wp_simps lookupState_def PInvX_def restartOk_def)
      next
        case True
        note fresh = guardOk_fresh [OF g _ m None True]
        show ?thesis
          using True None m unfolding instanceState_def
          by (simp add: wp_simps lookupState_def)
            (rule wp_makeFS [OF assms(1,2) core assms(6)], use g h i0 fresh r in
             \<open>auto simp: wp_simps PInvX_def restartOk_def heapOk_append lookupState_def m split: sum.splits\<close>)
      qed
    qed
  qed
qed

lemma PInv_tableFor:
  assumes "configOk cfg" and "M = mountAuthority cfg" and "PInv M s" and "serving s" and "\<not> s_panic (rt_core s)"
  shows "wp (tableFor H cfg caller) (\<lambda>r t. PInv M t \<and> (r \<noteq> None \<longrightarrow> \<not> s_panic (rt_core t)) \<and> (\<forall>i. r = Some (Inr i) \<longrightarrow> i < length (rt_heap t))) s"
proof (cases "rt_resolver s")
  case True
  have "wp (instanceState H cfg k) (\<lambda>r t. PInv M t \<and> (r \<noteq> None \<longrightarrow> \<not> s_panic (rt_core t)) \<and> (\<forall>i. r = Some (Inr i) \<longrightarrow> i < length (rt_heap t))) s" for k
    by (rule wp_mono [OF PInv_instanceState [OF assms(1-4) True assms(5)]]) simp
  with True assms(3,5) show ?thesis by (cases caller) (simp_all add: tableFor_def wp_simps)
next
  case False
  with assms(3-5) show ?thesis
    by (auto simp: tableFor_def wp_simps serving_def PInvX_def guardOk_def)
qed

lemma PInv_stateFor:
  assumes "configOk cfg" and "M = mountAuthority cfg" and "PInv M s" and "\<not> s_panic (rt_core s)"
  shows "wp (stateFor H cfg caller) (\<lambda>r t. PInv M t \<and> (r \<noteq> None \<longrightarrow> \<not> s_panic (rt_core t)) \<and> (\<forall>i. r = Some (Inr i) \<longrightarrow> openTable t i)) s"
proof (cases "serving s")
  case True
  then have down: "(rt_closed s \<or> rt_fs s = None) = False" by (simp add: serving_def)
  show ?thesis
    unfolding stateFor_def wp_simps down if_False
    by (intro wp_mono [OF PInv_tableFor [OF assms(1-3) True assms(4)]]) (auto simp: openTable_def wp_simps split: sum.splits option.splits)
next
  case False
  then have down: "(rt_closed s \<or> rt_fs s = None) = True" by (auto simp: serving_def)
  from assms(3,4) show ?thesis unfolding stateFor_def wp_simps down if_True by simp
qed

lemma PInv_callback:
  assumes "configOk cfg" and "M = mountAuthority cfg" and "length mem \<le> 4294967296" and "PInv M s" and "\<not> s_panic (rt_core s)"
  shows "wp (callback H cfg b caller mem p) (\<lambda>_. PInv M) s"
proof -
  have "cfgOk cfg" using assms(1) by (simp add: configOk_def)
  then have m: "preserves (length mem) M F (handlerCall H cfg (b_handler b) p)" for F
    using assms(3) by (intro preserves_handlerCall)
  show ?thesis
    unfolding callback_def wp_bind
    by (rule wp_mono [OF PInv_stateFor [OF assms(1,2,4,5)]])
      (auto simp: openTable_def wp_return intro: PInv_onTable [OF m] split: sum.splits option.splits)
qed

subsection \<open>Closing\<close>

lemma run_hostClose:
  "run_state (hostClose H f) c = (asErr (fst (H (HClose f) (s_world c))),
     c\<lparr>s_world := snd (H (HClose f) (s_world c)), s_log := s_log c @ [HClose f], s_live := s_live c - {f}\<rparr>)"
  by (simp add: hostClose_def)

lemma run_closeFiles:
  fixes c :: "'w st"
  shows "\<exists>w. snd (run_state (closeFiles H files) c) =
     c\<lparr>s_world := w, s_log := s_log c @ map HClose files, s_live := s_live c - set files\<rparr>"
proof (induction files arbitrary: c)
  case Nil
  show ?case by (rule exI [of _ "s_world c"]) simp
next
  case (Cons f files)
  let ?c = "c\<lparr>s_world := snd (H (HClose f) (s_world c)), s_log := s_log c @ [HClose f], s_live := s_live c - {f}\<rparr>"
  obtain w where w: "snd (run_state (closeFiles H files) ?c) =
      ?c\<lparr>s_world := w, s_log := s_log ?c @ map HClose files, s_live := s_live ?c - set files\<rparr>" using Cons by blast
  have "snd (run_state (closeFiles H (f # files)) c) = snd (run_state (closeFiles H files) ?c)"
    by (simp add: run_hostClose)
  also have "\<dots> = c\<lparr>s_world := w, s_log := s_log c @ map HClose (f # files), s_live := s_live c - set (f # files)\<rparr>"
    unfolding w by (simp add: Diff_insert2 [symmetric] insert_commute)
  finally show ?case by blast
qed

text \<open>Closing a table closes the files of its entries and changes nothing else, panicked or not.\<close>

lemma wp_closeFS_core:
  fixes c :: "'w st"
  assumes "coreOk M (owned fs \<union> F) c"
  shows "wp (closeFS H fs) (\<lambda>r t. coreOk M F t \<and> s_panic t = s_panic c \<and> r = fs\<lparr>fs_cancelled := True, fs_closed := True, fs_fds := []\<rparr>) c"
proof -
  define files where "files = concat (map (\<lambda>x. (case e_dirIter (snd x) of None \<Rightarrow> [] | Some f \<Rightarrow> [f]) @
     (case e_file (snd x) of None \<Rightarrow> [] | Some f \<Rightarrow> [f])) (fs_fds fs))"
  have f: "set files = owned fs" unfolding files_def owned_def by (rule set_closeEntries)
  obtain w where "snd (run_state (closeFiles H files) c) =
     c\<lparr>s_world := w, s_log := s_log c @ map HClose files, s_live := s_live c - set files\<rparr>" using run_closeFiles [of H files c] by blast
  then show ?thesis
    using assms by (auto simp: closeFS_def closeEntries_def files_def [symmetric] wp_run coreOk_def f split_beta)
qed

lemma PInvX_closeTable:
  fixes s :: "'w rt"
  assumes "PInvX M X s" and "i < length (rt_heap s)"
  shows "wp (closeTable H i) (\<lambda>_ t. PInvX M (X - {i}) t \<and> length (rt_heap t) = length (rt_heap s) \<and>
    rt_fs t = rt_fs s \<and> rt_states t = rt_states s \<and> rt_closed t = rt_closed s) s"
proof -
  have core: "coreOk M (owned (rt_heap s ! i) \<union> others (rt_heap s) i) (rt_core s)" and g: "guardOk X s" and h: "heapOk M (rt_heap s)"
    and r: "restartOk s"
    using assms(1) by (simp_all add: PInvX_def allOwned_split [OF assms(2)])
  let ?fs = "(rt_heap s ! i)\<lparr>fs_cancelled := True, fs_closed := True, fs_fds := []\<rparr>"
  have "owned ?fs = {}" by (simp add: owned_def)
  moreover have "wp (closeFS H (rt_heap s ! i)) (\<lambda>r t. coreOk M (others (rt_heap s) i) t \<and> s_panic t = s_panic (rt_core s) \<and> r = ?fs) (rt_core s)"
    using wp_closeFS_core [OF core] .
  moreover have "PInvX M (X - {i}) (s\<lparr>rt_core := t, rt_heap := (rt_heap s)[i := ?fs]\<rparr>)"
    if "coreOk M (others (rt_heap s) i) t" "s_panic t = s_panic (rt_core s)" for t
  proof -
    have "guardOk X (s\<lparr>rt_core := t, rt_heap := (rt_heap s)[i := ?fs]\<rparr>)" using g assms(2) by (intro guardOk_table) simp_all
    then have "guardOk (X - {i}) (s\<lparr>rt_core := t, rt_heap := (rt_heap s)[i := ?fs]\<rparr>)"
      using assms(2) by (auto simp: guardOk_def nth_list_update)
    with that h r assms(2) show ?thesis by (simp add: PInvX_def heapOk_update allOwned_update restartOk_def owned_def)
  qed
  ultimately show ?thesis by (auto simp: closeTable_def wp_simps elim!: wp_mono)
qed

lemma PInvX_closeTables:
  "PInvX M X s \<Longrightarrow> \<forall>i\<in>set is. i < length (rt_heap s) \<Longrightarrow>
     wp (closeTables H is) (\<lambda>_ t. PInvX M (X - set is) t \<and> length (rt_heap t) = length (rt_heap s) \<and>
       rt_fs t = rt_fs s \<and> rt_states t = rt_states s \<and> rt_closed t = rt_closed s) s"
proof (induction "is" arbitrary: X s)
  case (Cons i "is")
  show ?case
    unfolding closeTables.simps wp_bind
    by (rule wp_mono [OF PInvX_closeTable [OF Cons.prems(1)]])
      (use Cons.prems in \<open>auto elim!: wp_mono [OF Cons.IH] simp: Diff_insert2 [symmetric]\<close>)
qed (simp add: wp_simps)

lemma guardOk_delete:
  assumes "guardOk {} s" and "rt_states s = Some m" and "map_of m k = Some i"
  shows "guardOk {i} (s\<lparr>rt_states := Some (AList.delete k m)\<rparr>)"
proof -
  have d: "distinct (map fst m)" "distinct (map snd m)" using assms(1,2) by (simp_all add: guardOk_def)
  then have "distinct (map snd (AList.delete k m))" by (simp add: AList.delete_eq distinct_map_filter)
  moreover have "j = i \<or> j \<in> snd ` set (AList.delete k m)" if "j \<in> snd ` set m" for j
  proof -
    from that obtain x where x: "(x, j) \<in> set m" by force
    show ?thesis
    proof (cases "x = k")
      case True
      with x d(1) assms(3) show ?thesis by (auto simp: map_of_eq_Some_iff)
    next
      case False
      with x have "(x, j) \<in> set (AList.delete k m)" by (simp add: set_AList_delete)
      then show ?thesis by force
    qed
  qed
  then have "snd ` set m \<subseteq> insert i (snd ` set (AList.delete k m))" by auto
  ultimately show ?thesis
    using assms(1,2) d(1) unfolding guardOk_def
    by (simp add: distinct_delete) (auto 0 4 simp: set_AList_delete)
qed

lemma PInv_closeInstance:
  assumes "PInv M s"
  shows "wp (closeInstance H k) (\<lambda>_. PInv M) s"
proof (cases "lookupState k s")
  case None
  then have "map_option (AList.delete k) (rt_states s) = rt_states s"
    by (auto simp: lookupState_def map_of_eq_None_iff AList.delete_id split: option.splits)
  with None assms show ?thesis by (simp add: closeInstance_def wp_simps)
next
  case (Some i)
  then obtain m where m: "rt_states s = Some m" "map_of m k = Some i" by (auto simp: lookupState_def split: option.splits)
  have g: "guardOk {} s" using assms by (simp add: PInvX_def)
  have "(k, i) \<in> set m" using m(2) by (rule map_of_SomeD)
  with g m(1) have i: "i < length (rt_heap s)" by (auto simp: guardOk_def)
  have "PInvX M {i} (s\<lparr>rt_states := Some (AList.delete k m)\<rparr>)"
    using assms guardOk_delete [OF g m] m(1) by (simp add: PInvX_def restartOk_def)
  from PInvX_closeTable [OF this, of i H] i show ?thesis
    by (auto simp: closeInstance_def wp_simps Some m elim!: wp_mono)
qed

text \<open>After a shutdown no file is open.\<close>

lemma PInv_closed_live:
  assumes "PInv M t" and "rt_fs t = None" and "rt_states t = None"
  shows "s_live (rt_core t) = {}"
proof -
  have "owned fs = {}" if fs: "fs \<in> set (rt_heap t)" for fs
  proof -
    obtain i where "i < length (rt_heap t)" "fs = rt_heap t ! i" using fs by (auto simp: in_set_conv_nth)
    then have "fs_closed fs" using assms by (simp add: PInvX_def guardOk_def)
    then show ?thesis using assms(1) fs by (auto simp: PInvX_def heapOk_def tableOk_def owned_def)
  qed
  with assms(1) show ?thesis by (auto simp: PInvX_def coreOk_def allOwned_def)
qed

lemma PInv_closeAll:
  fixes s :: "'w rt"
  assumes "PInv M s"
  shows "wp (closeAll H) (\<lambda>_ t. PInv M t \<and> rt_fs t = None \<and> rt_states t = None \<and> rt_closed t) s"
proof -
  define ms where "ms = (case rt_states s of None \<Rightarrow> [] | Some m \<Rightarrow> map snd m)"
  define is0 where "is0 = (case rt_fs s of None \<Rightarrow> [] | Some i \<Rightarrow> [i])"
  let ?s = "s\<lparr>rt_states := None, rt_fs := None, rt_closed := True\<rparr>"
  let ?rest = "filter (\<lambda>i. Some i \<noteq> rt_fs s) ms"
  have X: "PInvX M (set is0 \<union> set ms) ?s" "\<forall>i\<in>set is0. i < length (rt_heap ?s)" "\<forall>i\<in>set ms. i < length (rt_heap s)"
    using assms by (auto simp: PInvX_def guardOk_def restartOk_def ms_def is0_def split: option.splits)
  have empty: "set is0 \<union> set ms - set is0 - set ?rest = {}" by (auto simp: is0_def split: option.splits)
  show ?thesis
    unfolding closeAll_def wp_simps is0_def [symmetric] ms_def [symmetric]
  proof (rule wp_mono [OF PInvX_closeTables [OF X(1,2)]], elim conjE)
    fix u and t :: "'w rt" assume t: "PInvX M (set is0 \<union> set ms - set is0) t" "length (rt_heap t) = length (rt_heap ?s)"
      "rt_fs t = rt_fs ?s" "rt_states t = rt_states ?s" "rt_closed t = rt_closed ?s"
    have "\<forall>i\<in>set ?rest. i < length (rt_heap t)" using X(3) t(2) by simp
    from PInvX_closeTables [OF t(1) this, of H, unfolded empty] show
      "wp (closeTables H ?rest) (\<lambda>_ t. PInv M t \<and> rt_fs t = None \<and> rt_states t = None \<and> rt_closed t) t"
      by (rule wp_mono) (use t in simp)
  qed
qed

section \<open>Runs of a plugin\<close>

text \<open>What the runtime may do with a registered plugin: start it when it is not running, call an import on behalf of an
  instance, report that an instance was closed, stop it. In between the host may change on its own.
  A plugin may be started again after a stop. A panic in \<open>stateFor\<close> leaves the guard locked, so that no
  operation gets past it any more: it ends the run.\<close>

inductive serve :: "'w host \<Rightarrow> config \<Rightarrow> 'w rt \<Rightarrow> 'w rt \<Rightarrow> bool" for H cfg where
  Start: "\<not> s_panic (rt_core s) \<Longrightarrow> rt_fs s = None \<Longrightarrow> run_state (initFS H cfg strict) s = (r, t) \<Longrightarrow> serve H cfg s t"
| Call: "\<not> s_panic (rt_core s) \<Longrightarrow> b \<in> set importBindings \<Longrightarrow> length mem \<le> 4294967296 \<Longrightarrow>
    run_state (callback H cfg b caller mem p) s = (r, t) \<Longrightarrow> serve H cfg s t"
| CloseInstance: "\<not> s_panic (rt_core s) \<Longrightarrow> run_state (closeInstance H k) s = (r, t) \<Longrightarrow> serve H cfg s t"
| Environment: "serve H cfg s (s\<lparr>rt_core := (rt_core s)\<lparr>s_world := w, s_fuel := k\<rparr>\<rparr>)"

inductive pstep :: "'w host \<Rightarrow> config \<Rightarrow> 'w rt \<Rightarrow> 'w rt \<Rightarrow> bool" for H cfg where
  Serve: "serve H cfg s t \<Longrightarrow> pstep H cfg s t"
| Stop: "\<not> s_panic (rt_core s) \<Longrightarrow> run_state (closeAll H) s = (r, t) \<Longrightarrow> pstep H cfg s t"

definition registered :: "bool \<Rightarrow> 'w \<Rightarrow> nat \<Rightarrow> 'w rt" where
  "registered resolver w k = snd (run_state (resetFS resolver)
     \<lparr>rt_core = \<lparr>s_mem = [], s_fs = \<lparr>fs_fds = [], fs_nextFD = 0, fs_maxFDs = 0, fs_cancelled = False, fs_closed = False\<rparr>,
        s_world = w, s_log = [], s_live = {}, s_next = 0, s_panic = False, s_fuel = k, s_stuck = False\<rparr>,
      rt_heap = [], rt_fs = None, rt_resolver = False, rt_states = None, rt_claimed = False, rt_closed = False\<rparr>)"

definition reachable :: "'w host \<Rightarrow> config \<Rightarrow> 'w rt \<Rightarrow> bool" where
  "reachable H cfg s \<longleftrightarrow> (\<exists>resolver w k. (pstep H cfg)\<^sup>*\<^sup>* (registered resolver w k) s)"

text \<open>The states that are reached without a stop.\<close>

definition unstopped :: "'w host \<Rightarrow> config \<Rightarrow> 'w rt \<Rightarrow> bool" where
  "unstopped H cfg s \<longleftrightarrow> (\<exists>resolver w k. (serve H cfg)\<^sup>*\<^sup>* (registered resolver w k) s)"

lemma PInv_registered: "PInv M (registered resolver w k)"
  by (simp add: restartOk_def registered_def resetFS_def PInvX_def coreOk_def allOwned_def heapOk_def guardOk_def)

lemma wpD: "wp m Q s \<Longrightarrow> run_state m s = (r, t) \<Longrightarrow> Q r t"
  by (simp add: wp_def)

lemma PInv_serve:
  assumes "configOk cfg" and "M = mountAuthority cfg" and "PInv M s" and "serve H cfg s t"
  shows "PInv M t"
  using assms(4)
proof cases
  case (Start strict r)
  from wpD [OF PInv_initFS [OF assms(1-3) this(2,1)] this(3)] show ?thesis by simp
next
  case (Call b mem caller p r)
  from wpD [OF PInv_callback [OF assms(1,2) this(3) assms(3) this(1)] this(4)] show ?thesis .
next
  case (CloseInstance k r)
  from wpD [OF PInv_closeInstance [OF assms(3)] this(2)] show ?thesis .
next
  case (Environment w k)
  then show ?thesis using assms(3) by (simp add: PInvX_def coreOk_def restartOk_def)
qed

lemma PInv_step:
  assumes "configOk cfg" and "M = mountAuthority cfg" and "PInv M s" and "pstep H cfg s t"
  shows "PInv M t"
  using assms(4)
proof cases
  case Serve
  with assms(1-3) show ?thesis by (rule PInv_serve)
next
  case (Stop r)
  from wpD [OF PInv_closeAll [OF assms(3)] this(2)] show ?thesis by simp
qed

interpretation plugin: invariant_system "\<lambda>s. \<exists>resolver w k. s = registered resolver w k" "pstep H cfg"
  "\<lambda>s. configOk cfg \<longrightarrow> PInv (mountAuthority cfg) s" for H :: "'w host" and cfg
  by unfold_locales (auto intro: PInv_registered PInv_step)

lemma PInv_reachable: "configOk cfg \<Longrightarrow> reachable H cfg s \<Longrightarrow> PInv (mountAuthority cfg) s"
  using plugin.inv_run [of _ H cfg s] by (auto simp: reachable_def)

lemmas reachable_facts = PInv_reachable [unfolded PInvX_def coreOk_def heapOk_def guardOk_def]

end
