(* ===== verification/Mount_Policy.thy ===== *)
theory Mount_Policy
  imports Fd_Table
begin

text \<open>
  The mount that a file object belongs to. The policies of both previews are stated with it, on the flags of
  the configured mounts: capability root \<open>Suc i\<close> (see \<open>fileid\<close>) stands for the \<open>i\<close>-th mount in the order of the
  guest paths, and no other root belongs to a mount.
\<close>

definition rootMount :: "preopen list \<Rightarrow> nat \<Rightarrow> preopen option" where
  "rootMount mounts root = (case root of 0 \<Rightarrow> None
     | Suc i \<Rightarrow> (if i < length mounts then Some (sort_key GuestPath mounts ! i) else None))"

definition onMount :: "(nat \<Rightarrow> preopen option) \<Rightarrow> fileid \<Rightarrow> (preopen \<Rightarrow> bool) \<Rightarrow> bool" where
  "onMount mounts f P \<longleftrightarrow> (\<exists>m. mounts (fst f) = Some m \<and> P m)"

lemma onMount_mono: "onMount mounts f P \<Longrightarrow> (\<And>m. P m \<Longrightarrow> Q m) \<Longrightarrow> onMount mounts f Q"
  by (auto simp: onMount_def)

end
