(* ===== verification/Plugin_Runs.thy ===== *)
theory Plugin_Runs
  imports Lifecycle Mount_Policy
begin

text \<open>
  The properties of a plugin over every sequence of starts, calls, instance closes, stops and restarts: its host
  calls stay within a policy that is stated on the configuration alone, the only Go panic is that of a
  plugin which was stopped and started again, descriptor quotas hold, instances do
  not see each other's tables, no file handle outlives its descriptor, and a stopped plugin has released
  everything. A small concrete host and configuration serve the witnesses.
\<close>

section \<open>A concrete run\<close>

definition sampleInfo :: finfo where
  "sampleInfo = \<lparr>fi_mode = 0x80000000, fi_size = 0, fi_mtime = 0, fi_sys = None\<rparr>"

text \<open>A host on which every operation succeeds, every file is a directory and every write is complete.\<close>

definition sampleHost :: "unit host" where
  "sampleHost c w = (case c of
      HStat f \<Rightarrow> RInfo sampleInfo
    | HWrite f b \<Rightarrow> RIO [] (int (length b)) None
    | HSysWrite f b \<Rightarrow> RIO [] (int (length b)) None
    | HStreamWrite i b \<Rightarrow> RIO [] (int (length b)) None
    | _ \<Rightarrow> ROk, w)"

definition mountedConfig :: config where
  "mountedConfig = \<lparr>c_Stdout = OsFile (0, 1), c_Stderr = NilStream, c_Stdin = NilStream, c_Args = [], c_Env = [],
     c_Clocks = Some SystemClock, c_Context = Some 0, c_Rand = None,
     c_Mounts = [\<lparr>GuestPath = ''/'', HostPath = ''/srv'', Read = True, Write = False, MutateDirectory = False\<rparr>],
     c_MaxOpenFiles = 4, c_MaxIOVecs = 8, c_MaxSubscriptionsPerPoll = 8\<rparr>"

lemma mountedConfig_ok: "configOk mountedConfig"
  by (simp add: mountedConfig_def configOk_def cfgOk_def streamOk_def packedSize_def)

definition started :: "unit rt" where
  "started = snd (run_state (initFS sampleHost mountedConfig True) (registered True () 4))"

text \<open>Instance 7 closes its preopen.\<close>

definition closeBinding :: binding where "closeBinding = importBindings ! 2"

definition closedPreopen :: "unit rt" where
  "closedPreopen = snd (run_state (callback sampleHost mountedConfig closeBinding (Inr 7) [] [3]) started)"

lemma reachable_registered: "reachable H cfg (registered resolver w k)"
  by (auto simp: reachable_def)

lemma reachable_step: "reachable H cfg s \<Longrightarrow> pstep H cfg s t \<Longrightarrow> reachable H cfg t"
  by (meson reachable_def rtranclp.rtrancl_into_rtrancl)

lemma reachable_call:
  assumes "reachable H cfg s" and "\<not> s_panic (rt_core s)" and "b \<in> set importBindings" and "length mem \<le> 4294967296"
  shows "reachable H cfg (snd (run_state (callback H cfg b caller mem p) s))"
  using assms by (auto intro!: reachable_step [OF assms(1)] pstep.Serve serve.Call [OF assms(2-4)] prod.collapse [symmetric])

lemma reachable_started: "reachable sampleHost mountedConfig started"
proof (rule reachable_step [OF reachable_registered])
  show "pstep sampleHost mountedConfig (registered True () 4) started"
    by (rule pstep.Serve, rule serve.Start [where strict = True and r = "fst (run_state (initFS sampleHost mountedConfig True) (registered True () 4))"])
      (simp_all add: started_def registered_def resetFS_def)
qed

lemma reachable_closed: "reachable sampleHost mountedConfig closedPreopen"
proof -
  have "\<not> s_panic (rt_core started)" by code_simp
  moreover have "closeBinding \<in> set importBindings" by (simp add: closeBinding_def importBindings_def)
  ultimately show ?thesis unfolding closedPreopen_def by (intro reachable_call reachable_started) simp_all
qed

lemma closedPreopen_log: "s_log (rt_core closedPreopen) = [HOsOpen ''/srv'' (1, 0), HStat (1, 0), HClose (1, 0)]"
  by code_simp

section \<open>The policy of a configuration\<close>

text \<open>What the configured mounts permit, independent of descriptor rights. Capability root 0 stands for the configured
  streams, which no mount covers.\<close>

definition openPermitted :: "(nat \<Rightarrow> preopen option) \<Rightarrow> fileid \<Rightarrow> u64 \<Rightarrow> bool" where
  "openPermitted mounts d flags \<longleftrightarrow>
     (flags AND O_CREAT \<noteq> 0 \<longrightarrow> onMount mounts d MutateDirectory) \<and>
     (flags AND O_TRUNC \<noteq> 0 \<longrightarrow> onMount mounts d preopen.Write) \<and>
     (flags AND O_ACCMODE \<noteq> 0 \<longrightarrow> onMount mounts d preopen.Write)"

text \<open>Host paths are opened for the directory of a mount only. Contents and entries are read where the mount is readable,
  contents, sizes, times and flags changed where it is writable, names created, removed, renamed and linked
  where its directories may be changed; the configured streams are only read and written. An open in a directory
  stays beneath it, and a name that the kernel looks up is a single component. Looking at metadata, reading a link
  during resolution, closing, and the clocks need no right.\<close>

fun permitted :: "(nat \<Rightarrow> preopen option) \<Rightarrow> hostcall \<Rightarrow> bool" where
  "permitted mounts (HOsOpen p n) = onMount mounts n (\<lambda>m. absoluteOf (HostPath m) p)"
| "permitted mounts (HRead f n) = (fst f = 0 \<or> onMount mounts f preopen.Read)"
| "permitted mounts (HSysRead f n) = (fst f = 0 \<or> onMount mounts f preopen.Read)"
| "permitted mounts (HReadAt f n off) = onMount mounts f preopen.Read"
| "permitted mounts (HReadDir f n) = onMount mounts f preopen.Read"
| "permitted mounts (HSeek f off whence) = (off = 0 \<and> whence = 1 \<or> onMount mounts f preopen.Read)"
| "permitted mounts (HWrite f b) = (fst f = 0 \<or> onMount mounts f preopen.Write)"
| "permitted mounts (HSysWrite f b) = (fst f = 0 \<or> onMount mounts f preopen.Write)"
| "permitted mounts (HPwrite f b off) = onMount mounts f preopen.Write"
| "permitted mounts (HSync f) = onMount mounts f preopen.Write"
| "permitted mounts (HTruncate f n) = onMount mounts f preopen.Write"
| "permitted mounts (HFallocate f off n) = onMount mounts f preopen.Write"
| "permitted mounts (HSetfl f flags) = onMount mounts f preopen.Write"
| "permitted mounts (HUtimes f name a m nofollow) = ((name = [] \<or> leafName name \<and> nofollow) \<and> onMount mounts f preopen.Write)"
| "permitted mounts (HOpenat2 d name flags mode how n) =
     (fst n = fst d \<and> how = secureResolve \<and> openPermitted mounts d flags)"
| "permitted mounts (HOpenat d name flags mode n) =
     (fst n = fst d \<and> leafName name \<and> flags AND O_NOFOLLOW \<noteq> 0 \<and> openPermitted mounts d flags)"
| "permitted mounts (HDup d n) = (fst n = fst d)"
| "permitted mounts (HReadlinkat d name n) = leafName name"
| "permitted mounts (HMkdirat d name mode) = (leafName name \<and> onMount mounts d MutateDirectory)"
| "permitted mounts (HLinkat d name e name') =
     (leafName name \<and> leafName name' \<and> onMount mounts d MutateDirectory \<and> onMount mounts e MutateDirectory)"
| "permitted mounts (HUnlinkat d name dir) = (leafName name \<and> onMount mounts d MutateDirectory)"
| "permitted mounts (HRenameat d name e name') =
     (renameName name \<and> renameName name' \<and> onMount mounts d MutateDirectory \<and> onMount mounts e MutateDirectory)"
| "permitted mounts (HSymlinkat target d name) = (leafName name \<and> \<not> hasPrefix target ''/'' \<and> onMount mounts d MutateDirectory)"
| "permitted mounts (HStat f) = True"
| "permitted mounts (HFstat f) = True"
| "permitted mounts (HGetfl f) = True"
| "permitted mounts (HClose f) = True"
| "permitted mounts (HPollFile f k) = True"
| "permitted mounts (HStreamRead i n) = True"
| "permitted mounts (HStreamWrite i b) = True"
| "permitted mounts (HStreamReady i k) = True"
| "permitted mounts (HWait ss t) = True"
| "permitted mounts (HPause t) = True"
| "permitted mounts (HClock i k) = True"
| "permitted mounts (HRandom r n) = True"
| "permitted mounts HGetwd = True"
| "permitted mounts HNow = True"
| "permitted mounts HSince = True"
| "permitted mounts HMonoNow = True"

lemma sortedMounts_map: "sortedMounts cfg = map mountOf (sort_key GuestPath (c_Mounts cfg))"
proof -
  have ins: "insort_key m_name (mountOf x) (map mountOf xs) = map mountOf (insort_key GuestPath x xs)" for x xs
    by (induction xs) auto
  have "sort_key m_name (map mountOf xs) = map mountOf (sort_key GuestPath xs)" for xs
    by (induction xs) (simp_all add: ins)
  then show ?thesis by (simp add: sortedMounts_def)
qed

text \<open>The rights of a root, mount by mount.\<close>

definition rightsOf :: "preopen \<Rightarrow> u64" where
  "rightsOf m = m_rights (mountOf m) OR m_inherited (mountOf m)"

lemma mountRights_root:
  "mountRights cfg root = (if root = 0 then 0x8200042 else case rootMount (c_Mounts cfg) root of None \<Rightarrow> 0 | Some m \<Rightarrow> rightsOf m)"
  by (cases root) (simp_all add: mountRights_def rootMount_def sortedMounts_map rightsOf_def)

lemma mountAuthority_need:
  "hasRight (mountAuthority cfg) f r \<Longrightarrow> r \<noteq> 0 \<Longrightarrow> 0x8200042 AND r = r \<and> fst f = 0 \<or> onMount (rootMount (c_Mounts cfg)) f (\<lambda>m. rightsOf m AND r = r)"
  "hasAny (mountAuthority cfg) f r \<Longrightarrow> 0x8200042 AND r \<noteq> 0 \<and> fst f = 0 \<or> onMount (rootMount (c_Mounts cfg)) f (\<lambda>m. rightsOf m AND r \<noteq> 0)"
  by (auto simp: hasRight_def hasAny_def mountAuthority_def mountRights_root onMount_def split: if_splits option.splits)

text \<open>Which configuration flag a right of a mount comes from.\<close>

lemma rightsOf_flags:
  "rightsOf m = (if preopen.Read m then 0x824E0A6 else 0) OR (if preopen.Write m then 0x8D82159 else 0) OR (if MutateDirectory m then 0x7031E00 else 0)"
  by (cases "preopen.Read m"; cases "preopen.Write m"; cases "MutateDirectory m") (simp_all add: rightsOf_def mountOf_def rights_masks)

text \<open>What the descriptor rights of \<open>mountAuthority\<close> allow, the policy permits.\<close>

lemma need_right:
  assumes "hasRight (mountAuthority cfg) f r" and "r \<noteq> 0" and "\<And>m. rightsOf m AND r = r \<Longrightarrow> P m"
  shows "0x8200042 AND r = r \<and> fst f = 0 \<or> onMount (rootMount (c_Mounts cfg)) f P"
  using mountAuthority_need(1) [OF assms(1,2)] assms(3) by (auto simp: onMount_def)

lemma need_any:
  assumes "hasAny (mountAuthority cfg) f r" and "\<And>m. rightsOf m AND r \<noteq> 0 \<Longrightarrow> P m"
  shows "0x8200042 AND r \<noteq> 0 \<and> fst f = 0 \<or> onMount (rootMount (c_Mounts cfg)) f P"
  using mountAuthority_need(2) [OF assms(1)] assms(2) by (auto simp: onMount_def)

lemma need_read:
  "hasRight (mountAuthority cfg) f 0x2 \<Longrightarrow> fst f = 0 \<or> onMount (rootMount (c_Mounts cfg)) f preopen.Read"
  "hasRight (mountAuthority cfg) f 0x4 \<Longrightarrow> onMount (rootMount (c_Mounts cfg)) f preopen.Read"
  "hasRight (mountAuthority cfg) f 0x6 \<Longrightarrow> onMount (rootMount (c_Mounts cfg)) f preopen.Read"
  "hasRight (mountAuthority cfg) f 0x4000 \<Longrightarrow> onMount (rootMount (c_Mounts cfg)) f preopen.Read"
  by ((drule need_right need_any; simp add: rightsOf_flags split: if_splits)+)

lemma need_write:
  "hasRight (mountAuthority cfg) f 0x40 \<Longrightarrow> fst f = 0 \<or> onMount (rootMount (c_Mounts cfg)) f preopen.Write"
  "hasRight (mountAuthority cfg) f 0x44 \<Longrightarrow> onMount (rootMount (c_Mounts cfg)) f preopen.Write"
  "hasRight (mountAuthority cfg) f 0x8 \<Longrightarrow> onMount (rootMount (c_Mounts cfg)) f preopen.Write"
  "hasRight (mountAuthority cfg) f 0x100 \<Longrightarrow> onMount (rootMount (c_Mounts cfg)) f preopen.Write"
  "hasRight (mountAuthority cfg) f 0x80000 \<Longrightarrow> onMount (rootMount (c_Mounts cfg)) f preopen.Write"
  "hasRight (mountAuthority cfg) f 0x400000 \<Longrightarrow> onMount (rootMount (c_Mounts cfg)) f preopen.Write"
  "hasAny (mountAuthority cfg) f 0x11 \<Longrightarrow> onMount (rootMount (c_Mounts cfg)) f preopen.Write"
  "hasAny (mountAuthority cfg) f 0x900000 \<Longrightarrow> onMount (rootMount (c_Mounts cfg)) f preopen.Write"
  by ((drule need_right need_any; simp add: rightsOf_flags split: if_splits)+)

lemma need_mutate:
  "hasRight (mountAuthority cfg) f 0x200 \<Longrightarrow> onMount (rootMount (c_Mounts cfg)) f MutateDirectory"
  "hasRight (mountAuthority cfg) f 0x400 \<Longrightarrow> onMount (rootMount (c_Mounts cfg)) f MutateDirectory"
  "hasRight (mountAuthority cfg) f 0x800 \<Longrightarrow> onMount (rootMount (c_Mounts cfg)) f MutateDirectory"
  "hasRight (mountAuthority cfg) f 0x1000 \<Longrightarrow> onMount (rootMount (c_Mounts cfg)) f MutateDirectory"
  "hasRight (mountAuthority cfg) f 0x10000 \<Longrightarrow> onMount (rootMount (c_Mounts cfg)) f MutateDirectory"
  "hasRight (mountAuthority cfg) f 0x20000 \<Longrightarrow> onMount (rootMount (c_Mounts cfg)) f MutateDirectory"
  "hasRight (mountAuthority cfg) f 0x1000000 \<Longrightarrow> onMount (rootMount (c_Mounts cfg)) f MutateDirectory"
  "hasRight (mountAuthority cfg) f 0x2000000 \<Longrightarrow> onMount (rootMount (c_Mounts cfg)) f MutateDirectory"
  "hasRight (mountAuthority cfg) f 0x4000000 \<Longrightarrow> onMount (rootMount (c_Mounts cfg)) f MutateDirectory"
  by ((drule need_right need_any; simp add: rightsOf_flags split: if_splits)+)

lemma need_open_write:
  assumes "hasRight (mountAuthority cfg) d 0x2000" and "hasAny (mountAuthority cfg) d 0x480140"
  shows "onMount (rootMount (c_Mounts cfg)) d preopen.Write"
proof -
  have "onMount (rootMount (c_Mounts cfg)) d (\<lambda>m. True)" using need_right [OF assms(1)] by simp
  then have "fst d \<noteq> 0" by (auto simp: onMount_def rootMount_def split: nat.splits)
  moreover have "preopen.Write m" if "rightsOf m AND 0x480140 \<noteq> 0" for m
    using that by (simp add: rightsOf_flags split: if_splits)
  ultimately show ?thesis using need_any [OF assms(2), of preopen.Write] by simp
qed

lemma open_permitted: "openFlagsOk (mountAuthority cfg) d flags \<Longrightarrow> openPermitted (rootMount (c_Mounts cfg)) d flags"
  by (auto simp: openFlagsOk_def openPermitted_def dest: need_write need_mutate need_open_write)

lemma opened_root:
  "a_host (mountAuthority cfg) (fst n) = Some host \<Longrightarrow> absoluteOf host p \<Longrightarrow> onMount (rootMount (c_Mounts cfg)) n (\<lambda>m. absoluteOf (HostPath m) p)"
  by (cases "fst n") (auto simp: onMount_def rootMount_def mountAuthority_def mountHost_def sortedMounts_map mountOf_def Let_def split: if_splits)

lemma allowed_permitted:
  assumes "allowed (mountAuthority cfg) c"
  shows "permitted (rootMount (c_Mounts cfg)) c"
  using assms by (cases c) (auto dest: need_read need_write need_mutate open_permitted opened_root split: if_splits)

section \<open>Authority and quotas\<close>

text \<open>C1: capability safety. In every state that a registered plugin reaches, under any host, any behaviour of its
  guests and any sequence of starts, calls, instance closes, stops and restarts (a start follows the registration or a
  stop; a panic ends the run), each host call made so far is one that the configured mounts permit: a path of
  the host is opened only for the directory of a mount; contents are read, contents changed and names changed
  only on mounts with \<open>Read\<close>, \<open>Write\<close> and \<open>MutateDirectory\<close>; opens ask the kernel to stay
  beneath the mount, or name a single component without following it; and the other names that reach the
  kernel are single components. Metadata, link targets, positions that are only asked for, closing and clocks need no right.\<close>

theorem reachable_authority:
  assumes "configOk cfg" and "reachable H cfg s"
  shows "\<forall>c\<in>set (s_log (rt_core s)). permitted (rootMount (c_Mounts cfg)) c"
  using reachable_facts [OF assms] allowed_permitted by blast

theorem reachable_authority_witness:
  "HOsOpen ''/srv'' (1, 0) \<in> set (s_log (rt_core closedPreopen)) \<and>
   onMount (rootMount (c_Mounts mountedConfig)) (1, 0) (\<lambda>m. absoluteOf (HostPath m) ''/srv'')"
proof -
  have "HOsOpen ''/srv'' (1, 0) \<in> set (s_log (rt_core closedPreopen))" unfolding closedPreopen_log by simp
  with reachable_authority [OF mountedConfig_ok reachable_closed] show ?thesis by auto
qed

text \<open>The map of instances is nil only after a stop.\<close>

lemma wp_makeFS_any: "(\<And>r t. Q r t) \<Longrightarrow> wp (makeFS H cfg strict) Q s"
  by (simp add: wp_def split: prod.split)

lemma states_stateFor: "rt_states s \<noteq> None \<Longrightarrow> wp (stateFor H cfg caller) (\<lambda>_ t. rt_states t \<noteq> None) s"
  unfolding stateFor_def tableFor_def instanceState_def
  by (auto simp: wp_simps intro!: wp_makeFS_any split: option.splits sum.splits)

lemma states_onTable: "rt_states s \<noteq> None \<Longrightarrow> wp (onTable i mem m) (\<lambda>_ t. rt_states t \<noteq> None) s"
  by (simp add: wp_def onTable_def split: prod.split)

lemma states_callback: "rt_states s \<noteq> None \<Longrightarrow> wp (callback H cfg b caller mem p) (\<lambda>_ t. rt_states t \<noteq> None) s"
  unfolding callback_def wp_bind
  by (rule wp_mono [OF states_stateFor]) (auto simp: wp_return states_onTable simp del: not_None_eq split: option.splits sum.splits)

lemma serve_states:
  assumes "serve H cfg s t" and "rt_states s \<noteq> None"
  shows "rt_states t \<noteq> None"
  using assms(1)
proof cases
  case (Start strict r)
  have "wp (initFS H cfg strict) (\<lambda>_ t. rt_states t \<noteq> None) s"
    using assms(2) by (auto simp: initFS_def wp_simps intro!: wp_makeFS_any split: sum.splits)
  from wpD [OF this Start(3)] show ?thesis .
next
  case (Call b mem caller p r)
  from wpD [OF states_callback [OF assms(2)] Call(4)] show ?thesis .
next
  case (CloseInstance k r)
  have "wp (closeInstance H k) (\<lambda>_ t. rt_states t \<noteq> None) s"
    using assms(2) by (auto simp: closeInstance_def closeTable_def inCore_def wp_def split_beta split: option.splits)
  from wpD [OF this CloseInstance(2)] show ?thesis .
next
  case (Environment w k)
  then show ?thesis using assms(2) by simp
qed

lemma unstopped_states: "unstopped H cfg s \<Longrightarrow> rt_states s \<noteq> None"
proof -
  have "rt_states t \<noteq> None" if "(serve H cfg)\<^sup>*\<^sup>* s t" "rt_states s \<noteq> None" for s t :: "'a rt"
    using that by (induction rule: rtranclp_induct) (auto dest: serve_states)
  moreover have "rt_states (registered resolver w k) \<noteq> None" for resolver k and w :: 'a
    by (simp add: registered_def resetFS_def)
  ultimately show "unstopped H cfg s \<Longrightarrow> rt_states s \<noteq> None" by (auto simp: unstopped_def)
qed

text \<open>C4: whatever guests pass and the host answers, no slice expression of a handler goes out of range and no nil
  map is assigned to, except in one way: a plugin with a resolver that was stopped and started again has no map of
  instances, and panics there. A plugin that has not been stopped never panics.\<close>

theorem reachable_no_panic:
  assumes "configOk cfg" and "reachable H cfg s" and "s_panic (rt_core s)"
  shows "rt_resolver s \<and> rt_states s = None \<and> \<not> unstopped H cfg s"
  using PInv_reachable [OF assms(1,2)] assms(3) unstopped_states [of H cfg s] by (auto simp: PInvX_def restartOk_def)

text \<open>C7: every descriptor table stays within the configured number of open files and has distinct descriptors,
  and every open file object of the host belongs to a descriptor of some table: no handle leaks.\<close>

theorem reachable_quota:
  assumes "configOk cfg" and "reachable H cfg s" and "fs \<in> set (rt_heap s)"
  shows "distinct (map fst (fs_fds fs)) \<and> length (fs_fds fs) \<le> unat (fs_maxFDs (initialFS cfg)) \<and>
    s_live (rt_core s) \<subseteq> (\<Union>t\<in>set (rt_heap s). \<Union>x\<in>set (fs_fds t). entryFiles (snd x))"
proof -
  from reachable_facts [OF assms(1,2)]
  have "fs_closed fs \<and> fs_fds fs = [] \<or> tableOk (mountAuthority cfg) fs" "s_live (rt_core s) \<subseteq> allOwned (rt_heap s)"
    using assms(3) by auto
  then show ?thesis by (auto simp: tableOk_def mountAuthority_def allOwned_def owned_def)
qed

theorem reachable_quota_witness:
  "rt_heap started ! 0 \<in> set (rt_heap started) \<and> length (fs_fds (rt_heap started ! 0)) \<le> 4 \<and> s_live (rt_core started) = {(1, 0)}"
proof -
  have "length (rt_heap started) = 1" "s_live (rt_core started) = {(1, 0)}" "fs_maxFDs (initialFS mountedConfig) = 4"
    by code_simp+
  then show ?thesis
    using reachable_quota [OF mountedConfig_ok reachable_started, of "rt_heap started ! 0"] by simp
qed

section \<open>Isolation of instances\<close>

text \<open>Resolving the table of a caller only appends to the heap of tables.\<close>

lemma stateFor_frame:
  assumes g: "guardOk {} s" and "lookupState k' s = Some j" and "k \<noteq> k'" and "rt_resolver s"
  shows "wp (stateFor H cfg (Inr k)) (\<lambda>r t. j < length (rt_heap s) \<and> j < length (rt_heap t) \<and> rt_heap t ! j = rt_heap s ! j \<and>
    lookupState k' t = Some j \<and> r \<noteq> Some (Inr j)) s"
proof -
  obtain m where m: "rt_states s = Some m" "map_of m k' = Some j" using assms(2) by (auto simp: lookupState_def split: option.splits)
  have mem: "(k', j) \<in> set m" using m(2) by (rule map_of_SomeD)
  then have j: "j < length (rt_heap s)" using g m(1) by (auto simp: guardOk_def)
  have neq: "i \<noteq> j" if "map_of m k = Some i" for i
  proof
    assume "i = j"
    then have "(k, j) \<in> set m" using that by (auto dest: map_of_SomeD)
    moreover have "inj_on snd (set m)" using g m(1) by (simp add: guardOk_def distinct_map)
    ultimately show False using mem assms(3) by (auto dest!: inj_onD [of _ _ "(k, j)" "(k', j)"])
  qed
  have fs: "i \<noteq> j" if "\<not> rt_claimed s" "rt_fs s = Some i" for i
    using that g m(1) mem by (force simp: guardOk_def)
  show ?thesis
    using assms(3,4) m j neq fs unfolding stateFor_def tableFor_def instanceState_def
    by (auto simp: wp_simps lookupState_def nth_append map_of_update intro!: wp_makeFS_any split: option.splits sum.splits)
qed

lemma onTable_frame:
  assumes "i \<noteq> j"
  shows "wp (onTable i mem m) (\<lambda>_ t. rt_heap t ! j = rt_heap s ! j \<and> rt_states t = rt_states s) s"
  using assms by (simp add: wp_def onTable_def split: prod.split)

text \<open>C3: instances are isolated. A call on behalf of one instance leaves the descriptor table of every other
  instance as it is, whatever the guest passes and the host answers.\<close>

theorem callback_isolated:
  assumes "configOk cfg" and "reachable H cfg s" and "rt_resolver s"
    and "lookupState k' s = Some j" and "k \<noteq> k'"
    and "run_state (callback H cfg b (Inr k) mem p) s = (r, t)"
  shows "lookupState k' t = Some j \<and> rt_heap t ! j = rt_heap s ! j"
proof -
  have g: "guardOk {} s" using PInv_reachable [OF assms(1,2)] by (simp add: PInvX_def)
  have handler: "wp (onTable i mem (handlerCall H cfg (b_handler b) p)) (\<lambda>_ t. lookupState k' t = Some j \<and> rt_heap t ! j = rt_heap s ! j) u"
    if "lookupState k' u = Some j" "rt_heap u ! j = rt_heap s ! j" "i \<noteq> j" for i u
    by (rule wp_mono [OF onTable_frame [OF that(3)]]) (use that in \<open>simp add: lookupState_def\<close>)
  have "wp (callback H cfg b (Inr k) mem p) (\<lambda>_ t. lookupState k' t = Some j \<and> rt_heap t ! j = rt_heap s ! j) s"
    unfolding callback_def wp_bind
    by (rule wp_mono [OF stateFor_frame [OF g assms(4,5,3)]])
      (auto simp: wp_return intro: handler split: sum.splits option.splits)
  from wpD [OF this assms(6)] show ?thesis .
qed

theorem callback_isolated_witness:
  "\<exists>r t. run_state (callback sampleHost mountedConfig closeBinding (Inr 8) [] [3]) closedPreopen = (r, t) \<and>
     lookupState 7 t = Some 0 \<and> map_of (fs_fds (rt_heap t ! 0)) 3 = None \<and> map_of (fs_fds (rt_heap t ! 0)) 1 \<noteq> None"
proof -
  let ?m = "callback sampleHost mountedConfig closeBinding (Inr 8) [] [3]"
  have s: "rt_resolver closedPreopen" "lookupState 7 closedPreopen = Some 0"
    "map_of (fs_fds (rt_heap closedPreopen ! 0)) 3 = None" "map_of (fs_fds (rt_heap closedPreopen ! 0)) 1 \<noteq> None"
    by code_simp+
  obtain r t where t: "run_state ?m closedPreopen = (r, t)" by (cases "run_state ?m closedPreopen") blast
  from callback_isolated [OF mountedConfig_ok reachable_closed s(1,2) _ t] t s(3,4) show ?thesis by auto
qed

section \<open>Closing\<close>

text \<open>C8: a stop releases everything. After \<^verbatim>\<open>closeAll\<close> no file object is open, and every later call of any
  import by any instance makes no host call and reports \<^verbatim>\<open>EBADF\<close> (or returns without a result).\<close>

theorem stop_releases_files:
  assumes "configOk cfg" and "reachable H cfg s" and "run_state (closeAll H) s = (r, t)"
  shows "s_live (rt_core t) = {} \<and>
    run_state (callback H cfg b caller mem p) t = (if b_errno b then Code wasiEBadf else NoResult, t)"
proof -
  from wpD [OF PInv_closeAll [OF PInv_reachable [OF assms(1,2)]] assms(3)]
  have t: "PInv (mountAuthority cfg) t" "rt_fs t = None" "rt_states t = None" "rt_closed t" by simp_all
  then show ?thesis
    using PInv_closed_live [OF t(1-3)]
    by (simp add: callback_def stateFor_def setStateError_def b_results_def)
qed

theorem stop_releases_files_witness:
  "s_live (rt_core started) = {(1, 0)} \<and> s_live (rt_core (snd (run_state (closeAll sampleHost) started))) = {}"
proof -
  have "s_live (rt_core started) = {(1, 0)}" by code_simp
  then show ?thesis
    using stop_releases_files [OF mountedConfig_ok reachable_started prod.collapse [symmetric]] by blast
qed

lemma closeFS_result: "wp (closeFS H fs) (\<lambda>r t. r = fs\<lparr>fs_cancelled := True, fs_closed := True, fs_fds := []\<rparr>) s"
  by (simp add: closeFS_def wp_simps) (simp add: wp_def split: prod.split)

text \<open>C32: when an instance is closed its descriptor table is closed and emptied, and no instance leads to it any
  more.\<close>

theorem closeInstance_closes:
  assumes "configOk cfg" and "reachable H cfg s" and "lookupState k s = Some i"
    and "run_state (closeInstance H k) s = (r, t)"
  shows "fs_closed (rt_heap t ! i) \<and> fs_fds (rt_heap t ! i) = [] \<and> lookupState k t = None \<and>
    (\<forall>k'. lookupState k' t \<noteq> Some i)"
proof -
  have g: "guardOk {} s" using PInv_reachable [OF assms(1,2)] by (simp add: PInvX_def)
  obtain m where m: "rt_states s = Some m" "map_of m k = Some i" using assms(3) by (auto simp: lookupState_def split: option.splits)
  have ki: "(k, i) \<in> set m" using m(2) by (rule map_of_SomeD)
  have inj: "inj_on snd (set m)" and i: "i < length (rt_heap s)" using g m(1) ki by (auto simp: guardOk_def distinct_map)
  have "map_of m k' \<noteq> Some i" if "k' \<noteq> k" for k'
    using that ki inj_onD [OF inj, of "(k, i)" "(k', i)"] by (auto dest: map_of_SomeD)
  then have gone: "map_of (AList.delete k m) k' \<noteq> Some i" for k' by (simp add: map_of_delete_if)
  have "wp (closeInstance H k) (\<lambda>_ t. fs_closed (rt_heap t ! i) \<and> fs_fds (rt_heap t ! i) = [] \<and> rt_states t = Some (AList.delete k m)) s"
    unfolding closeInstance_def closeTable_def
    by (simp add: wp_simps assms(3) m(1)) (rule wp_mono [OF closeFS_result], simp add: i)
  from wpD [OF this assms(4)] gone show ?thesis by (simp add: lookupState_def map_of_delete_if)
qed

theorem closeInstance_closes_witness:
  "lookupState 7 closedPreopen = Some 0 \<and> fs_closed (rt_heap (snd (run_state (closeInstance sampleHost 7) closedPreopen)) ! 0)"
proof -
  have "lookupState 7 closedPreopen = Some 0" by code_simp
  then show ?thesis
    using closeInstance_closes [OF mountedConfig_ok reachable_closed _ prod.collapse [symmetric]] by blast
qed

lemma closeTables_guard:
  "rt_states (snd (run_state (closeTables H is) s)) = rt_states s \<and> rt_resolver (snd (run_state (closeTables H is) s)) = rt_resolver s"
  by (induction "is" arbitrary: s) (simp_all add: closeTable_def inCore_def split_beta)

text \<open>C39: a plugin with a resolver that is started again after a stop cannot serve: \<^verbatim>\<open>closeAll\<close> leaves
  the instance map nil, \<^verbatim>\<open>initFS\<close> reopens the guard without a new map, and the first call, of any import by any
  instance, assigns to the nil map, which panics in Go.\<close>

theorem restart_panics:
  assumes "rt_resolver s" and "run_state (closeAll H) s = (u, t)" and "run_state (initFS H cfg strict) t = (None, v)"
  shows "s_panic (rt_core (snd (run_state (callback H cfg b (Inr k) mem p) v)))"
proof -
  have "t = snd (run_state (closeAll H) s)" using assms(2) by simp
  then have "rt_states t = None" "rt_resolver t" using assms(1) by (simp_all add: closeAll_def split_beta closeTables_guard)
  with assms(3) have v: "rt_states v = None" "rt_resolver v" "rt_fs v \<noteq> None" "\<not> rt_closed v" "\<not> rt_claimed v"
    by (auto simp: initFS_def inCore_def newTable_def split_beta split: sum.splits)
  then show ?thesis
    by (auto simp: callback_def stateFor_def tableFor_def instanceState_def lookupState_def putState_def)
qed

theorem restart_panics_witness:
  "\<exists>u t v. run_state (closeAll sampleHost) started = (u, t) \<and> run_state (initFS sampleHost mountedConfig True) t = (None, v) \<and>
     s_panic (rt_core (snd (run_state (callback sampleHost mountedConfig closeBinding (Inr 7) [] [3]) v)))"
proof -
  obtain u t where t: "run_state (closeAll sampleHost) started = (u, t)" by (cases "run_state (closeAll sampleHost) started")
  have "fst (run_state (initFS sampleHost mountedConfig True) (snd (run_state (closeAll sampleHost) started))) = None" by code_simp
  then obtain v where v: "run_state (initFS sampleHost mountedConfig True) t = (None, v)" using t by (auto simp: prod_eq_iff)
  have "rt_resolver started" by code_simp
  from restart_panics [OF this t v] t v show ?thesis by blast
qed

text \<open>The same run shows that the panic of a reachable state is the one described above: \<open>restarted\<close> is the sample plugin
  after a start, a stop, a start and a call.\<close>

definition stopped :: "unit rt" where "stopped = snd (run_state (closeAll sampleHost) started)"

definition restarted :: "unit rt" where
  "restarted = snd (run_state (callback sampleHost mountedConfig closeBinding (Inr 7) [] [3])
     (snd (run_state (initFS sampleHost mountedConfig True) stopped)))"

lemma reachable_restarted: "reachable sampleHost mountedConfig restarted"
proof -
  have b: "closeBinding \<in> set importBindings" by (simp add: closeBinding_def importBindings_def)
  have p: "\<not> s_panic (rt_core started)" "\<not> s_panic (rt_core stopped)" "rt_fs stopped = None"
    "\<not> s_panic (rt_core (snd (run_state (initFS sampleHost mountedConfig True) stopped)))" by code_simp+
  have "pstep sampleHost mountedConfig started stopped"
    unfolding stopped_def by (rule pstep.Stop [OF p(1) prod.collapse [symmetric]])
  then have "reachable sampleHost mountedConfig stopped" using reachable_started by (blast intro: reachable_step)
  then have "reachable sampleHost mountedConfig (snd (run_state (initFS sampleHost mountedConfig True) stopped))"
    using serve.Start [OF p(2,3) prod.collapse [symmetric]] by (blast intro: reachable_step pstep.Serve)
  then show ?thesis unfolding restarted_def by (intro reachable_call p b) simp_all
qed

theorem reachable_no_panic_witness:
  "s_panic (rt_core restarted) \<and> rt_resolver restarted \<and> rt_states restarted = None \<and> \<not> unstopped sampleHost mountedConfig restarted"
proof -
  have "s_panic (rt_core restarted)" by code_simp
  then show ?thesis using reachable_no_panic [OF mountedConfig_ok reachable_restarted] by blast
qed

end
