(* ===== verification/Config.thy ===== *)
theory Config
  imports Fd_Table
begin

text \<open>
  The configuration of the Preview 1 provider in \<^verbatim>\<open>core.go\<close>: the scan for unpaired surrogate escapes, the
  shape check of the JSON token stream, and the translation of the decoded plugin configuration into the
  configuration the handlers use, with the functions of \<^verbatim>\<open>unicode/utf8\<close> that it calls.
\<close>

section \<open>Standard library functions\<close>

text \<open>\<^verbatim>\<open>utf8.RuneCountInString\<close>: a byte that does not start a well-formed sequence counts as one rune.\<close>

definition inRange :: "char \<Rightarrow> nat \<Rightarrow> nat \<Rightarrow> bool" where
  "inRange c lo hi \<longleftrightarrow> lo \<le> (of_char c :: nat) \<and> (of_char c :: nat) \<le> hi"

fun runeWidth :: "string \<Rightarrow> nat" where
  "runeWidth (a # b # c # d # s) =
     (if inRange a 0xF0 0xF4 \<and> inRange b (if of_char a = (0xF0 :: nat) then 0x90 else 0x80)
           (if of_char a = (0xF4 :: nat) then 0x8F else 0xBF) \<and> inRange c 0x80 0xBF \<and> inRange d 0x80 0xBF then 4
      else runeWidth [a, b, c])"
| "runeWidth [a, b, c] =
     (if inRange a 0xE0 0xEF \<and> inRange b (if of_char a = (0xE0 :: nat) then 0xA0 else 0x80)
           (if of_char a = (0xED :: nat) then 0x9F else 0xBF) \<and> inRange c 0x80 0xBF then 3
      else runeWidth [a, b])"
| "runeWidth [a, b] = (if inRange a 0xC2 0xDF \<and> inRange b 0x80 0xBF then 2 else 1)"
| "runeWidth _ = 1"

lemma runeWidth_bounds: "1 \<le> runeWidth s" "runeWidth s \<le> 4"
  by (induction s rule: runeWidth.induct) auto

function runeCount :: "string \<Rightarrow> nat" where
  "runeCount s = (if s = [] then 0 else Suc (runeCount (drop (runeWidth s) s)))"
  by pat_completeness auto
termination runeCount
  by (relation "measure length") (use runeWidth_bounds in \<open>auto simp: Suc_le_eq\<close>)

declare runeCount.simps [simp del]

section \<open>Surrogate escapes\<close>

definition hexDigit :: "char \<Rightarrow> u16 option" where
  "hexDigit d =
     (if inRange d 0x30 0x39 then Some (of_nat (of_char d - 0x30))
      else if inRange d 0x61 0x66 then Some (of_nat (of_char d - 0x61) + 10)
      else if inRange d 0x41 0x46 then Some (of_nat (of_char d - 0x41) + 10)
      else None)"

fun hexValue :: "u16 \<Rightarrow> string \<Rightarrow> u16 option" where
  "hexValue v [] = Some v"
| "hexValue v (d # ds) = (case hexDigit d of None \<Rightarrow> None | Some x \<Rightarrow> hexValue (push_bit 4 v OR x) ds)"

definition configJSONEscapeCodeUnit :: "string \<Rightarrow> nat \<Rightarrow> u16 option" where
  "configJSONEscapeCodeUnit raw at =
     (if at + 6 > length raw \<or> raw ! at \<noteq> CHR 0x5C \<or> raw ! (at + 1) \<noteq> CHR ''u'' then None
      else hexValue 0 (take 4 (drop (at + 2) raw)))"

function surrogateScan :: "string \<Rightarrow> bool \<Rightarrow> nat \<Rightarrow> bool" where
  "surrogateScan raw inString i =
     (if i \<ge> length raw then True
      else if raw ! i = CHR 0x22 then surrogateScan raw (\<not> inString) (i + 1)
      else if raw ! i = CHR 0x5C then
        (if \<not> inString \<or> i + 1 \<ge> length raw then surrogateScan raw inString (i + 1)
         else if raw ! (i + 1) \<noteq> CHR ''u'' then surrogateScan raw inString (i + 2)
         else (case configJSONEscapeCodeUnit raw i of
             None \<Rightarrow> surrogateScan raw inString (i + 1)
           | Some first \<Rightarrow>
               if first \<ge> 0xd800 \<and> first \<le> 0xdbff then
                 (case configJSONEscapeCodeUnit raw (i + 6) of
                    None \<Rightarrow> False
                  | Some second \<Rightarrow>
                      if second < 0xdc00 \<or> second > 0xdfff then False
                      else surrogateScan raw inString (i + 12))
               else if first \<ge> 0xdc00 \<and> first \<le> 0xdfff then False
               else surrogateScan raw inString (i + 6)))
      else surrogateScan raw inString (i + 1))"
  by pat_completeness auto
termination surrogateScan
  by (relation "measure (\<lambda>(raw, inString, i). length raw - i)") auto

declare surrogateScan.simps [simp del]

text \<open>\<open>True\<close> is the nil error.\<close>

definition validateConfigSurrogateEscapes :: "string \<Rightarrow> bool" where
  "validateConfigSurrogateEscapes raw = surrogateScan raw False 0"

section \<open>The shape of the JSON tokens\<close>

text \<open>The tokens a \<^verbatim>\<open>json.Decoder\<close> delivers before its first error or the end of the input.\<close>

datatype jtok = JDelim char | JString string | JBool bool | JNumber string | JNull

text \<open>\<^verbatim>\<open>dec.More()\<close>: another element follows in the current array or object.\<close>

definition jmore :: "jtok list \<Rightarrow> bool" where
  "jmore toks \<longleftrightarrow> toks \<noteq> [] \<and> hd toks \<noteq> JDelim (CHR 0x5D) \<and> hd toks \<noteq> JDelim (CHR 0x7D)"

datatype jkind = configObject | mountObject | envArray | mountArray | stringValue | boolValue | numberValue

definition configField :: "jkind \<Rightarrow> string \<Rightarrow> (u16 \<times> jkind) option" where
  "configField kind key =
     (if kind = configObject then
        (if key = ''stdin'' then Some (1, stringValue)
         else if key = ''stdout'' then Some (2, stringValue)
         else if key = ''stderr'' then Some (4, stringValue)
         else if key = ''env'' then Some (8, envArray)
         else if key = ''mounts'' then Some (16, mountArray)
         else if key = ''maxOpenFiles'' then Some (32, numberValue)
         else if key = ''maxIOVecs'' then Some (64, numberValue)
         else if key = ''maxSubscriptionsPerPoll'' then Some (128, numberValue)
         else None)
      else
        (if key = ''guest'' then Some (1, stringValue)
         else if key = ''host'' then Some (2, stringValue)
         else if key = ''read'' then Some (4, boolValue)
         else if key = ''write'' then Some (8, boolValue)
         else if key = ''mutateDirectory'' then Some (16, boolValue)
         else None))"

definition arrayShape :: "jkind \<Rightarrow> jkind \<times> nat" where
  "arrayShape kind = (if kind = mountArray then (mountObject, 64) else (stringValue, 4096))"

text \<open>The recursion consumes tokens; the first argument bounds its depth, and the number of tokens plus
  one is always enough. The result is the rest of the tokens, or \<open>None\<close> for an error.\<close>

fun jvalue :: "nat \<Rightarrow> jkind \<Rightarrow> jtok list \<Rightarrow> jtok list option"
  and jobject :: "nat \<Rightarrow> jkind \<Rightarrow> u16 \<Rightarrow> jtok list \<Rightarrow> jtok list option"
  and jarray :: "nat \<Rightarrow> jkind \<Rightarrow> nat \<Rightarrow> nat \<Rightarrow> jtok list \<Rightarrow> jtok list option" where
  "jvalue 0 kind toks = None"
| "jvalue (Suc n) kind toks = (case toks of [] \<Rightarrow> None | t # ts \<Rightarrow>
     (case kind of
        stringValue \<Rightarrow> (case t of JString s \<Rightarrow> Some ts | _ \<Rightarrow> None)
      | boolValue \<Rightarrow> (case t of JBool b \<Rightarrow> Some ts | _ \<Rightarrow> None)
      | numberValue \<Rightarrow> (case t of JNumber s \<Rightarrow> Some ts | _ \<Rightarrow> None)
      | configObject \<Rightarrow> (if t \<noteq> JDelim (CHR 0x7B) then None else jobject n kind 0 ts)
      | mountObject \<Rightarrow> (if t \<noteq> JDelim (CHR 0x7B) then None else jobject n kind 0 ts)
      | envArray \<Rightarrow> (if t \<noteq> JDelim (CHR 0x5B) then None
          else jarray n (fst (arrayShape kind)) (snd (arrayShape kind)) 0 ts)
      | mountArray \<Rightarrow> (if t \<noteq> JDelim (CHR 0x5B) then None
          else jarray n (fst (arrayShape kind)) (snd (arrayShape kind)) 0 ts)))"
| "jobject 0 kind seen toks = None"
| "jobject (Suc n) kind seen toks =
     (if jmore toks then
        (case toks of JString key # ts \<Rightarrow>
           (case configField kind key of
              None \<Rightarrow> None
            | Some (flag, child) \<Rightarrow>
                if seen AND flag \<noteq> 0 then None
                else (case jvalue n child ts of None \<Rightarrow> None | Some rest \<Rightarrow> jobject n kind (seen OR flag) rest))
         | _ \<Rightarrow> None)
      else (case toks of [] \<Rightarrow> None | t # ts \<Rightarrow>
        if t \<noteq> JDelim (CHR 0x7D) then None
        else if kind = mountObject \<and> seen AND 3 \<noteq> 3 then None
        else Some ts))"
| "jarray 0 child maxItems count toks = None"
| "jarray (Suc n) child maxItems count toks =
     (if jmore toks then
        (if count \<ge> maxItems then None
         else (case jvalue n child toks of None \<Rightarrow> None | Some rest \<Rightarrow> jarray n child maxItems (Suc count) rest))
      else (case toks of [] \<Rightarrow> None | t # ts \<Rightarrow> if t \<noteq> JDelim (CHR 0x5D) then None else Some ts))"

definition validateConfigJSON :: "jtok list \<Rightarrow> bool" where
  "validateConfigJSON toks = (jvalue (Suc (length toks)) configObject toks = Some [])"

section \<open>Plugin configuration\<close>

record pluginConfig =
  pc_Stdin :: "string option"
  pc_Stdout :: "string option"
  pc_Stderr :: "string option"
  pc_Env :: "string list option"
  pc_Mounts :: "preopen list option"
  pc_MaxOpenFiles :: "u32 option"
  pc_MaxIOVecs :: "u32 option"
  pc_MaxSubscriptions :: "u32 option"

text \<open>The standard streams of the process, and \<^verbatim>\<open>io.Discard\<close>, which implements neither \<^verbatim>\<open>Pollable\<close> nor
  \<^verbatim>\<open>Bytes\<close>.\<close>

definition osStdin :: stream where "osStdin = OsFile (0, 0)"
definition osStdout :: stream where "osStdout = OsFile (0, 1)"
definition osStderr :: stream where "osStderr = OsFile (0, 2)"
definition ioDiscard :: stream where "ioDiscard = CustomStream 0 False False"

definition applyInputMode :: "stream \<Rightarrow> string option \<Rightarrow> string + stream" where
  "applyInputMode src mode =
     (if mode = None \<or> mode = Some ''inherit'' then Inr src
      else if mode = Some ''eof'' then Inr NilStream
      else Inl ''unsupported stdin mode'')"

definition applyOutputMode :: "stream \<Rightarrow> string option \<Rightarrow> string + stream" where
  "applyOutputMode dst mode =
     (if mode = None \<or> mode = Some ''inherit'' then Inr dst
      else if mode = Some ''discard'' then Inr ioDiscard
      else Inl ''unsupported output mode'')"

definition envEntryOk :: "string \<Rightarrow> bool" where
  "envEntryOk item = (case cut item (CHR ''='') of (name, x, ok) \<Rightarrow>
     \<not> (\<not> ok \<or> name = [] \<or> CHR 0x00 \<in> set item \<or> runeCount item > 32768))"

text \<open>On Linux \<^verbatim>\<open>filepath.IsAbs\<close> and \<^verbatim>\<open>filepath.Clean\<close> treat paths as package \<^verbatim>\<open>path\<close> does.\<close>

definition validateMount :: "preopen \<Rightarrow> bool" where
  "validateMount mount \<longleftrightarrow>
     (let guest = GuestPath mount; host = HostPath mount in
      \<not> (length guest = 0 \<or> runeCount guest > 4096 \<or> \<not> hasPrefix guest ''/'' \<or> clean guest \<noteq> guest \<or>
         CHR 0x00 \<in> set guest) \<and>
      \<not> (length host = 0 \<or> runeCount host > 4096 \<or> \<not> hasPrefix host ''/'' \<or> clean host \<noteq> host \<or>
         CHR 0x00 \<in> set host))"

fun mountsOk :: "string list \<Rightarrow> preopen list \<Rightarrow> bool" where
  "mountsOk seen [] = True"
| "mountsOk seen (mount # mounts) =
     (if \<not> validateMount mount then False
      else if GuestPath mount \<in> set seen then False
      else mountsOk (GuestPath mount # seen) mounts)"

definition boundedLimit :: "u32 \<Rightarrow> u32 \<Rightarrow> u32 option \<Rightarrow> u32 option" where
  "boundedLimit lo dflt v = (case v of None \<Rightarrow> Some dflt
     | Some x \<Rightarrow> (if x < lo \<or> x > 65536 then None else Some x))"

definition configFromPluginConfig :: "pluginConfig \<Rightarrow> string + config" where
  "configFromPluginConfig cfg =
     (case applyInputMode osStdin (pc_Stdin cfg) of Inl e \<Rightarrow> Inl e | Inr stdin \<Rightarrow>
      case applyOutputMode osStdout (pc_Stdout cfg) of Inl e \<Rightarrow> Inl e | Inr stdout \<Rightarrow>
      case applyOutputMode osStderr (pc_Stderr cfg) of Inl e \<Rightarrow> Inl e | Inr stderr \<Rightarrow>
      let env = (case pc_Env cfg of None \<Rightarrow> [] | Some e \<Rightarrow> e);
          mounts = (case pc_Mounts cfg of None \<Rightarrow> [] | Some m \<Rightarrow> m) in
      if length env > 4096 then Inl ''env has too many entries''
      else if \<not> list_all envEntryOk env then Inl ''invalid environment entry''
      else if length mounts > 64 then Inl ''mounts has too many entries''
      else if \<not> mountsOk [] mounts then Inl ''invalid mounts''
      else case boundedLimit 3 1024 (pc_MaxOpenFiles cfg) of None \<Rightarrow> Inl ''maxOpenFiles'' | Some maxOpenFiles \<Rightarrow>
      case boundedLimit 1 1024 (pc_MaxIOVecs cfg) of None \<Rightarrow> Inl ''maxIOVecs'' | Some maxIOVecs \<Rightarrow>
      case boundedLimit 1 1024 (pc_MaxSubscriptions cfg) of None \<Rightarrow> Inl ''maxSubscriptionsPerPoll'' | Some maxSubs \<Rightarrow>
      Inr \<lparr>c_Stdout = stdout, c_Stderr = stderr, c_Stdin = stdin, c_Args = [], c_Env = env,
        c_Clocks = Some SystemClock, c_Context = Some 0, c_Rand = None, c_Mounts = mounts,
        c_MaxOpenFiles = maxOpenFiles, c_MaxIOVecs = maxIOVecs, c_MaxSubscriptionsPerPoll = maxSubs\<rparr>)"

definition cloneConfig :: "config \<Rightarrow> config" where
  "cloneConfig cfg =
     (let cfg = (if c_Clocks cfg = None then cfg\<lparr>c_Clocks := Some SystemClock\<rparr> else cfg);
          cfg = (if c_Context cfg = None then cfg\<lparr>c_Context := Some 0\<rparr> else cfg);
          cfg = (if c_MaxIOVecs cfg = 0 then cfg\<lparr>c_MaxIOVecs := 1024\<rparr> else cfg)
      in if c_MaxSubscriptionsPerPoll cfg = 0 then cfg\<lparr>c_MaxSubscriptionsPerPoll := 1024\<rparr> else cfg)"

section \<open>Accepted configurations\<close>

lemma runeCount_length: "length s \<le> 4 * runeCount s"
proof (induction s rule: runeCount.induct)
  case (1 s)
  show ?case
  proof (cases "s = []")
    case False
    have "length s - runeWidth s \<le> 4 * runeCount (drop (runeWidth s) s)" using 1 [OF False] by simp
    moreover have "runeCount s = Suc (runeCount (drop (runeWidth s) s))" using False by (subst runeCount.simps) simp
    ultimately show ?thesis using runeWidth_bounds(2) [of s] by simp
  qed simp
qed

lemma packedSize_bound:
  "\<forall>s\<in>set items. length s \<le> k \<Longrightarrow> packedSize items \<le> length items * Suc k"
  by (induction items) (auto simp: add_mono)

lemma envEntryOk_length: "envEntryOk e \<Longrightarrow> length e \<le> 131072"
  using runeCount_length [of e] by (auto simp: envEntryOk_def split: prod.splits)

lemma validateMount_length: "validateMount m \<Longrightarrow> length (GuestPath m) \<le> 16384"
  using runeCount_length [of "GuestPath m"] by (simp add: validateMount_def Let_def)

lemma mountsOk_iff:
  "mountsOk seen ms \<longleftrightarrow> list_all validateMount ms \<and> distinct (map GuestPath ms) \<and> GuestPath ` set ms \<inter> set seen = {}"
  by (induction ms arbitrary: seen) auto

lemma boundedLimit_Some:
  "boundedLimit lo d v = Some x \<Longrightarrow> lo \<le> d \<Longrightarrow> d \<le> 65536 \<Longrightarrow> lo \<le> x \<and> x \<le> 65536"
  by (auto simp: boundedLimit_def split: option.splits if_splits)

lemma modes_streamOk:
  "applyInputMode osStdin m = Inr s \<Longrightarrow> streamOk s" "applyOutputMode osStdout m = Inr s \<Longrightarrow> streamOk s"
  "applyOutputMode osStderr m = Inr s \<Longrightarrow> streamOk s"
  by (auto simp: applyInputMode_def applyOutputMode_def streamOk_def osStdin_def osStdout_def osStderr_def ioDiscard_def
      split: if_splits)

lemma configFromPluginConfig_ok:
  assumes "configFromPluginConfig pc = Inr cfg" and "packedSize args < 2 ^ 61"
  shows "configOk (cfg\<lparr>c_Args := args\<rparr>)"
    and "3 \<le> c_MaxOpenFiles cfg \<and> c_MaxOpenFiles cfg \<le> 65536"
    and "1 \<le> c_MaxIOVecs cfg \<and> c_MaxIOVecs cfg \<le> 65536"
    and "1 \<le> c_MaxSubscriptionsPerPoll cfg \<and> c_MaxSubscriptionsPerPoll cfg \<le> 65536"
    and "distinct (map GuestPath (c_Mounts cfg))" "\<forall>m\<in>set (c_Mounts cfg). validateMount m"
    and "length (c_Mounts cfg) \<le> 64"
proof -
  from assms(1) obtain si so se where
    streams: "applyInputMode osStdin (pc_Stdin pc) = Inr si" "applyOutputMode osStdout (pc_Stdout pc) = Inr so"
      "applyOutputMode osStderr (pc_Stderr pc) = Inr se" and
    sizes: "length (c_Env cfg) \<le> 4096" "list_all envEntryOk (c_Env cfg)" "length (c_Mounts cfg) \<le> 64"
      "mountsOk [] (c_Mounts cfg)" and
    limits: "boundedLimit 3 1024 (pc_MaxOpenFiles pc) = Some (c_MaxOpenFiles cfg)"
      "boundedLimit 1 1024 (pc_MaxIOVecs pc) = Some (c_MaxIOVecs cfg)"
      "boundedLimit 1 1024 (pc_MaxSubscriptions pc) = Some (c_MaxSubscriptionsPerPoll cfg)" and
    fields: "c_Clocks cfg = Some SystemClock" "c_Stdin cfg = si" "c_Stdout cfg = so" "c_Stderr cfg = se"
    by (simp add: configFromPluginConfig_def Let_def split: sum.splits if_splits option.splits) (auto simp: not_less)
  have "\<forall>e\<in>set (c_Env cfg). length e \<le> 131072" using sizes(2) envEntryOk_length by (auto simp: list_all_iff)
  then have "packedSize (c_Env cfg) \<le> 4096 * Suc 131072"
    using packedSize_bound [of "c_Env cfg" 131072] sizes(1) by (meson le_trans mult_le_mono1)
  then have env: "packedSize (c_Env cfg) < 2 ^ 61" by simp
  have "\<forall>m\<in>set (c_Mounts cfg). length (GuestPath m) < 2 ^ 32"
    using sizes(4) validateMount_length by (fastforce simp: mountsOk_iff list_all_iff)
  with env assms(2) fields modes_streamOk(1) [OF streams(1)] modes_streamOk(2) [OF streams(2)] modes_streamOk(3) [OF streams(3)]
  show "configOk (cfg\<lparr>c_Args := args\<rparr>)"
    by (simp add: configOk_def cfgOk_def)
  show "3 \<le> c_MaxOpenFiles cfg \<and> c_MaxOpenFiles cfg \<le> 65536" "1 \<le> c_MaxIOVecs cfg \<and> c_MaxIOVecs cfg \<le> 65536"
    "1 \<le> c_MaxSubscriptionsPerPoll cfg \<and> c_MaxSubscriptionsPerPoll cfg \<le> 65536"
    using limits [THEN boundedLimit_Some] by simp_all
  show "distinct (map GuestPath (c_Mounts cfg))" "\<forall>m\<in>set (c_Mounts cfg). validateMount m" "length (c_Mounts cfg) \<le> 64"
    using sizes by (auto simp: mountsOk_iff list_all_iff)
qed

section \<open>Clean absolute paths\<close>

definition properName :: "string \<Rightarrow> bool" where
  "properName c \<longleftrightarrow> c \<noteq> [] \<and> CHR ''/'' \<notin> set c \<and> c \<noteq> ''.'' \<and> c \<noteq> ''..''"

fun absPath :: "string list \<Rightarrow> string" where
  "absPath [] = []"
| "absPath (c # cs) = CHR ''/'' # c @ absPath cs"

definition cleanAbs :: "string \<Rightarrow> bool" where
  "cleanAbs out \<longleftrightarrow> out = ''/'' \<or> (\<exists>cs. cs \<noteq> [] \<and> list_all properName cs \<and> out = absPath cs)"

lemma absPath_append [simp]: "absPath (cs @ ds) = absPath cs @ absPath ds"
  by (induction cs) simp_all

lemma absPath_long: "list_all properName cs \<Longrightarrow> cs \<noteq> [] \<Longrightarrow> 2 \<le> length (absPath cs)"
  by (cases cs) (auto simp: properName_def Suc_le_eq)

lemma backtrack_component:
  "CHR ''/'' \<notin> set c \<Longrightarrow> 0 < k \<Longrightarrow> k \<le> length c \<Longrightarrow> pre = [] \<or> 2 \<le> length pre \<Longrightarrow>
     backtrack 1 (pre @ CHR ''/'' # c) (Suc (length pre + k)) = (if pre = [] then 1 else length pre)"
proof (induction k)
  case (Suc k)
  show ?case
  proof (cases "k = 0")
    case True
    have "c ! 0 \<noteq> CHR ''/''" using Suc.prems by (metis Suc_le_lessD nth_mem zero_less_Suc less_le_trans)
    with True Suc.prems show ?thesis by (auto simp: nth_append nth_Cons')
  next
    case False
    have "(pre @ CHR ''/'' # c) ! Suc (length pre + k) = c ! k" by (simp add: nth_append)
    moreover have "c ! k \<noteq> CHR ''/''" using Suc.prems by (metis Suc_le_lessD nth_mem)
    ultimately show ?thesis using Suc False by simp
  qed
qed simp

lemma cleanAbs_backtrack:
  assumes "cleanAbs out" and "1 < length out"
  shows "cleanAbs (take (backtrack 1 out (length out)) out)"
proof -
  from assms obtain cs where cs: "cs \<noteq> []" "list_all properName cs" "out = absPath cs" by (auto simp: cleanAbs_def)
  then obtain ds c where "cs = ds @ [c]" by (metis rev_exhaust)
  with cs have c: "properName c" "list_all properName ds" "out = absPath ds @ CHR ''/'' # c" by simp_all
  have "backtrack 1 (absPath ds @ CHR ''/'' # c) (Suc (length (absPath ds) + length c)) =
      (if absPath ds = [] then 1 else length (absPath ds))"
    using c absPath_long [OF c(2)] by (intro backtrack_component) (auto simp: properName_def, cases ds, simp_all)
  then have "backtrack 1 out (length out) = (if absPath ds = [] then 1 else length (absPath ds))"
    by (simp add: c(3))
  then show ?thesis using c by (cases "ds = []") (auto simp: cleanAbs_def)
qed

lemma firstComponent_proper:
  assumes "s \<noteq> []" and "hd s \<noteq> CHR ''/''" and "\<not> (hd s = CHR ''.'' \<and> atEnd (tl s))"
    and "\<not> (take 2 s = ''..'' \<and> atEnd (drop 2 s))"
  shows "properName (takeWhile (\<lambda>c. c \<noteq> CHR ''/'') s)"
proof -
  let ?c = "takeWhile (\<lambda>c. c \<noteq> CHR ''/'') s"
  let ?r = "dropWhile (\<lambda>c. c \<noteq> CHR ''/'') s"
  have s: "s = ?c @ ?r" by simp
  have r: "atEnd ?r" using hd_dropWhile [of "\<lambda>c. c \<noteq> CHR ''/''" s] by (auto simp: atEnd_def)
  have "?c \<noteq> []" using assms(1,2) by (cases s) auto
  moreover have "CHR ''/'' \<notin> set ?c" by (auto dest: set_takeWhileD)
  moreover have "?c \<noteq> ''.''"
  proof
    assume "?c = ''.''"
    with s have "s = ''.'' @ ?r" by simp
    then have "hd s = CHR ''.''" "tl s = ?r" by (metis append_Cons append_Nil list.sel(1), metis append_Cons append_Nil list.sel(3))
    with assms(3) r show False by simp
  qed
  moreover have "?c \<noteq> ''..''"
  proof
    assume c: "?c = ''..''"
    have "take 2 s = ''..''" "drop 2 s = ?r" using c by (subst s, simp)+
    with assms(4) r show False by simp
  qed
  ultimately show ?thesis by (simp add: properName_def)
qed

lemma cleanAbs_extend:
  assumes "cleanAbs out" and "properName c"
  shows "cleanAbs ((if length out \<noteq> 1 then out @ ''/'' else out) @ c)"
proof (cases "out = ''/''")
  case True
  with assms(2) show ?thesis unfolding cleanAbs_def by (auto intro!: exI [of _ "[c]"])
next
  case False
  with assms(1) obtain cs where cs: "cs \<noteq> []" "list_all properName cs" "out = absPath cs" by (auto simp: cleanAbs_def)
  with absPath_long [OF cs(2,1)] assms(2) show ?thesis
    unfolding cleanAbs_def by (intro disjI2 exI [of _ "cs @ [c]"]) simp
qed

lemma cleanLoop_cleanAbs: "cleanAbs out \<Longrightarrow> cleanAbs (cleanLoop True s out 1)"
proof (induction "length s" arbitrary: s out rule: less_induct)
  case less
  note IH = less.hyps [OF _ less.prems] and IH' = less.hyps
  show ?case
  proof (cases "s = []")
    case True
    then show ?thesis using less.prems by (subst cleanLoop.simps) simp
  next
    case False
    then have d: "length (tl s) < length s" "length (drop 2 s) < length s" by simp_all
    show ?thesis
      apply (subst cleanLoop.simps)
      using False d less.prems IH [OF d(1)] IH [OF d(2)] IH' [OF d(2) cleanAbs_backtrack [OF less.prems]]
        firstComponent_proper [OF False] cleanAbs_extend [OF less.prems]
        IH' [OF dropWhile_shorter [OF False]]
      by (auto simp del: One_nat_def split del: if_split split: if_split)
  qed
qed

lemma clean_absolute:
  assumes "hasPrefix p ''/''" and "clean p = p"
  shows "cleanAbs p"
proof -
  obtain s where p: "p = CHR ''/'' # s" using assms(1) by (cases p) auto
  have "cleanAbs (cleanLoop True s ''/'' 1)" by (rule cleanLoop_cleanAbs) (simp add: cleanAbs_def)
  moreover from this have "cleanLoop True s ''/'' 1 \<noteq> []" by (auto simp: cleanAbs_def) (metis absPath.simps(2) list.distinct(1) neq_Nil_conv)
  ultimately show ?thesis using assms(2) by (simp add: clean_def p Let_def)
qed

section \<open>Properties\<close>

text \<open>C35: a plugin configuration that \<^verbatim>\<open>configFromPluginConfig\<close> accepts gives, with any guest arguments that fit the
  address space, a configuration that satisfies \<open>configOk\<close>, the condition under which the handlers are
  verified; its limits are within the documented bounds, it has at most 64 mounts, and their guest
  paths are pairwise different.\<close>

theorem accepted_config_ok:
  assumes "configFromPluginConfig pc = Inr cfg" and "packedSize args < 2 ^ 61"
  shows "configOk (cfg\<lparr>c_Args := args\<rparr>) \<and>
    3 \<le> c_MaxOpenFiles cfg \<and> c_MaxOpenFiles cfg \<le> 65536 \<and> 1 \<le> c_MaxIOVecs cfg \<and> c_MaxIOVecs cfg \<le> 65536 \<and>
    1 \<le> c_MaxSubscriptionsPerPoll cfg \<and> c_MaxSubscriptionsPerPoll cfg \<le> 65536 \<and>
    length (c_Mounts cfg) \<le> 64 \<and> distinct (map GuestPath (c_Mounts cfg))"
  using configFromPluginConfig_ok [OF assms] by blast

definition samplePluginConfig :: pluginConfig where
  "samplePluginConfig = \<lparr>pc_Stdin = Some ''eof'', pc_Stdout = None, pc_Stderr = Some ''discard'',
     pc_Env = Some [''A=1''], pc_Mounts = Some [\<lparr>GuestPath = ''/'', HostPath = ''/srv/a'', Read = True, Write = False,
       MutateDirectory = False\<rparr>],
     pc_MaxOpenFiles = Some 16, pc_MaxIOVecs = None, pc_MaxSubscriptions = None\<rparr>"

lemma sample_accepted:
  "(case configFromPluginConfig samplePluginConfig of Inl e \<Rightarrow> False | Inr cfg \<Rightarrow> c_MaxOpenFiles cfg = 16)"
  by code_simp

theorem accepted_config_ok_witness:
  "\<exists>cfg. configFromPluginConfig samplePluginConfig = Inr cfg \<and> c_MaxOpenFiles cfg = 16 \<and> configOk (cfg\<lparr>c_Args := [''prog'']\<rparr>)"
proof -
  obtain cfg where "configFromPluginConfig samplePluginConfig = Inr cfg" "c_MaxOpenFiles cfg = 16"
    using sample_accepted by (auto split: sum.splits)
  then show ?thesis using accepted_config_ok [of samplePluginConfig cfg "[''prog'']"] by simp
qed

text \<open>the guest and host paths of an accepted mount are \<^verbatim>\<open>/\<close> or sequences of proper names, each after one
  slash: no empty component, no \<^verbatim>\<open>.\<close> and no \<^verbatim>\<open>..\<close>.\<close>

theorem accepted_mount_paths:
  assumes "validateMount mount"
  shows "(GuestPath mount = ''/'' \<or> (\<exists>cs. cs \<noteq> [] \<and> list_all properName cs \<and> GuestPath mount = absPath cs)) \<and>
    (HostPath mount = ''/'' \<or> (\<exists>cs. cs \<noteq> [] \<and> list_all properName cs \<and> HostPath mount = absPath cs))"
  using assms clean_absolute [of "GuestPath mount"] clean_absolute [of "HostPath mount"]
  by (simp add: validateMount_def Let_def cleanAbs_def)

theorem accepted_mount_paths_witness:
  "validateMount \<lparr>GuestPath = ''/data'', HostPath = ''/srv/a'', Read = True, Write = False, MutateDirectory = False\<rparr> \<and>
   (\<exists>cs. cs \<noteq> [] \<and> list_all properName cs \<and> ''/data'' = absPath cs)"
proof -
  let ?m = "\<lparr>GuestPath = ''/data'', HostPath = ''/srv/a'', Read = True, Write = False, MutateDirectory = False\<rparr>"
  have "validateMount ?m" by code_simp
  then show ?thesis using accepted_mount_paths [of ?m] by simp
qed

end
