(* ===== verification/Config_Json.thy ===== *)
theory Config_Json
  imports Config
begin

text \<open>
  The one-pass shape check \<^verbatim>\<open>validateConfigJSON\<close> against a declarative description of the accepted JSON
  values: the bit mask of seen fields detects exactly the repeated keys, and the depth bound of the model
  is never reached.
\<close>

section \<open>The shape check against JSON values\<close>

text \<open>JSON values, their token sequence, and the values that a kind of the schema describes.\<close>

datatype json = Str string | Num string | Bol bool | Nul | Arr "json list" | Obj "(string \<times> json) list"

fun tokens :: "json \<Rightarrow> jtok list" where
  "tokens (Str s) = [JString s]"
| "tokens (Num s) = [JNumber s]"
| "tokens (Bol b) = [JBool b]"
| "tokens Nul = [JNull]"
| "tokens (Arr xs) = JDelim (CHR 0x5B) # concat (map tokens xs) @ [JDelim (CHR 0x5D)]"
| "tokens (Obj ps) = JDelim (CHR 0x7B) # concat (map (\<lambda>(k, v). JString k # tokens v) ps) @ [JDelim (CHR 0x7D)]"

definition required :: "string set \<Rightarrow> bool" where
  "required keys \<longleftrightarrow> {''guest'', ''host''} \<subseteq> keys"

fun conforms :: "jkind \<Rightarrow> json \<Rightarrow> bool" where
  "conforms kind (Str s) \<longleftrightarrow> kind = stringValue"
| "conforms kind (Num s) \<longleftrightarrow> kind = numberValue"
| "conforms kind (Bol b) \<longleftrightarrow> kind = boolValue"
| "conforms kind Nul \<longleftrightarrow> False"
| "conforms kind (Arr xs) \<longleftrightarrow> kind \<in> {envArray, mountArray} \<and> length xs \<le> snd (arrayShape kind) \<and>
     (\<forall>x\<in>set xs. conforms (fst (arrayShape kind)) x)"
| "conforms kind (Obj ps) \<longleftrightarrow> kind \<in> {configObject, mountObject} \<and> distinct (map fst ps) \<and>
     (kind = mountObject \<longrightarrow> required (fst ` set ps)) \<and>
     (\<forall>(k, v)\<in>set ps. case configField kind k of None \<Rightarrow> False | Some (flag, child) \<Rightarrow> conforms child v)"

definition keyMask :: "jkind \<Rightarrow> string list \<Rightarrow> u16" where
  "keyMask kind keys = fold (\<lambda>k m. m OR fst (the (configField kind k))) keys 0"

definition known :: "jkind \<Rightarrow> string \<Rightarrow> bool" where
  "known kind k \<longleftrightarrow> configField kind k \<noteq> None"

lemma keyMask_snoc [simp]: "keyMask kind [] = 0" "keyMask kind (keys @ [k]) = keyMask kind keys OR fst (the (configField kind k))"
  by (simp_all add: keyMask_def)

lemma flags_disjoint:
  "configField kind k = Some (f, c) \<Longrightarrow> configField kind k' = Some (f', c') \<Longrightarrow> f AND f' \<noteq> 0 \<longleftrightarrow> k = k'"
  unfolding configField_def by (auto split: if_splits)

lemma keyMask_iff:
  assumes "configField kind k = Some (f, c)"
  shows "list_all (known kind) keys \<Longrightarrow> keyMask kind keys AND f \<noteq> 0 \<longleftrightarrow> k \<in> set keys"
proof (induction keys rule: rev_induct)
  case (snoc x keys)
  then obtain f' c' where x: "configField kind x = Some (f', c')" by (auto simp: known_def)
  with snoc show ?case
    using flags_disjoint [OF x assms(1)] by (auto simp: bit.conj_disj_distrib2 or_eq_0_iff)
qed simp

lemma and_three: "(m :: u16) AND 3 = 3 \<longleftrightarrow> bit m 0 \<and> bit m 1"
proof -
  have three: "(3 :: u16) = mask 2" by (simp add: mask_eq_exp_minus_1)
  show ?thesis
  proof
    assume "m AND 3 = 3"
    then have "bit (m AND mask 2) n = bit (mask 2 :: u16) n" for n by (simp add: three)
    from this [of 0] this [of 1] show "bit m 0 \<and> bit m 1" by (simp add: bit_and_iff bit_mask_iff)
  next
    assume "bit m 0 \<and> bit m 1"
    then have "m AND mask 2 = mask 2" by (intro bit_eqI) (auto simp: bit_and_iff bit_mask_iff less_2_cases_iff)
    then show "m AND 3 = 3" by (simp only: three)
  qed
qed

lemma keyMask_required:
  "list_all (known mountObject) keys \<Longrightarrow> keyMask mountObject keys AND 3 = 3 \<longleftrightarrow> required (set keys)"
proof -
  assume a: "list_all (known mountObject) keys"
  let ?m = "keyMask mountObject keys"
  have "?m AND 1 \<noteq> 0 \<longleftrightarrow> ''guest'' \<in> set keys" "?m AND 2 \<noteq> 0 \<longleftrightarrow> ''host'' \<in> set keys"
    using keyMask_iff [OF _ a, of "''guest''" 1 stringValue] keyMask_iff [OF _ a, of "''host''" 2 stringValue]
    by (simp_all add: configField_def)
  moreover have "?m AND 3 = 3 \<longleftrightarrow> ?m AND 1 \<noteq> 0 \<and> ?m AND 2 \<noteq> 0"
    using and_exp_eq_0_iff_not_bit [of ?m 0] and_exp_eq_0_iff_not_bit [of ?m 1] by (simp add: and_three)
  ultimately show ?thesis by (auto simp: required_def)
qed

text \<open>The three functions of the scan on the tokens of values, with enough depth.\<close>

definition accepts :: "json \<Rightarrow> bool" where
  "accepts j \<longleftrightarrow> (\<forall>kind n rest. length (tokens j) < n \<longrightarrow>
     jvalue n kind (tokens j @ rest) = (if conforms kind j then Some rest else None))"

lemma tokens_nonempty: "\<exists>t ts. tokens j = t # ts \<and> t \<noteq> JDelim (CHR 0x5D) \<and> t \<noteq> JDelim (CHR 0x7D)"
  by (cases j) auto

lemma more_tokens [simp]: "jmore (tokens j @ rest)" "jmore (JString k # rest)"
  "\<not> jmore (JDelim (CHR 0x5D) # rest)" "\<not> jmore (JDelim (CHR 0x7D) # rest)"
  using tokens_nonempty [of j] by (auto simp: jmore_def)

lemma jarray_tokens:
  "(\<And>x. x \<in> set xs \<Longrightarrow> accepts x) \<Longrightarrow> length (concat (map tokens xs)) + 1 < n \<Longrightarrow> cnt \<le> mx \<Longrightarrow>
     jarray n child mx cnt (concat (map tokens xs) @ JDelim (CHR 0x5D) # rest) =
       (if cnt + length xs \<le> mx \<and> (\<forall>x\<in>set xs. conforms child x) then Some rest else None)"
proof (induction xs arbitrary: n cnt)
  case Nil
  then show ?case by (cases n) simp_all
next
  case (Cons x xs)
  then obtain k where n: "n = Suc k" by (cases n) simp_all
  have "tokens x \<noteq> []" using tokens_nonempty [of x] by auto
  then have "0 < length (tokens x)" by simp
  then have v: "jvalue k child (tokens x @ r) = (if conforms child x then Some r else None)" for r
    using Cons.prems(1) [of x] Cons.prems(2) n by (simp add: accepts_def)
  have len: "length (concat (map tokens xs)) + 1 < k" using Cons.prems(2) n \<open>0 < length (tokens x)\<close> by (simp del: length_greater_0_conv)
  show ?case
    using Cons.prems Cons.IH [OF Cons.prems(1) len, of "Suc cnt"] n v by (auto simp: Suc_le_eq)
qed

abbreviation (input) pairs :: "(string \<times> json) list \<Rightarrow> jtok list" where
  "pairs ps \<equiv> concat (map (\<lambda>(k, v). JString k # tokens v) ps)"

definition fieldOk :: "jkind \<Rightarrow> string \<times> json \<Rightarrow> bool" where
  "fieldOk kind p = (case configField kind (fst p) of None \<Rightarrow> False | Some (flag, child) \<Rightarrow> conforms child (snd p))"

lemma fieldOk_pair: "fieldOk kind (k, v) = (case configField kind k of None \<Rightarrow> False | Some (flag, child) \<Rightarrow> conforms child v)"
  by (simp add: fieldOk_def split: option.split)

lemma jobject_tokens:
  "(\<And>p. p \<in> set ps \<Longrightarrow> accepts (snd p)) \<Longrightarrow> length (pairs ps) + 1 < n \<Longrightarrow>
   list_all (known kind) keys \<Longrightarrow> distinct keys \<Longrightarrow>
     jobject n kind (keyMask kind keys) (pairs ps @ JDelim (CHR 0x7D) # rest) =
       (if distinct (keys @ map fst ps) \<and> list_all (fieldOk kind) ps \<and>
           (kind = mountObject \<longrightarrow> required (set (keys @ map fst ps))) then Some rest else None)"
proof (induction ps arbitrary: n keys)
  case Nil
  then show ?case using keyMask_required [of keys] by (cases n) auto
next
  case (Cons p ps)
  obtain key v where p: "p = (key, v)" by (cases p)
  from Cons.prems obtain k where n: "n = Suc k" by (cases n) simp_all
  have len: "length (tokens v) < k" "length (pairs ps) + 1 < k" using Cons.prems(2) n p by simp_all
  have v: "jvalue k child (tokens v @ r) = (if conforms child v then Some r else None)" for child r
    using Cons.prems(1) [of p] len p by (simp add: accepts_def)
  have IH: "known kind key \<Longrightarrow> key \<notin> set keys \<Longrightarrow>
     jobject k kind (keyMask kind (keys @ [key])) (pairs ps @ JDelim (CHR 0x7D) # rest) =
       (if distinct ((keys @ [key]) @ map fst ps) \<and> list_all (fieldOk kind) ps \<and>
           (kind = mountObject \<longrightarrow> required (set ((keys @ [key]) @ map fst ps))) then Some rest else None)"
    using Cons.prems len by (intro Cons.IH) simp_all
  show ?case
  proof (cases "configField kind key")
    case None
    then show ?thesis by (simp add: n p fieldOk_pair)
  next
    case (Some fc)
    then obtain f c where fc: "configField kind key = Some (f, c)" by (cases fc) simp
    then have known: "known kind key" by (simp add: known_def)
    note mask = keyMask_iff [OF fc Cons.prems(3)]
    show ?thesis
    proof (cases "key \<in> set keys")
      case True
      then show ?thesis using mask by (simp add: n p fc)
    next
      case False
      then show ?thesis using mask IH [OF known False] by (auto simp: n p fc v fieldOk_pair)
    qed
  qed
qed

lemma accepts_all: "accepts j"
proof (induction j)
  case (Arr xs)
  show ?case
    unfolding accepts_def
  proof (intro allI impI)
    fix kind n rest assume "length (tokens (Arr xs)) < n"
    then obtain k where k: "n = Suc k" "length (concat (map tokens xs)) + 1 < k" by (cases n) simp_all
    show "jvalue n kind (tokens (Arr xs) @ rest) = (if conforms kind (Arr xs) then Some rest else None)"
      using jarray_tokens [of xs k 0, OF Arr k(2)] by (cases kind) (simp_all add: k(1))
  qed
next
  case (Obj ps)
  show ?case
    unfolding accepts_def
  proof (intro allI impI)
    fix kind n rest assume "length (tokens (Obj ps)) < n"
    then obtain k where k: "n = Suc k" "length (pairs ps) + 1 < k" by (cases n) simp_all
    have ps: "accepts (snd p)" if "p \<in> set ps" for p using Obj that by (cases p) auto
    have "(\<forall>(x, v)\<in>set ps. case configField kind x of None \<Rightarrow> False | Some (f, c) \<Rightarrow> conforms c v) \<longleftrightarrow> list_all (fieldOk kind) ps"
      by (simp add: list_all_iff fieldOk_def case_prod_beta)
    then show "jvalue n kind (tokens (Obj ps) @ rest) = (if conforms kind (Obj ps) then Some rest else None)"
      using jobject_tokens [OF ps k(2), of kind "[]"] by (cases kind) (simp_all add: k(1))
  qed
qed (auto simp: accepts_def dest!: less_imp_Suc_add split: jkind.splits)

lemma jvalue_tokens:
  "jvalue (Suc (length (tokens j))) kind (tokens j) = (if conforms kind j then Some [] else None)"
  using accepts_all [of j] unfolding accepts_def by (metis append_Nil2 lessI)

text \<open>C19: on the token stream of a JSON value, \<^verbatim>\<open>validateConfigJSON\<close> succeeds exactly when the value conforms to
  the configuration schema: an object without repeated keys whose fields are known and have the right
  shape, at most 4096 environment entries and 64 mounts, each mount with its two required fields.\<close>

theorem validateConfigJSON_tokens: "validateConfigJSON (tokens j) \<longleftrightarrow> conforms configObject j"
  unfolding validateConfigJSON_def jvalue_tokens by simp

end
