(* ===== verification/Preview1.thy ===== *)
theory Preview1
  imports Plugin_Runs Config_Json
begin

text \<open>
  The properties of the Preview 1 host: what the handlers compute, how descriptor tables and plugin
  objects behave over any sequence of calls, and the behaviour of the loops that depend on the host. Each
  property with hypotheses is followed by a witness on a concrete input.
\<close>

section \<open>Guest memory\<close>

text \<open>C34: the round trip of \<^verbatim>\<open>args_get\<close> and \<^verbatim>\<open>environ_get\<close>. When \<^verbatim>\<open>writeStrings\<close> reports success on separate
  areas for the pointers and the bytes, the guest reads back exactly the strings it was given, and nothing
  but the guest memory has changed.\<close>

theorem writeStrings_roundtrip:
  assumes "length (s_mem s) \<le> 4294967296" and "packedSize items < 2 ^ 61"
    and "unat ptr + 4 * length items \<le> unat buf \<or> unat buf + packedSize items \<le> unat ptr"
    and "\<forall>x\<in>set items. CHR 0x00 \<notin> set x"
    and "run_state (writeStrings ptr buf items) s = (wasiOK, t)"
  shows "readStrings (s_mem t) (unat ptr) (length items) = items \<and> t = s\<lparr>s_mem := s_mem t\<rparr>"
proof (cases "items = []")
  case True
  with assms(5) show ?thesis by (simp add: writeStrings_def readStrings_def)
next
  case False
  have "length items \<le> packedSize items" by (induction items) simp_all
  then have len: "0 + length items < 2 ^ 61" "unat (ucast buf :: u64) + packedSize items < 2 ^ 63"
    using assms(2) unat_u32_bound [of buf] by (linarith, simp del: unat_u32_bound)
  have "fst (run_state (writeStringsLoop ptr 0 (ucast buf) items) s) = wasiOK"
    using assms(5) by (simp add: writeStrings_def)
  from writeStringsLoop_bounds [OF assms(1) len False this]
  have room: "unat ptr + 4 * (0 + length items) \<le> length (s_mem s)" "unat (ucast buf :: u64) + packedSize items \<le> length (s_mem s)"
    by simp_all
  from writeStringsLoop_ok [OF assms(1) room] assms(5)
  have "t = s\<lparr>s_mem := packStrings (unat ptr) (unat buf) items (s_mem s)\<rparr>" by (simp add: writeStrings_def)
  then show ?thesis using readStrings_packStrings [OF _ _ assms(1,3,4)] room by simp
qed

definition sampleState :: "nat \<Rightarrow> fsState \<Rightarrow> 'w \<Rightarrow> 'w st" where
  "sampleState n fs w = \<lparr>s_mem = replicate n 0, s_fs = fs, s_world = w, s_log = [], s_live = {}, s_next = 10,
     s_panic = False, s_fuel = 5, s_stuck = False\<rparr>"

definition emptyFS :: fsState where
  "emptyFS = \<lparr>fs_fds = [], fs_nextFD = 3, fs_maxFDs = 4, fs_cancelled = False, fs_closed = False\<rparr>"

theorem writeStrings_roundtrip_witness:
  "\<exists>t. run_state (writeStrings 0 16 [''ab'', ''c'']) (sampleState 32 emptyFS ()) = (wasiOK, t) \<and>
     readStrings (s_mem t) 0 2 = [''ab'', ''c'']"
proof -
  let ?s = "sampleState 32 emptyFS ()"
  let ?t = "snd (run_state (writeStrings 0 16 [''ab'', ''c'']) ?s)"
  have "fst (run_state (writeStrings 0 16 [''ab'', ''c'']) ?s) = wasiOK" by code_simp
  then have r: "run_state (writeStrings 0 16 [''ab'', ''c'']) ?s = (wasiOK, ?t)" by (metis prod.collapse)
  have "length (s_mem ?s) \<le> 4294967296" by (simp add: sampleState_def)
  from writeStrings_roundtrip [OF this _ _ _ r]
  have "readStrings (s_mem ?t) 0 (length [''ab'', ''c'']) = [''ab'', ''c'']" by simp
  then have "readStrings (s_mem ?t) 0 2 = [''ab'', ''c'']" by (simp add: numeral_2_eq_2)
  with r show ?thesis by blast
qed

text \<open>\<^verbatim>\<open>iovecs\<close> succeeds exactly when the count is within the configured limit, the vector array and every
  buffer lie in the guest memory and the buffers hold less than \<open>2 ^ 32\<close> bytes together; the result is then
  the list of buffers the guest described, in order. It never changes the state.\<close>

theorem iovecs_exact:
  assumes "length (s_mem s) \<le> 4294967296"
  shows "\<exists>bufs code. run_state (iovecs cfg ptr count) s = ((bufs, code), s) \<and>
    (code = wasiOK \<longleftrightarrow> count \<le> c_MaxIOVecs cfg \<and> unat ptr + 8 * unat count \<le> length (s_mem s) \<and>
       (\<forall>i<unat count. bufOk (length (s_mem s)) (guestIovec (s_mem s) (unat ptr) i)) \<and>
       sum_list (map (\<lambda>i. snd (guestIovec (s_mem s) (unat ptr) i)) [0..<unat count]) < 2 ^ 32) \<and>
    (code = wasiOK \<longrightarrow> bufs = map (guestIovec (s_mem s) (unat ptr)) [0..<unat count])"
proof -
  obtain res where "run_state (iovecs cfg ptr count) s = (res, s)"
    "snd res = wasiOK \<longleftrightarrow> count \<le> c_MaxIOVecs cfg \<and> unat ptr + 8 * unat count \<le> length (s_mem s) \<and>
       (\<forall>b\<in>set (map (guestIovec (s_mem s) (unat ptr)) [0..<unat count]). bufOk (length (s_mem s)) b) \<and>
       sum_list (map snd (map (guestIovec (s_mem s) (unat ptr)) [0..<unat count])) < 2 ^ 32"
    "snd res = wasiOK \<longrightarrow> fst res = map (guestIovec (s_mem s) (unat ptr)) [0..<unat count]"
    using iovecs_run [OF assms refl, of cfg ptr count] by blast
  then show ?thesis by (cases res) (auto simp: o_def)
qed

definition sampleConfig :: config where
  "sampleConfig = cloneConfig \<lparr>c_Stdout = NilStream, c_Stderr = NilStream, c_Stdin = NilStream, c_Args = [],
     c_Env = [], c_Clocks = None, c_Context = None, c_Rand = None, c_Mounts = [], c_MaxOpenFiles = 0, c_MaxIOVecs = 0,
     c_MaxSubscriptionsPerPoll = 0\<rparr>"

theorem iovecs_exact_witness:
  "\<exists>bufs. run_state (iovecs sampleConfig 0 1) (sampleState 8 emptyFS ()) = ((bufs, wasiOK), sampleState 8 emptyFS ()) \<and>
     bufs = [(0, 0)]"
proof -
  let ?s = "sampleState 8 emptyFS ()"
  have "snd (fst (run_state (iovecs sampleConfig 0 1) ?s)) = wasiOK" by code_simp
  moreover have "map (guestIovec (s_mem ?s) (unat (0 :: u32))) [0..<unat (1 :: u32)] = [(0, 0)]" by code_simp
  ultimately show ?thesis using iovecs_exact [of ?s sampleConfig 0 1] by (auto simp: sampleState_def)
qed

section \<open>Clocks and errors\<close>

text \<open>the realtime clock is exact or reports an overflow. Seconds and nanoseconds are combined in 64-bit
  arithmetic without ever wrapping around.\<close>

theorem systemRealtime_exact:
  "systemRealtime seconds nanos =
     (if sint seconds < 0 then (0, 1, None)
      else if unat seconds * 1000000000 + unat nanos < 2 ^ 64 then (of_nat (unat seconds * 1000000000 + unat nanos), 1, None)
      else (0, 1, Some ErrClockOverflow))"
proof -
  have top: "unat (- 1 :: u64) = 18446744073709551615" by (simp add: unsigned_minus_1_eq_mask mask_eq_exp_minus_1)
  have "nanos \<le> - 1" by simp
  then have "unat ((NOT 0 - nanos) div 1000000000) = (18446744073709551615 - unat nanos) div 1000000000"
    by (simp add: unat_div unat_sub top)
  moreover have "unat nanos \<le> 18446744073709551615" using \<open>nanos \<le> - 1\<close> unfolding word_le_nat_alt top .
  moreover have "(m - n) div 1000000000 < k \<longleftrightarrow> \<not> k * 1000000000 + n < Suc m" if "n \<le> m" for m n k :: nat
    using that by (simp add: div_less_iff_less_mult) linarith
  ultimately have "seconds > (NOT 0 - nanos) div 1000000000 \<longleftrightarrow> \<not> unat seconds * 1000000000 + unat nanos < 2 ^ 64"
    by (simp add: word_less_nat_alt)
  then show ?thesis by (simp add: systemRealtime_def)
qed

text \<open>every error maps to a WASI error number between 1 and 76, and only the absence of an error maps to
  success.\<close>

theorem errno_range: "errno None = wasiOK \<and> 1 \<le> errno (Some e) \<and> errno (Some e) \<le> 76"
  by (simp add: errno_def platformErrno_def)

text \<open>the time that \<^verbatim>\<open>poll_oneoff\<close> has waited never decreases and saturates at the largest 64-bit value instead of
  wrapping around.\<close>

theorem addElapsed_saturates:
  "unat (addElapsed elapsed measuredAt now) = min (2 ^ 64 - 1) (unat elapsed + nat (saturate64 (now - measuredAt)))"
proof -
  define d where "d = saturate64 (now - measuredAt)"
  have d: "d < 2 ^ 63" by (simp add: d_def saturate64_def)
  have top: "unat (- 1 :: u64) = 18446744073709551615" by (simp add: unsigned_minus_1_eq_mask mask_eq_exp_minus_1)
  show ?thesis
  proof (cases "d > 0")
    case False
    then show ?thesis using unat_u64_bound [of elapsed] by (simp add: addElapsed_def d_def [symmetric] min_def del: unat_u64_bound)
  next
    case True
    with d have "unat (of_int d :: u64) = unat (of_nat (nat d) :: u64)" by simp
    then have u: "unat (of_int d :: u64) = nat d" using d True by (simp add: unat_of_nat nat_less_iff del: of_nat_nat)
    have "elapsed \<le> - 1" by simp
    then have diff: "unat (- 1 - elapsed) = 18446744073709551615 - unat elapsed" by (simp add: unat_sub top)
    show ?thesis
    proof (cases "(of_int d :: u64) > - 1 - elapsed")
      case True
      then have "18446744073709551615 - unat elapsed < nat d" by (simp add: word_less_nat_alt u diff)
      with True \<open>d > 0\<close> show ?thesis by (simp add: addElapsed_def d_def [symmetric] top min_def)
    next
      case False
      then have "nat d \<le> 18446744073709551615 - unat elapsed" by (simp add: word_less_nat_alt u diff not_less)
      then have fit: "unat elapsed + nat d \<le> 18446744073709551615" using unat_u64_bound [of elapsed] by linarith
      then have "unat (elapsed + of_int d) = unat elapsed + nat d" by (simp add: unat_word_ariths u)
      with False \<open>d > 0\<close> fit show ?thesis by (simp add: addElapsed_def d_def [symmetric] min_def)
    qed
  qed
qed

section \<open>Descriptors\<close>

text \<open>C18: the allocator. In a well-formed table \<^verbatim>\<open>alloc\<close> reports \<^verbatim>\<open>EMFILE\<close> and changes nothing exactly when the quota is
  used up; otherwise it stores the entry under a number that was free and touches no other descriptor,
  although the search wraps around at \<open>2 ^ 32\<close>.\<close>

theorem alloc_contract:
  assumes "descriptorsOk (s_fs s)" and "run_state (alloc e) s = (r, t)"
  shows "(case r of
      Inl code \<Rightarrow> code = wasiEMfile \<and> t = s \<and> unat (fs_maxFDs (s_fs s)) \<le> card (dom (map_of (fds s)))
    | Inr fd \<Rightarrow> map_of (fds s) fd = None \<and> map_of (fds t) = (map_of (fds s))(fd \<mapsto> e) \<and> descriptorsOk (s_fs t) \<and>
        card (dom (map_of (fds t))) \<le> unat (fs_maxFDs (s_fs t)))"
proof (cases "allocIn e (s_fs s)")
  case None
  then show ?thesis using assms descriptors.put_None [OF assms(1), of e] by (simp add: run_alloc) auto
next
  case (Some x)
  then obtain fs fd where x: "allocIn e (s_fs s) = Some (fs, fd)" by (cases x) simp
  with assms descriptors.put_Some [OF assms(1) x] descriptors.put_card [OF assms(1) x] show ?thesis
    by (auto simp: run_alloc)
qed

theorem alloc_contract_witness:
  "\<exists>r t. run_state (alloc nilEntry) (sampleState 0 emptyFS ()) = (r, t) \<and> map_of (fds t) 3 = Some nilEntry"
proof -
  let ?s = "sampleState 0 emptyFS ()"
  obtain r t where rt: "run_state (alloc nilEntry) ?s = (r, t)" by (cases "run_state (alloc nilEntry) ?s")
  have "fst (run_state (alloc nilEntry) ?s) = Inr 3" by code_simp
  then have r: "r = Inr 3" using rt by simp
  have "descriptorsOk (s_fs ?s)" by (simp add: sampleState_def emptyFS_def descriptorsOk_def)
  from alloc_contract [OF this rt] rt r show ?thesis by auto
qed

text \<open>The open files of a descriptor, the directory iterator first.\<close>

definition handles :: "fdEntry \<Rightarrow> fileid list" where
  "handles e = (case e_dirIter e of None \<Rightarrow> [] | Some g \<Rightarrow> [g]) @ (case e_file e of None \<Rightarrow> [] | Some g \<Rightarrow> [g])"

lemma closeHandles_run:
  fixes s :: "'w st"
  shows "\<exists>w. snd (run_state (closeOpt H (e_file d)) (snd (run_state (closeOpt H (e_dirIter d)) s))) =
     s\<lparr>s_world := w, s_log := s_log s @ map HClose (handles d), s_live := s_live s - set (handles d)\<rparr>"
  by (cases "e_dirIter d"; cases "e_file d")
    (auto simp: closeOpt_def run_hostClose handles_def Diff_insert2 [symmetric] insert_commute
      intro!: exI [of _ "s_world (snd (run_state (closeOpt H (e_file d)) (snd (run_state (closeOpt H (e_dirIter d)) s))))"])

text \<open>C29: \<^verbatim>\<open>fd_renumber\<close>, in full. It answers \<^verbatim>\<open>EBADF\<close> and changes nothing exactly when the source or the target is not an
  open descriptor or the target is above \<open>2 ^ 31 - 1\<close>. A descriptor renumbered to itself is left as it is. Otherwise
  the directory iterator and the file of the target are closed, in this order, the target gets the entry of the
  source, the source is gone, and nothing else changes.\<close>

theorem fdRenumber_moves:
  fixes s :: "'w st"
  shows "(let src = arg32 p 0; dst = arg32 p 1 in
     if {src, dst} \<subseteq> dom (map_of (fds s)) \<and> unat dst < 2 ^ 31
     then if src = dst then run_state (fdRenumber H cfg p) s = (wasiOK, s)
     else (\<exists>w tbl. let closed = handles (the (map_of (fds s) dst)) in
       run_state (fdRenumber H cfg p) s = (wasiOK, s\<lparr>s_world := w, s_log := s_log s @ map HClose closed,
         s_live := s_live s - set closed, s_fs := (s_fs s)\<lparr>fs_fds := tbl\<rparr>\<rparr>) \<and>
       map_of tbl = (map_of (fds s))(dst := map_of (fds s) src, src := None))
     else run_state (fdRenumber H cfg p) s = (wasiEBadf, s))"
proof -
  let ?src = "arg32 p 0" and ?dst = "arg32 p 1"
  have big: "unat ?dst < 2 ^ 31 \<longleftrightarrow> \<not> ?dst > 0x7fffffff" by (auto simp: word_less_nat_alt)
  show ?thesis
  proof (cases "?src \<notin> dom (map_of (fds s)) \<or> ?dst \<notin> dom (map_of (fds s)) \<or> ?dst > 0x7fffffff \<or> ?src = ?dst")
    case True
    then show ?thesis unfolding Let_def big by (auto simp: fdRenumber_def Let_def run_entry split: option.splits)
  next
    case False
    then obtain f d where fd: "map_of (fds s) ?src = Some f" "map_of (fds s) ?dst = Some d" by auto
    obtain w where w: "snd (run_state (closeOpt H (e_file d)) (snd (run_state (closeOpt H (e_dirIter d)) s))) =
        s\<lparr>s_world := w, s_log := s_log s @ map HClose (handles d), s_live := s_live s - set (handles d)\<rparr>"
      using closeHandles_run [of H d s] by blast
    have "run_state (fdRenumber H cfg p) s =
      (wasiOK, snd (run_state (moveEntry ?src ?dst f) (snd (run_state (closeOpt H (e_file d)) (snd (run_state (closeOpt H (e_dirIter d)) s))))))"
      using False fd by (auto simp: fdRenumber_def Let_def case_prod_beta prod_eq_iff run_entry)
    then show ?thesis
      using False fd unfolding w Let_def big
      by (auto simp: moveEntry_def AList.delete_conv' update_conv' fun_upd_twist
          intro!: exI [of _ w] exI [of _ "AList.delete (arg32 p 0) (AList.update (arg32 p 1) f (fds s))"])
  qed
qed

text \<open>\<^verbatim>\<open>fd_fdstat_set_rights\<close> can only take rights away. It succeeds exactly when the requested rights are subsets
  of the descriptor's rights, then sets exactly them, and never changes another descriptor.\<close>

theorem fdFdstatSetRights_narrows:
  "case run_state (fdFdstatSetRights H cfg p) s of (code, t) \<Rightarrow>
     case map_of (fds s) (arg32 p 0) of
       None \<Rightarrow> code = wasiEBadf \<and> t = s
     | Some f \<Rightarrow>
         if p ! 1 AND NOT (e_rights f) = 0 \<and> p ! 2 AND NOT (e_inheriting f) = 0
         then code = wasiOK \<and> map_of (fds t) = (map_of (fds s))(arg32 p 0 \<mapsto> f\<lparr>e_rights := p ! 1, e_inheriting := p ! 2\<rparr>)
         else code = wasiENotcapable \<and> t = s"
  by (auto simp: fdFdstatSetRights_def putEntry_def Let_def update_conv' split: option.splits)

section \<open>Input and output\<close>

text \<open>C11: a complete \<^verbatim>\<open>fd_write\<close>. On a file whose writes are complete, a valid vector of buffers is written in order,
  each buffer by one host call with exactly the bytes of the guest memory; the number of bytes is stored
  at the result address and the call succeeds.\<close>

theorem fdWrite_complete:
  assumes "length (s_mem s) \<le> 4294967296"
    and "map_of (fds s) (arg32 p 0) = Some f" and "e_rights f AND rightFDWrite = rightFDWrite"
    and "outOf f = OsFile g" and "e_flags f AND 4 = 0"
    and "\<And>b w. snd (asIO (fst (H (HWrite g b) w))) = (int (length b), None)"
    and "run_state (iovecs cfg (arg32 p 1) (arg32 p 2)) s = ((bufs, wasiOK), s)"
    and "unat (arg32 p 3) + 4 \<le> length (s_mem s)"
  shows "\<exists>w. run_state (fdWrite H cfg p) s = (wasiOK, s\<lparr>s_world := w,
    s_log := s_log s @ map (\<lambda>(a, n). HWrite g (mem_slice a n (s_mem s))) bufs,
    s_mem := mem_put (unat (arg32 p 3)) (le_bytes 4 (of_nat (sum_list (map snd bufs)) :: u32)) (s_mem s)\<rparr>)"
proof -
  have "\<forall>b\<in>set bufs. bufOk (length (s_mem s)) b"
    using iovecs_run [OF assms(1) refl, of cfg "arg32 p 1" "arg32 p 2"] assms(7) by auto
  from fdWriteLoop_complete [where H = H and tot = 0, OF assms(5,4,6) this]
  obtain w where w: "run_state (fdWriteLoop H (e_flags f) (OsFile g) 0 bufs) s = ((of_nat (sum_list (map snd bufs)), None),
      s\<lparr>s_world := w, s_log := s_log s @ map (\<lambda>(a, n). HWrite g (mem_slice a n (s_mem s))) bufs\<rparr>)"
    by (auto simp: assms(4))
  have range: "validMemoryRange (s_mem s) (arg32 p 3) 4"
    using assms(1,8) by (simp add: validMemoryRange_iff)
  have "run_state (fdWrite H cfg p) s = (wasiOK, s\<lparr>s_world := w,
    s_log := s_log s @ map (\<lambda>(a, n). HWrite g (mem_slice a n (s_mem s))) bufs,
    s_mem := mem_put (unat (arg32 p 3)) (le_bytes 4 (of_nat (sum_list (map snd bufs)) :: u32)) (s_mem s)\<rparr>)"
    using assms(2,3,4,7,8) w range
    by (simp add: fdWrite_def Let_def putLe32_def memStore_def run_entryRight)
  then show ?thesis by blast
qed

definition writeState :: "unit st" where
  "writeState = sampleState 0 (initialFS mountedConfig) () \<lparr>s_mem := [8, 0, 0, 0, 1, 0, 0, 0, 65] @ replicate 7 0\<rparr>"

theorem fdWrite_complete_witness:
  "\<exists>w. run_state (fdWrite sampleHost mountedConfig [1, 0, 1, 12]) writeState =
     (wasiOK, writeState\<lparr>s_world := w, s_log := [HWrite (0, 1) [65]],
       s_mem := [8, 0, 0, 0, 1, 0, 0, 0, 65, 0, 0, 0, 1, 0, 0, 0]\<rparr>)"
proof -
  let ?f = "snd (stdioEntries mountedConfig ! 1)"
  let ?p = "[1, 0, 1, 12] :: u64 list"
  have f: "map_of (fds writeState) (arg32 ?p 0) = Some ?f" "e_rights ?f AND rightFDWrite = rightFDWrite"
    "outOf ?f = OsFile (0, 1)" "e_flags ?f AND 4 = 0" "length (s_mem writeState) = 16" "s_log writeState = []" "unat (arg32 ?p 3) = 12"
    by code_simp+
  have v: "run_state (iovecs mountedConfig (arg32 ?p 1) (arg32 ?p 2)) writeState = (([(8, 1)], wasiOK), writeState)"
    by code_simp
  have h: "snd (asIO (fst (sampleHost (HWrite (0, 1) b) w))) = (int (length b), None)" for b w by (simp add: sampleHost_def)
  have m: "mem_slice 8 (Suc 0) (s_mem writeState) = [65]"
    "mem_put 12 (le_bytes 4 (1 :: u32)) (s_mem writeState) = [8, 0, 0, 0, 1, 0, 0, 0, 65, 0, 0, 0, 1, 0, 0, 0]"
    by code_simp+
  from fdWrite_complete [OF _ f(1-4) h v] f(5) show ?thesis by (simp add: m f(6,7))
qed

lemma interruptions_last:
  "interruptions H c P n w \<Longrightarrow> \<not> P (fst (H c (((snd \<circ> H c) ^^ n) w)))"
  by (induction n arbitrary: w) (simp_all add: funpow_Suc_right del: funpow.simps(2))

text \<open>C30: the retry loops end. When the host interrupts a non-blocking read \<open>n\<close> times, \<^verbatim>\<open>readNonblocking\<close> with more than \<open>n\<close>
  rounds returns the first uninterrupted answer after \<open>n + 1\<close> system calls, with a negative count
  reported as zero, and is not stuck.\<close>

theorem readNonblocking_returns:
  assumes "interruptions H (HSysRead f len) interruptedIO n (s_world s)" and "n < s_fuel s"
  shows "let w = ((snd \<circ> H (HSysRead f len)) ^^ n) (s_world s); (b, k, err) = asIO (fst (H (HSysRead f len) w)) in
    run_state (readNonblocking H f len) s =
      ((b, max 0 k, err), s\<lparr>s_world := snd (H (HSysRead f len) w), s_log := s_log s @ replicate (Suc n) (HSysRead f len)\<rparr>) \<and>
    err \<noteq> Some (Errno EINTR)"
  using readRetry.loop_returns [OF assms] interruptions_last [OF assms(1)]
  by (auto simp: readNonblocking_def Let_def interruptedIO_def max_def split: prod.splits)

definition interruptingHost :: "nat host" where
  "interruptingHost c n = (if n > 0 then (RErr (Errno EINTR), n - 1) else (RIO [7] 1 None, 0))"

theorem readNonblocking_returns_witness:
  "fst (run_state (readNonblocking interruptingHost (1, 0) 1) (sampleState 0 emptyFS 3)) = ([7], 1, None)"
proof -
  have "interruptions interruptingHost (HSysRead (1, 0) 1) interruptedIO 3 (s_world (sampleState 0 emptyFS 3))"
    "3 < s_fuel (sampleState 0 emptyFS (3 :: nat))"
    by code_simp+
  from readNonblocking_returns [OF this] show ?thesis
    by (simp add: Let_def interruptingHost_def sampleState_def numeral_3_eq_3)
qed

section \<open>Preopened directories\<close>

text \<open>The descriptor of a mount in the words of the Preview 1 witx file: its guest path, the file opened for the host
  path, and the numbers of the rights bits that each flag of the mount grants on the directory and, by
  inheritance, on what is opened in it.\<close>

definition grantedBits :: "preopen \<Rightarrow> nat set" where
  "grantedBits m = (if preopen.Read m then {13, 14, 15, 18, 21, 27} else {}) \<union> (if preopen.Write m then {13, 19, 20, 23} else {}) \<union>
     (if MutateDirectory m then {9, 10, 11, 12, 16, 17, 24, 25, 26} else {})"

definition inheritedBits :: "preopen \<Rightarrow> nat set" where
  "inheritedBits m = (if preopen.Read m then {1, 2, 5, 7, 13, 14, 15, 18, 21, 27} else {}) \<union>
     (if preopen.Write m then {0, 3, 4, 6, 8, 13, 19, 20, 22, 23, 27} else {}) \<union>
     (if MutateDirectory m then {9, 10, 11, 12, 16, 17, 24, 25, 26} else {})"

definition openedFor :: "string \<Rightarrow> nat \<Rightarrow> hostcall list \<Rightarrow> fdEntry \<Rightarrow> bool" where
  "openedFor host root log e \<longleftrightarrow> (\<exists>n p. e_file e = Some (root, n) \<and> e_mount e = p \<and> HOsOpen p (root, n) \<in> set log \<and> absoluteOf host p)"

definition preopenEntry :: "preopen \<Rightarrow> nat \<Rightarrow> hostcall list \<Rightarrow> fdEntry \<Rightarrow> bool" where
  "preopenEntry m root log e \<longleftrightarrow> e_preopen e = GuestPath m \<and> e_reader e = NilStream \<and> e_writer e = NilStream \<and> e_dirIter e = None \<and>
     {b. bit (e_rights e) b} = grantedBits m \<and> {b. bit (e_inheriting e) b} = inheritedBits m \<and> openedFor (HostPath m) root log e"

text \<open>The descriptor of a standard stream: no file, no directory, the rights to look at it, to wait for it, and \<open>b\<close>.\<close>

definition stdioEntry :: "stream \<Rightarrow> stream \<Rightarrow> nat \<Rightarrow> fdEntry \<Rightarrow> bool" where
  "stdioEntry r w b e \<longleftrightarrow> e_reader e = r \<and> e_writer e = w \<and> e_file e = None \<and> e_preopen e = [] \<and>
     {b. bit (e_rights e) b} = {b, 21, 27} \<and> e_inheriting e = 0"

lemma bits_of_list:
  fixes w :: u64
  assumes "list_all (\<lambda>b. bit w b = (b \<in> set bs)) [0..<64]" and "list_all (\<lambda>b. b < 64) bs"
  shows "{b. bit w b} = set bs"
proof -
  have "bit w b = (b \<in> set bs)" if "b < 64" for b using assms(1) that by (simp add: list_all_iff)
  moreover have "\<not> bit w b" if "\<not> b < 64" for b using that by (simp add: not_less impossible_bit)
  moreover have "b \<notin> set bs" if "\<not> b < 64" for b using assms(2) that by (auto simp: list_all_iff)
  ultimately show ?thesis by blast
qed

lemma bits_or: "{b. bit (v OR w :: u64) b} = {b. bit v b} \<union> {b. bit w b}"
  by (auto simp: bit_simps)

lemma bits_if: "{b. bit (if c then w else 0 :: u64) b} = (if c then {b. bit w b} else {})"
  by simp

lemma flag_bits:
  "{b. bit (0x824E000 :: u64) b} = set [13, 14, 15, 18, 21, 27]" "{b. bit (0x982000 :: u64) b} = set [13, 19, 20, 23]"
  "{b. bit (0x7031E00 :: u64) b} = set [9, 10, 11, 12, 16, 17, 24, 25, 26]"
  "{b. bit (0x824E0A6 :: u64) b} = set [1, 2, 5, 7, 13, 14, 15, 18, 21, 27]"
  "{b. bit (0x8D82159 :: u64) b} = set [0, 3, 4, 6, 8, 13, 19, 20, 22, 23, 27]"
  "{b. bit (0x8200002 :: u64) b} = set [1, 21, 27]" "{b. bit (0x8200040 :: u64) b} = set [6, 21, 27]"
  by (rule bits_of_list; code_simp)+

lemma mountOf_rights:
  "m_rights (mountOf m) = (if preopen.Read m then 0x824E000 else 0) OR (if preopen.Write m then 0x982000 else 0) OR
     (if MutateDirectory m then 0x7031E00 else 0)"
  "m_inherited (mountOf m) = (if preopen.Read m then 0x824E0A6 else 0) OR (if preopen.Write m then 0x8D82159 else 0) OR
     (if MutateDirectory m then 0x7031E00 else 0)"
  by (cases "preopen.Read m"; cases "preopen.Write m"; cases "MutateDirectory m"; simp add: mountOf_def rights_masks)+

lemma mountOf_bits:
  "{b. bit (m_rights (mountOf m)) b} = grantedBits m" "{b. bit (m_inherited (mountOf m)) b} = inheritedBits m"
  unfolding mountOf_rights bits_or bits_if flag_bits list.set grantedBits_def inheritedBits_def Un_assoc by (rule refl)+

text \<open>What \<^verbatim>\<open>makeFS\<close> stores for a mount.\<close>

definition preopened :: "mountConfig \<Rightarrow> nat \<Rightarrow> hostcall list \<Rightarrow> fdEntry \<Rightarrow> bool" where
  "preopened m root log e \<longleftrightarrow> e_preopen e = m_name m \<and> e_reader e = NilStream \<and> e_writer e = NilStream \<and> e_dirIter e = None \<and>
     e_rights e = m_rights m \<and> e_inheriting e = m_inherited m \<and> openedFor (m_host m) root log e"

lemma preopened_mono: "preopened m root log e \<Longrightarrow> set log \<subseteq> set log' \<Longrightarrow> preopened m root log' e"
  by (auto simp: preopened_def openedFor_def)

lemma filepathAbs_result:
  "wp (filepathAbs H path) (\<lambda>r t. set (s_log s) \<subseteq> set (s_log t) \<and> (\<forall>p. r = Inr p \<longrightarrow> absoluteOf path p)) s"
  by (auto simp: filepathAbs_def wp_simps absoluteOf_def split: sum.splits prod.splits)

lemma openPreopen_result:
  "wp (openPreopen H root p) (\<lambda>r t. set (s_log s) \<subseteq> set (s_log t) \<and>
     (\<forall>f. r = Inr f \<longrightarrow> fst f = root \<and> HOsOpen p f \<in> set (s_log t))) s"
  by (auto simp: openPreopen_def hostOpen_def wp_simps split: prod.splits option.splits)

lemma openMount_preopened:
  "wp (openMount H root m) (\<lambda>r t. set (s_log s) \<subseteq> set (s_log t) \<and> (\<forall>e. r = Inr e \<longrightarrow> preopened m root (s_log t) e)) s"
proof -
  have entry: "wp (hostStat H f \<bind> (\<lambda>st. if case st of Inl err \<Rightarrow> True | Inr info \<Rightarrow> \<not> isDir info
        then hostClose H f \<bind> (\<lambda>_. ret (Inl ''stat preopen''))
        else ret (Inr (nilEntry\<lparr>e_file := Some f, e_mount := p, e_root := hostMountRoot p,
                e_preopen := m_name m, e_rights := m_rights m, e_inheriting := m_inherited m\<rparr>))))
      (\<lambda>r t. set (s_log s) \<subseteq> set (s_log t) \<and> (\<forall>e. r = Inr e \<longrightarrow> preopened m root (s_log t) e)) u"
    if "set (s_log s) \<subseteq> set (s_log u)" "fst f = root" "HOsOpen p f \<in> set (s_log u)" "absoluteOf (m_host m) p" for f p u
    using that by (cases f) (auto simp: hostStat_def hostClose_def preopened_def openedFor_def nilEntry_def wp_simps split: sum.splits)
  have opened: "wp (openPreopen H root p \<bind> case_sum (\<lambda>err. ret (Inl ''open preopen'')) (\<lambda>f. hostStat H f \<bind>
        (\<lambda>st. if case st of Inl err \<Rightarrow> True | Inr info \<Rightarrow> \<not> isDir info then hostClose H f \<bind> (\<lambda>_. ret (Inl ''stat preopen''))
          else ret (Inr (nilEntry\<lparr>e_file := Some f, e_mount := p, e_root := hostMountRoot p,
                e_preopen := m_name m, e_rights := m_rights m, e_inheriting := m_inherited m\<rparr>)))))
      (\<lambda>r t. set (s_log s) \<subseteq> set (s_log t) \<and> (\<forall>e. r = Inr e \<longrightarrow> preopened m root (s_log t) e)) u"
    if "set (s_log s) \<subseteq> set (s_log u)" "absoluteOf (m_host m) p" for p u
    unfolding wp_bind [of "openPreopen H root p"]
    by (rule wp_mono [OF openPreopen_result]) (use that entry in \<open>force simp: wp_return split: sum.splits\<close>)
  show ?thesis
    unfolding openMount_def wp_bind [of "filepathAbs H (m_host m)"]
    by (rule wp_mono [OF filepathAbs_result]) (use opened in \<open>auto simp: wp_return split: sum.splits\<close>)
qed

lemma update_fresh: "k \<notin> fst ` set xs \<Longrightarrow> AList.update k v xs = xs @ [(k, v)]"
  by (induction xs) auto

text \<open>\<open>fs'\<close> extends \<open>fs\<close> by one descriptor per mount, numbered consecutively.\<close>

definition extends :: "fsState \<Rightarrow> nat \<Rightarrow> mountConfig list \<Rightarrow> hostcall list \<Rightarrow> fsState \<Rightarrow> bool" where
  "extends fs i mounts log fs' \<longleftrightarrow> (\<exists>es. length es = length mounts \<and> (\<forall>j<length es. preopened (mounts ! j) (Suc (i + j)) log (es ! j)) \<and>
     fs_fds fs' = fs_fds fs @ zip (map of_nat [length (fs_fds fs)..<length (fs_fds fs) + length es]) es)"

lemma extends_Cons:
  assumes "preopened m (Suc i) log e" and "extends (fs\<lparr>fs_nextFD := n, fs_fds := fs_fds fs @ [(of_nat (length (fs_fds fs)), e)]\<rparr>) (Suc i) mounts log fs'"
  shows "extends fs i (m # mounts) log fs'"
proof -
  let ?n = "length (fs_fds fs)"
  from assms(2) obtain es where es: "length es = length mounts" "\<forall>j<length es. preopened (mounts ! j) (Suc (Suc i + j)) log (es ! j)"
    "fs_fds fs' = (fs_fds fs @ [(of_nat ?n, e)]) @ zip (map of_nat [Suc ?n..<Suc ?n + length es]) es"
    by (auto simp: extends_def simp del: upt_Suc)
  then have "length (e # es) = length (m # mounts)"
    "\<forall>j<length (e # es). preopened ((m # mounts) ! j) (Suc (i + j)) log ((e # es) ! j)"
    using assms(1) by (auto simp: less_Suc_eq_0_disj)
  moreover have "fs_fds fs' = fs_fds fs @ zip (map of_nat [?n..<?n + length (e # es)]) (e # es)"
    using es upt_conv_Cons [of ?n "?n + length (e # es)"] by (simp del: upt_Suc)
  ultimately show ?thesis unfolding extends_def by blast
qed

lemma closeFS_log:
  fixes s :: "'w st"
  shows "set (s_log s) \<subseteq> set (s_log (snd (run_state (closeFS H fs) s)))"
proof -
  define files where "files = concat (map (\<lambda>x. (case e_dirIter (snd x) of None \<Rightarrow> [] | Some f \<Rightarrow> [f]) @
     (case e_file (snd x) of None \<Rightarrow> [] | Some f \<Rightarrow> [f])) (fs_fds fs))"
  obtain w where "snd (run_state (closeFiles H files) s) =
     s\<lparr>s_world := w, s_log := s_log s @ map HClose files, s_live := s_live s - set files\<rparr>" using run_closeFiles [of H files s] by blast
  then show ?thesis by (simp add: closeFS_def closeEntries_def files_def [symmetric] split_beta)
qed

lemma closeFS_error:
  "set (s_log u) \<subseteq> set (s_log s) \<Longrightarrow>
   wp (closeFS H fs) (\<lambda>_. wp (ret (Inl msg)) (\<lambda>r t. set (s_log u) \<subseteq> set (s_log t) \<and> (\<forall>fs'. r = Inr fs' \<longrightarrow> P fs' t))) s"
  using closeFS_log [of s H fs] by (auto simp: wp_run wp_return split_beta)

lemma makeFSLoop_extends:
  assumes "fs_nextFD fs = of_nat (length (fs_fds fs))" and "\<forall>x\<in>set (fs_fds fs). unat (fst x) < length (fs_fds fs)"
    and "length (fs_fds fs) + length mounts < 2 ^ 32"
  shows "wp (makeFSLoop H True fs i mounts)
    (\<lambda>r t. set (s_log s) \<subseteq> set (s_log t) \<and> (\<forall>fs'. r = Inr fs' \<longrightarrow> extends fs i mounts (s_log t) fs')) s"
  using assms
proof (induction mounts arbitrary: fs i s)
  case Nil
  then show ?case by (simp add: wp_simps extends_def)
next
  case (Cons m mounts)
  let ?n = "length (fs_fds fs)"
  have n: "unat (of_nat ?n :: u32) = ?n" using Cons.prems(3) by (simp add: unat_of_nat)
  then have "of_nat ?n \<notin> fst ` set (fs_fds fs)" using Cons.prems(2) by fastforce
  then have fds: "AList.update (fs_nextFD fs) e (fs_fds fs) = fs_fds fs @ [(of_nat ?n, e)]" for e
    unfolding Cons.prems(1) by (rule update_fresh)
  let ?fs = "\<lambda>e. fs\<lparr>fs_nextFD := fs_nextFD fs + 1, fs_fds := fs_fds fs @ [(of_nat ?n, e)]\<rparr>"
  let ?Q = "\<lambda>r t. set (s_log s) \<subseteq> set (s_log t) \<and> (\<forall>fs'. r = Inr fs' \<longrightarrow> extends fs i (m # mounts) (s_log t) fs')"
  have IH: "wp (makeFSLoop H True (?fs e) (Suc i) mounts)
    (\<lambda>r t. set (s_log u) \<subseteq> set (s_log t) \<and> (\<forall>fs'. r = Inr fs' \<longrightarrow> extends (?fs e) (Suc i) mounts (s_log t) fs')) u" for e u
    using Cons.prems n by (intro Cons.IH) (auto simp: less_Suc_eq)
  have rest: "wp (makeFSLoop H True (?fs e) (Suc i) mounts) ?Q u"
    if "preopened m (Suc i) (s_log u) e" "set (s_log s) \<subseteq> set (s_log u)" for e u
    by (rule wp_mono [OF IH]) (use extends_Cons [OF preopened_mono [OF that(1)]] that(2) in blast)
  show ?case
  proof (cases "fs_maxFDs fs \<le> of_nat ?n")
    case True
    then show ?thesis by (simp add: wp_bind closeFS_error)
  next
    case False
    then show ?thesis
      by (simp add: wp_bind Let_def fds)
        (rule wp_mono [OF openMount_preopened], auto simp: wp_bind rest closeFS_error split: sum.splits)
  qed
qed

text \<open>C31: the preopened directories. When \<^verbatim>\<open>makeFS\<close> succeeds at start, descriptors 0 to 2 are the standard streams with
  the configured reader or writer and the right to read or write, and one descriptor per configured mount follows, numbered
  from 3 in the order of the guest paths. Each carries its guest path, exactly the rights that the flags of its
  mount grant, directly and by inheritance, and the file that was opened for the absolute form of its host path.\<close>

theorem makeFS_preopens:
  assumes "length (c_Mounts cfg) \<le> 64" and "run_state (makeFS H cfg True) s = (Inr fs, t)"
  shows "\<exists>e0 e1 e2 es. fs_fds fs = zip (map of_nat [0..<3 + length (c_Mounts cfg)]) (e0 # e1 # e2 # es) \<and>
    stdioEntry (c_Stdin cfg) NilStream 1 e0 \<and> stdioEntry NilStream (c_Stdout cfg) 6 e1 \<and> stdioEntry NilStream (c_Stderr cfg) 6 e2 \<and>
    length es = length (c_Mounts cfg) \<and>
    (\<forall>i<length (c_Mounts cfg). preopenEntry (sort_key GuestPath (c_Mounts cfg) ! i) (Suc i) (s_log t) (es ! i))"
proof -
  have fs: "fs_fds (initialFS cfg) = stdioEntries cfg" "fs_nextFD (initialFS cfg) = 3" by (simp_all add: initialFS_def Let_def)
  have std: "length (stdioEntries cfg) = 3" "\<forall>x\<in>set (stdioEntries cfg). unat (fst x) < 3" by (simp_all add: stdioEntries_def)
  let ?m = "sort_key GuestPath (c_Mounts cfg)"
  have "wp (makeFS H cfg True) (\<lambda>r t. set (s_log s) \<subseteq> set (s_log t) \<and>
      (\<forall>fs. r = Inr fs \<longrightarrow> extends (initialFS cfg) 0 (map mountOf ?m) (s_log t) fs)) s"
    unfolding makeFS_def sortedMounts_map by (rule makeFSLoop_extends) (use assms(1) in \<open>simp_all add: fs std\<close>)
  then have "extends (initialFS cfg) 0 (map mountOf ?m) (s_log t) fs" using wpD [OF _ assms(2)] by fastforce
  then obtain es where es: "length es = length (c_Mounts cfg)" "\<forall>j<length es. preopened (mountOf (?m ! j)) (Suc j) (s_log t) (es ! j)"
    "fs_fds fs = stdioEntries cfg @ zip (map of_nat [3..<3 + length es]) es"
    by (auto simp: extends_def fs std)
  have entries: "preopenEntry (?m ! j) (Suc j) (s_log t) (es ! j)" if "j < length (c_Mounts cfg)" for j
    using es(1,2) that by (simp add: preopenEntry_def preopened_def mountOf_bits) (simp add: mountOf_def Let_def)
  obtain e0 e1 e2 where e: "stdioEntries cfg = zip (map of_nat [0..<3]) [e0, e1, e2]"
    "stdioEntry (c_Stdin cfg) NilStream 1 e0" "stdioEntry NilStream (c_Stdout cfg) 6 e1" "stdioEntry NilStream (c_Stderr cfg) 6 e2"
    by (simp add: stdioEntries_def stdioEntry_def nilEntry_def flag_bits upt_rec)
  have "[0..<3 + length es] = [0..<3] @ [3..<3 + length es]" by (rule upt_add_eq_append) simp
  then have "fs_fds fs = zip (map of_nat [0..<3 + length es]) ([e0, e1, e2] @ es)" unfolding es(3) e(1) map_append
    by (simp add: zip_append del: append.simps)
  with e entries es(1) show ?thesis by auto
qed

theorem makeFS_preopens_witness:
  "\<exists>fs t e. run_state (makeFS sampleHost mountedConfig True) (rt_core (registered True () 4)) = (Inr fs, t) \<and>
     map_of (fs_fds fs) 3 = Some e \<and> e_preopen e = ''/'' \<and> {b. bit (e_rights e) b} = {13, 14, 15, 18, 21, 27} \<and>
     HOsOpen ''/srv'' (the (e_file e)) \<in> set (s_log t)"
proof -
  let ?m = "run_state (makeFS sampleHost mountedConfig True) (rt_core (registered True () 4))"
  have "(case fst ?m of Inl x \<Rightarrow> False | Inr fs \<Rightarrow> True)" by code_simp
  then obtain fs t where r: "?m = (Inr fs, t)" by (cases ?m) (auto split: sum.splits)
  define d where "d = \<lparr>GuestPath = ''/'', HostPath = ''/srv'', Read = True, Write = False, MutateDirectory = False\<rparr>"
  have c: "c_Mounts mountedConfig = [d]" by (simp add: mountedConfig_def d_def)
  have "length (c_Mounts mountedConfig) \<le> 64" by (simp add: c)
  from makeFS_preopens [OF this r] obtain e0 e1 e2 es where
    es: "fs_fds fs = zip (map of_nat [0..<4]) (e0 # e1 # e2 # es)" "length es = 1" "preopenEntry d 1 (s_log t) (es ! 0)"
    unfolding c by (auto simp del: upt_Suc)
  from es(2) obtain e where e: "es = [e]" by (cases es) auto
  have m: "map_of (fs_fds fs) 3 = Some e" unfolding es(1) e by (simp add: upt_rec)
  have "clean ''/srv'' = ''/srv''" by code_simp
  then have p: "absoluteOf ''/srv'' p = (p = ''/srv'')" for p by (simp add: absoluteOf_def)
  have "e_preopen e = ''/''" "{b. bit (e_rights e) b} = {13, 14, 15, 18, 21, 27}" "HOsOpen ''/srv'' (the (e_file e)) \<in> set (s_log t)"
    using es(3) by (auto simp: e preopenEntry_def grantedBits_def openedFor_def d_def p)
  with r m show ?thesis by blast
qed

section \<open>Import table\<close>

text \<open>C33: the import table is well typed. Every handler is bound to exactly one import name, and it reads only the
  parameter slots that the signature of its import declares.\<close>

theorem handlers_bound_once:
  "(\<exists>!b. b \<in> set importBindings \<and> b_handler b = h) \<and>
   handlerCall H cfg h (take (paramCount h) p) = handlerCall H cfg h p"
  using bound_handler [of h] distinct_handlers handlerCall_slots [of H cfg h p]
  by (auto simp: distinct_map inj_on_def)

section \<open>A directory iterator closed twice\<close>

text \<open>The system call by which \<^verbatim>\<open>positionDirectory\<close> opens the directory \<open>g\<close> again.\<close>

definition reopenCall :: "fileid \<Rightarrow> nat \<Rightarrow> hostcall" where
  "reopenCall g n = HOpenat2 g ''.'' (O_DIRECTORY OR O_CLOEXEC) 0 secureResolve (fst g, n)"

text \<open>A failure that \<^verbatim>\<open>openAt\<close> reports, instead of walking the path itself.\<close>

definition finalError :: "goerr \<Rightarrow> bool" where
  "finalError err \<longleftrightarrow> \<not> (errorsIs err (Errno ENOSYS) \<or> errorsIs err (Errno EINVAL) \<or> errorsIs err (Errno E2BIG) \<or> errorsIs err (Errno EPERM))"

lemma positionDirectory_fails:
  fixes s :: "'w st"
  assumes "e_file f = Some g" and "e_dirIter f = Some it" and "cookie = 0 \<or> cookie \<le> e_dirIssued f" and "e_dirCookie f \<noteq> cookie"
    and "\<And>n w. asErr (fst (H (reopenCall g n) w)) = Some err" and "finalError err"
  shows "\<exists>w. run_state (positionDirectory H fd f cookie) s = ((capabilityErr err, f),
     s\<lparr>s_world := w, s_log := s_log s @ [HClose it, reopenCall g (s_next s)], s_live := s_live s - {it}\<rparr>)"
  using assms
  by (intro exI [of _ "snd (H (reopenCall g (s_next s)) (snd (H (HClose it) (s_world s))))"])
    (auto simp: positionDirectory_def closeOpt_def run_hostClose openAt_def hostOpen_def finalError_def reopenCall_def Let_def split_beta)

lemma fdClose_run:
  fixes t :: "'w st"
  assumes "map_of (fds t) (arg32 q 0) = Some f" and "e_file f = Some g" and "e_dirIter f = Some it"
  shows "s_log (snd (run_state (fdClose H cfg q) t)) = s_log t @ [HClose it, HClose g]"
  using assms by (auto simp: fdClose_def closeOpt_def run_hostClose deleteEntry_def run_entry Let_def split_beta)

text \<open>C38: \<^verbatim>\<open>positionDirectory\<close> keeps an iterator that it has closed. When \<^verbatim>\<open>fd_readdir\<close> asks for a position other than that
  of the open iterator and the host refuses to open the directory again, the call fails with the iterator
  closed, the descriptor still refers to it, and the next \<^verbatim>\<open>fd_close\<close> of the descriptor closes it a second time.\<close>

theorem positionDirectory_closes_twice:
  fixes s :: "'w st"
  assumes "map_of (fds s) (arg32 p 0) = Some f" and "e_rights f AND rightFDReadDir = rightFDReadDir"
    and "e_file f = Some g" and "e_dirIter f = Some it"
    and "p ! 3 = 0 \<or> p ! 3 \<le> e_dirIssued f" and "e_dirCookie f \<noteq> p ! 3"
    and "length (s_mem s) \<le> 4294967296" and "unat (arg32 p 1) + unat (arg32 p 2) \<le> length (s_mem s)" and "unat (arg32 p 4) + 4 \<le> length (s_mem s)"
    and "\<And>n w. asErr (fst (H (reopenCall g n) w)) = Some err" and "finalError err"
    and "run_state (fdReaddir H cfg p) s = (code, t)"
    and "arg32 q 0 = arg32 p 0" and "run_state (fdClose H cfg q) t = (r, u)"
  shows "code = capabilityErr err \<and> map_of (fds t) (arg32 p 0) = Some f \<and>
    s_log u = s_log s @ [HClose it, reopenCall g (s_next s), HClose it, HClose g]"
proof -
  obtain w where pos: "run_state (positionDirectory H (arg32 p 0) f (p ! 3)) s = ((capabilityErr err, f),
     s\<lparr>s_world := w, s_log := s_log s @ [HClose it, reopenCall g (s_next s)], s_live := s_live s - {it}\<rparr>)"
    using positionDirectory_fails [where H = H, OF assms(3-6,10,11)] by blast
  have range: "validMemoryRange (s_mem s) (arg32 p 4) 4" using assms(7,9) by (simp add: validMemoryRange_iff)
  have fits: "\<not> (ucast (arg32 p 1) :: u64) + ucast (arg32 p 2) > of_nat (length (s_mem s))"
    using assms(7,8) by (simp add: not_less ucast_u32_u64_sum_le)
  from pos range fits assms(1-3) have "run_state (fdReaddir H cfg p) s = (capabilityErr err,
     s\<lparr>s_world := w, s_log := s_log s @ [HClose it, reopenCall g (s_next s)], s_live := s_live s - {it}\<rparr>)"
    by (simp add: fdReaddir_def run_entryRight Let_def)
  with assms(12) have t: "code = capabilityErr err"
    "t = s\<lparr>s_world := w, s_log := s_log s @ [HClose it, reopenCall g (s_next s)], s_live := s_live s - {it}\<rparr>" by simp_all
  with assms(1,13) have "map_of (fds t) (arg32 q 0) = Some f" by simp
  from fdClose_run [OF this assms(3,4), of H cfg] assms(13,14) t \<open>map_of (fds t) (arg32 q 0) = Some f\<close> show ?thesis by simp
qed

definition listingFS :: fsState where
  "listingFS = emptyFS\<lparr>fs_fds := [(3, nilEntry\<lparr>e_file := Some (1, 0), e_rights := rightFDReadDir, e_dirIter := Some (1, 1),
     e_dirCookie := 5, e_dirIssued := 5\<rparr>)]\<rparr>"

text \<open>A host without free file descriptors.\<close>

definition exhaustedHost :: "unit host" where
  "exhaustedHost c w = (case c of HClose f \<Rightarrow> ROk | _ \<Rightarrow> RErr (Errno EMFILE), w)"

theorem positionDirectory_closes_twice_witness:
  "\<exists>t u r. run_state (fdReaddir exhaustedHost mountedConfig [3, 0, 16, 0, 16]) (sampleState 32 listingFS ()) = (errno (Some (Errno EMFILE)), t) \<and>
     run_state (fdClose exhaustedHost mountedConfig [3]) t = (r, u) \<and>
     s_log u = [HClose (1, 1), reopenCall (1, 0) 10, HClose (1, 1), HClose (1, 0)]"
proof -
  let ?s = "sampleState 32 listingFS ()" and ?p = "[3, 0, 16, 0, 16] :: u64 list"
  define f where "f = nilEntry\<lparr>e_file := Some (1, 0), e_rights := rightFDReadDir, e_dirIter := Some (1, 1), e_dirCookie := 5, e_dirIssued := 5\<rparr>"
  obtain c t where t: "run_state (fdReaddir exhaustedHost mountedConfig ?p) ?s = (c, t)"
    by (cases "run_state (fdReaddir exhaustedHost mountedConfig ?p) ?s")
  obtain r u where u: "run_state (fdClose exhaustedHost mountedConfig [3]) t = (r, u)"
    by (cases "run_state (fdClose exhaustedHost mountedConfig [3]) t")
  have f: "map_of (fds ?s) (arg32 ?p 0) = Some f" "e_rights f AND rightFDReadDir = rightFDReadDir" "e_file f = Some (1, 0)"
    "e_dirIter f = Some (1, 1)" "?p ! 3 = 0 \<or> ?p ! 3 \<le> e_dirIssued f" "e_dirCookie f \<noteq> ?p ! 3"
    "unat (arg32 ?p 1) + unat (arg32 ?p 2) \<le> length (s_mem ?s)" "unat (arg32 ?p 4) + 4 \<le> length (s_mem ?s)" "length (s_mem ?s) \<le> 4294967296"
    "s_log ?s = []" "s_next ?s = 10"
    by (simp_all add: f_def sampleState_def listingFS_def emptyFS_def)
  have h: "asErr (fst (exhaustedHost (reopenCall (1, 0) n) w)) = Some (Errno EMFILE)" for n w
    by (simp add: exhaustedHost_def reopenCall_def)
  have e: "finalError (Errno EMFILE)" "capabilityErr (Errno EMFILE) = errno (Some (Errno EMFILE))" by code_simp+
  have q: "arg32 [3] 0 = arg32 ?p 0" by code_simp
  from positionDirectory_closes_twice [OF f(1-6,9,7,8) h e(1) t q u] t u e(2) f(10,11)
  show ?thesis by (intro exI [of _ t] exI [of _ u] exI [of _ r]) simp
qed

end
