(* ===== verification/Output_Adapter.thy ===== *)
theory Output_Adapter
  imports Go_Std Interfaces
begin

text \<open>
  The adapter \<^verbatim>\<open>outputAdapter\<close> of \<^verbatim>\<open>p2/io.go\<close>, which turns a blocking writer into a nonblocking stream with at
  most one operation of the writer in flight. Every method is one critical section of the adapter's
  lock; the goroutine \<^verbatim>\<open>run\<close> alternates between an operation of the writer, during which other methods may
  run, and its own critical section.
\<close>

section \<open>State\<close>

record outputRequest =
  or_data :: bytes
  or_flush :: bool
  or_done :: nat

text \<open>\<open>oa_slots\<close> is the number of elements in the channel \<^verbatim>\<open>slots\<close> of capacity 1. The channels \<^verbatim>\<open>done\<close> are
  numbered; \<open>oa_closed\<close> holds those that were closed. \<open>oa_run\<close> is the goroutine: its request, and the
  error of the finished operation while it waits for the lock (\<open>None\<close> while the writer is busy).\<close>

record outputAdapter =
  oa_slots :: nat
  oa_last :: "nat option"
  oa_err :: "goerr option"
  oa_flushPending :: bool
  oa_run :: "(outputRequest \<times> goerr option option) option"
  oa_next :: nat
  oa_closed :: "nat set"

definition newOutput :: outputAdapter where
  "newOutput = \<lparr>oa_slots = 0, oa_last = None, oa_err = None, oa_flushPending = False, oa_run = None, oa_next = 0, oa_closed = {}\<rparr>"

definition maxIOSize :: u64 where
  "maxIOSize = 16 * 1024 * 1024"

section \<open>Operations\<close>

definition checkWrite :: "outputAdapter \<Rightarrow> u64 \<times> goerr option" where
  "checkWrite s = (case oa_err s of
      Some e \<Rightarrow> (0, Some e)
    | None \<Rightarrow> (if oa_slots s \<noteq> 0 then (0, None) else (maxIOSize, None)))"

text \<open>The steps with which \<^verbatim>\<open>TryWrite\<close> and \<^verbatim>\<open>BeginFlush\<close> take the slot and start the goroutine.\<close>

definition launch :: "bytes \<Rightarrow> bool \<Rightarrow> outputAdapter \<Rightarrow> outputAdapter" where
  "launch data flush s = s\<lparr>oa_slots := 1, oa_last := Some (oa_next s), oa_next := Suc (oa_next s),
     oa_run := Some (\<lparr>or_data = data, or_flush = flush, or_done = oa_next s\<rparr>, None)\<rparr>"

definition tryWrite :: "bytes \<Rightarrow> outputAdapter \<Rightarrow> goerr option \<times> outputAdapter" where
  "tryWrite p s = (case oa_err s of
      Some e \<Rightarrow> (Some e, s)
    | None \<Rightarrow>
        if length p = 0 then (None, s)
        else if oa_slots s \<ge> 1 then (Some ErrWouldBlock, s)
        else (None, launch p False s))"

definition beginFlush :: "outputAdapter \<Rightarrow> goerr option \<times> outputAdapter" where
  "beginFlush s = (case oa_err s of
      Some e \<Rightarrow> (Some e, s)
    | None \<Rightarrow> if oa_slots s \<noteq> 0 then (None, s\<lparr>oa_flushPending := True\<rparr>) else (None, launch [] True s))"

text \<open>\<^verbatim>\<open>run\<close>: the writer returned \<open>n\<close> and \<open>e\<close> for the current operation. A writer without a \<^verbatim>\<open>Flush\<close>
  method answers a flush with nil.\<close>

definition ioDone :: "int \<Rightarrow> goerr option \<Rightarrow> outputAdapter \<Rightarrow> outputAdapter" where
  "ioDone n e s = (case oa_run s of
      Some (req, None) \<Rightarrow>
        s\<lparr>oa_run := Some (req, Some (if \<not> or_flush req \<and> e = None \<and> n \<noteq> int (length (or_data req)) then Some ErrShortWrite else e))\<rparr>
    | _ \<Rightarrow> s)"

text \<open>\<^verbatim>\<open>run\<close>: one round of its loop under the lock.\<close>

definition runLocked :: "outputAdapter \<Rightarrow> outputAdapter" where
  "runLocked s = (case oa_run s of
      Some (req, Some err) \<Rightarrow>
        (let s = (if err \<noteq> None \<and> oa_err s = None then s\<lparr>oa_err := err\<rparr> else s) in
         if oa_flushPending s \<and> \<not> or_flush req \<and> oa_err s = None
         then s\<lparr>oa_flushPending := False, oa_run := Some (req\<lparr>or_flush := True\<rparr>, None)\<rparr>
         else s\<lparr>oa_flushPending := False, oa_slots := oa_slots s - 1, oa_closed := insert (or_done req) (oa_closed s), oa_run := None\<rparr>)
    | _ \<Rightarrow> s)"

text \<open>\<^verbatim>\<open>WaitWritable\<close> before the wait: the error, or the channel to wait for (\<open>None\<close>: return nil); after the
  wait it returns the error of the adapter.\<close>

definition waitWritable :: "outputAdapter \<Rightarrow> goerr + nat option" where
  "waitWritable s = (case oa_err s of Some e \<Rightarrow> Inl e | None \<Rightarrow> Inr (oa_last s))"

definition writableAgain :: "outputAdapter \<Rightarrow> goerr option" where
  "writableAgain s = oa_err s"

section \<open>Runs\<close>

text \<open>The adapter with the history of a run: the contents of the accepted writes, the writes the writer
  was given and has returned from, how many writes were accepted when a flush was last requested, and
  how many the writer had returned from when the last completed flush began.\<close>

record outputRun =
  ou_state :: outputAdapter
  ou_accepted :: "bytes list"
  ou_written :: "bytes list"
  ou_wanted :: nat
  ou_flushing :: nat
  ou_flushed :: nat

definition writing :: "outputAdapter \<Rightarrow> bytes list" where
  "writing s = (case oa_run s of Some (req, None) \<Rightarrow> (if or_flush req then [] else [or_data req]) | _ \<Rightarrow> [])"

definition flushing :: "outputAdapter \<Rightarrow> bool" where
  "flushing s \<longleftrightarrow> (case oa_run s of Some (req, None) \<Rightarrow> or_flush req | _ \<Rightarrow> False)"

text \<open>A flush begins when the goroutine is started for one, or at the end of a write for a pending one.\<close>

definition noteFlush :: "outputAdapter \<Rightarrow> outputRun \<Rightarrow> nat" where
  "noteFlush t x = (if flushing t \<and> \<not> flushing (ou_state x) then length (ou_written x) else ou_flushing x)"

inductive ostep :: "outputRun \<Rightarrow> outputRun \<Rightarrow> bool" where
  Write: "tryWrite p (ou_state x) = (err, t) \<Longrightarrow>
    ostep x (x\<lparr>ou_state := t, ou_accepted := ou_accepted x @ (if err = None \<and> p \<noteq> [] then [p] else [])\<rparr>)"
| Flush: "beginFlush (ou_state x) = (err, t) \<Longrightarrow>
    ostep x (x\<lparr>ou_state := t, ou_wanted := (if err = None then length (ou_accepted x) else ou_wanted x), ou_flushing := noteFlush t x\<rparr>)"
| Returned: "ostep x (x\<lparr>ou_state := ioDone n e (ou_state x), ou_written := ou_written x @ writing (ou_state x),
    ou_flushed := (if flushing (ou_state x) then ou_flushing x else ou_flushed x)\<rparr>)"
| Locked: "ostep x (x\<lparr>ou_state := runLocked (ou_state x), ou_flushing := noteFlush (runLocked (ou_state x)) x\<rparr>)"

inductive_cases ostepE: "ostep x y"

definition freshOutput :: outputRun where
  "freshOutput = \<lparr>ou_state = newOutput, ou_accepted = [], ou_written = [], ou_wanted = 0, ou_flushing = 0, ou_flushed = 0\<rparr>"

section \<open>Invariant\<close>

text \<open>The slot is taken exactly while the goroutine runs, and a waiter on the last channel waits exactly
  as long.\<close>

definition adapterOk :: "outputAdapter \<Rightarrow> bool" where
  "adapterOk s \<longleftrightarrow> oa_slots s = (if oa_run s = None then 0 else 1) \<and> (oa_flushPending s \<longrightarrow> oa_run s \<noteq> None) \<and>
     (\<forall>i\<in>oa_closed s. i < oa_next s) \<and>
     (case oa_run s of
        None \<Rightarrow> (\<forall>i. oa_last s = Some i \<longrightarrow> i \<in> oa_closed s)
      | Some (req, r) \<Rightarrow> oa_last s = Some (or_done req) \<and> or_done req \<notin> oa_closed s \<and> or_done req < oa_next s)"

text \<open>The accepted writes are those the writer returned from and the one in flight. A requested flush is
  pending, in flight or done for all writes accepted before it, unless the adapter failed.\<close>

definition failing :: "outputAdapter \<Rightarrow> bool" where
  "failing s \<longleftrightarrow> oa_err s \<noteq> None \<or> (\<exists>req e. oa_run s = Some (req, Some (Some e)))"

definition flushOk :: "outputRun \<Rightarrow> bool" where
  "flushOk x \<longleftrightarrow> failing (ou_state x) \<or>
     (case oa_run (ou_state x) of
        None \<Rightarrow> ou_wanted x \<le> ou_flushed x
      | Some (req, None) \<Rightarrow> (if or_flush req then ou_wanted x \<le> ou_flushing x
          else oa_flushPending (ou_state x) \<or> ou_wanted x \<le> ou_flushed x)
      | Some (req, Some r) \<Rightarrow> (if or_flush req then ou_wanted x \<le> ou_flushed x
          else oa_flushPending (ou_state x) \<or> ou_wanted x \<le> ou_flushed x))"

definition outputInv :: "outputRun \<Rightarrow> bool" where
  "outputInv x \<longleftrightarrow> adapterOk (ou_state x) \<and> ou_accepted x = ou_written x @ writing (ou_state x) \<and>
     ou_wanted x \<le> length (ou_accepted x) \<and>
     (flushing (ou_state x) \<longrightarrow> ou_flushing x = length (ou_written x)) \<and> 
     (\<forall>req e. oa_run (ou_state x) = Some (req, Some e) \<longrightarrow> or_flush req \<longrightarrow> ou_flushed x = length (ou_written x) \<or> e \<noteq> None) \<and>
     flushOk x"


lemma adapterOk_new: "adapterOk newOutput"
  by (simp add: adapterOk_def newOutput_def)

lemma adapterOk_idle: "adapterOk s \<Longrightarrow> oa_slots s = 0 \<longleftrightarrow> oa_run s = None"
  by (auto simp: adapterOk_def)

lemma adapterOk_launch: "adapterOk s \<Longrightarrow> oa_run s = None \<Longrightarrow> adapterOk (launch p fl s)"
  by (auto simp: adapterOk_def launch_def)

lemma adapterOk_ioDone: "adapterOk s \<Longrightarrow> adapterOk (ioDone n e s)"
  by (auto simp: adapterOk_def ioDone_def split: option.splits)

lemma adapterOk_runLocked: "adapterOk s \<Longrightarrow> adapterOk (runLocked s)"
  by (auto simp: adapterOk_def runLocked_def Let_def split: option.splits)

text \<open>The three cases of \<open>tryWrite\<close>, and those of \<open>beginFlush\<close>.\<close>

lemma tryWrite_cases:
  assumes "tryWrite p s = (err, t)" and "adapterOk s"
  obtains (same) "t = s" "err \<noteq> None \<or> p = []"
    | (go) "t = launch p False s" "err = None" "p \<noteq> []" "oa_run s = None" "oa_err s = None"
proof (cases "oa_err s")
  case (Some e)
  with assms(1) have "t = s" "err = Some e" by (auto simp: tryWrite_def)
  with same show thesis by blast
next
  case None
  with assms same go show thesis by (auto simp: tryWrite_def adapterOk_idle [symmetric] split: if_splits)
qed

lemma beginFlush_cases:
  assumes "beginFlush s = (err, t)" and "adapterOk s"
  obtains (same) "t = s" "err \<noteq> None"
    | (pending) "t = s\<lparr>oa_flushPending := True\<rparr>" "err = None" "oa_run s \<noteq> None" "oa_err s = None"
    | (go) "t = launch [] True s" "err = None" "oa_run s = None" "oa_err s = None"
proof (cases "oa_err s")
  case (Some e)
  with assms(1) have "t = s" "err = Some e" by (auto simp: beginFlush_def)
  with same show thesis by blast
next
  case None
  with assms pending go show thesis by (auto simp: beginFlush_def adapterOk_idle [symmetric] split: if_splits)
qed

lemma run_shapes:
  "writing (launch p fl s) = (if fl then [] else [p])" "flushing (launch p fl s) = fl" "failing (launch p fl s) = (oa_err s \<noteq> None)"
  "oa_run s = None \<Longrightarrow> writing s = [] \<and> \<not> flushing s \<and> failing s = (oa_err s \<noteq> None)"
  "oa_run s = Some (req, None) \<Longrightarrow> writing s = (if or_flush req then [] else [or_data req]) \<and> flushing s = or_flush req \<and> failing s = (oa_err s \<noteq> None)"
  "oa_run s = Some (req, Some e) \<Longrightarrow> writing s = [] \<and> \<not> flushing s \<and> failing s = (oa_err s \<noteq> None \<or> e \<noteq> None)"
  by (auto simp: writing_def flushing_def failing_def launch_def)

lemma outputInv_Write:
  assumes "outputInv x" and "tryWrite p (ou_state x) = (err, t)"
  shows "outputInv (x\<lparr>ou_state := t, ou_accepted := ou_accepted x @ (if err = None \<and> p \<noteq> [] then [p] else [])\<rparr>)"
proof -
  have ok: "adapterOk (ou_state x)" using assms(1) by (simp add: outputInv_def)
  from assms(2) ok show ?thesis
  proof (cases rule: tryWrite_cases)
    case same
    then have "x\<lparr>ou_state := t, ou_accepted := ou_accepted x @ (if err = None \<and> p \<noteq> [] then [p] else [])\<rparr> = x" by auto
    with assms(1) show ?thesis by simp
  next
    case go
    with assms(1) show ?thesis
      by (auto simp: outputInv_def run_shapes adapterOk_launch flushOk_def) (auto simp: launch_def)
  qed
qed

lemma outputInv_Flush:
  assumes "outputInv x" and "beginFlush (ou_state x) = (err, t)"
  shows "outputInv (x\<lparr>ou_state := t, ou_wanted := (if err = None then length (ou_accepted x) else ou_wanted x), ou_flushing := noteFlush t x\<rparr>)"
proof -
  have ok: "adapterOk (ou_state x)" using assms(1) by (simp add: outputInv_def)
  from assms(2) ok show ?thesis
  proof (cases rule: beginFlush_cases)
    case same
    then have "x\<lparr>ou_state := t, ou_wanted := (if err = None then length (ou_accepted x) else ou_wanted x), ou_flushing := noteFlush t x\<rparr> = x"
      by (auto simp: noteFlush_def)
    with assms(1) show ?thesis by simp
  next
    case pending
    then obtain req r where run: "oa_run (ou_state x) = Some (req, r)" by auto
    have shapes: "writing t = writing (ou_state x)" "flushing t = flushing (ou_state x)" "failing t = failing (ou_state x)"
      "adapterOk t" using pending ok by (auto simp: writing_def flushing_def failing_def adapterOk_def)
    with assms(1) pending run show ?thesis
      by (cases r) (auto simp: outputInv_def noteFlush_def flushOk_def run_shapes(5,6))
  next
    case go
    with assms(1) show ?thesis
      by (auto simp: outputInv_def run_shapes adapterOk_launch flushOk_def noteFlush_def) (auto simp: launch_def)
  qed
qed

lemma outputInv_Returned:
  assumes "outputInv x"
  shows "outputInv (x\<lparr>ou_state := ioDone n e (ou_state x), ou_written := ou_written x @ writing (ou_state x),
    ou_flushed := (if flushing (ou_state x) then ou_flushing x else ou_flushed x)\<rparr>)"
proof (cases "\<exists>req. oa_run (ou_state x) = Some (req, None)")
  case True
  then obtain req where run: "oa_run (ou_state x) = Some (req, None)" by blast
  obtain r where result: "ioDone n e (ou_state x) = (ou_state x)\<lparr>oa_run := Some (req, Some r)\<rparr>" by (simp add: ioDone_def run)
  have "adapterOk (ioDone n e (ou_state x))" using assms by (simp add: outputInv_def adapterOk_ioDone)
  with assms show ?thesis
    by (auto simp: outputInv_def flushOk_def result run run_shapes(5) [OF run] writing_def flushing_def failing_def)
next
  case False
  then have "ioDone n e (ou_state x) = ou_state x" "writing (ou_state x) = []" "\<not> flushing (ou_state x)"
    by (auto simp: ioDone_def writing_def flushing_def split: option.splits)
  then have "x\<lparr>ou_state := ioDone n e (ou_state x), ou_written := ou_written x @ writing (ou_state x),
    ou_flushed := (if flushing (ou_state x) then ou_flushing x else ou_flushed x)\<rparr> = x" by simp
  with assms show ?thesis by simp
qed

text \<open>The two ways in which \<open>runLocked\<close> leaves its round.\<close>

lemma runLocked_cases:
  assumes "oa_run s = Some (req, Some r)"
  obtains (flush) "runLocked s = s\<lparr>oa_flushPending := False, oa_run := Some (req\<lparr>or_flush := True\<rparr>, None)\<rparr>"
      "oa_flushPending s" "\<not> or_flush req" "oa_err s = None" "r = None"
    | (stop) t where "runLocked s = t" "oa_run t = None" "oa_err t = (if oa_err s = None then r else oa_err s)"
      "\<not> oa_flushPending s \<or> or_flush req \<or> oa_err s \<noteq> None \<or> r \<noteq> None"
proof (cases "oa_flushPending s \<and> \<not> or_flush req \<and> oa_err s = None \<and> r = None")
  case True
  with assms flush show thesis by (simp add: runLocked_def Let_def)
next
  case False
  with assms have "oa_run (runLocked s) = None" "oa_err (runLocked s) = (if oa_err s = None then r else oa_err s)"
    by (auto simp: runLocked_def Let_def)
  with False stop [of "runLocked s"] show thesis by blast
qed

lemma outputInv_Locked:
  assumes "outputInv x"
  shows "outputInv (x\<lparr>ou_state := runLocked (ou_state x), ou_flushing := noteFlush (runLocked (ou_state x)) x\<rparr>)"
proof (cases "\<exists>req r. oa_run (ou_state x) = Some (req, Some r)")
  case True
  then obtain req r where run: "oa_run (ou_state x) = Some (req, Some r)" by blast
  have ok: "adapterOk (runLocked (ou_state x))" using assms by (simp add: outputInv_def adapterOk_runLocked)
  show ?thesis
    using run
  proof (cases rule: runLocked_cases)
    case flush
    with assms ok run_shapes(6) [OF run] show ?thesis
      by (auto simp: outputInv_def flushOk_def noteFlush_def) (auto simp: writing_def flushing_def failing_def)
  next
    case (stop t)
    note idle = run_shapes(4) [OF stop(2)]
    have "flushOk x" using assms by (simp add: outputInv_def)
    then have "oa_err t \<noteq> None \<or> ou_wanted x \<le> ou_flushed x"
      using stop(3,4) run run_shapes(6) [OF run] by (auto simp: flushOk_def split: if_splits)
    with assms ok stop idle run_shapes(6) [OF run] show ?thesis
      by (auto simp: outputInv_def flushOk_def noteFlush_def)
  qed
next
  case False
  then have "runLocked (ou_state x) = ou_state x" by (auto simp: runLocked_def split: option.splits)
  then have "x\<lparr>ou_state := runLocked (ou_state x), ou_flushing := noteFlush (runLocked (ou_state x)) x\<rparr> = x"
    by (simp add: noteFlush_def)
  with assms show ?thesis by simp
qed

lemma outputInv_fresh: "outputInv freshOutput"
  by (simp add: outputInv_def freshOutput_def adapterOk_new flushOk_def) (simp add: newOutput_def writing_def flushing_def)

lemma outputInv_step: "outputInv x \<Longrightarrow> ostep x y \<Longrightarrow> outputInv y"
  by (erule ostepE; hypsubst) (erule (1) outputInv_Write outputInv_Flush | erule outputInv_Returned outputInv_Locked)+

interpretation adapter: invariant_system "\<lambda>x. x = freshOutput" ostep outputInv
  by unfold_locales (auto intro: outputInv_fresh outputInv_step)

section \<open>Properties\<close>

text \<open>C14: no byte is lost, repeated or reordered. Under every interleaving of writes and flushes with the goroutine, the
  accepted writes are, in order, those the writer has returned from followed by the single one it is
  busy with; the adapter grants room exactly while the writer is idle and no error occurred.\<close>

theorem output_order:
  assumes "ostep\<^sup>*\<^sup>* freshOutput x"
  shows "ou_accepted x = ou_written x @ writing (ou_state x) \<and>
    (fst (checkWrite (ou_state x)) \<noteq> 0 \<longleftrightarrow> oa_run (ou_state x) = None \<and> oa_err (ou_state x) = None)"
proof -
  have inv: "outputInv x" using adapter.inv_run [OF refl assms] .
  then have "adapterOk (ou_state x)" by (simp add: outputInv_def)
  with inv show ?thesis
    by (auto simp: outputInv_def checkWrite_def adapterOk_idle [symmetric] maxIOSize_def split: option.splits)
qed

text \<open>C15: a flush covers everything written before it. Whenever the writer is idle and no error occurred, the last flush
  that returned began after the writer had returned from every write accepted before the last flush
  request, although a request that arrives during an operation is only remembered in a flag.\<close>

theorem flush_covers:
  assumes "ostep\<^sup>*\<^sup>* freshOutput x" and "oa_run (ou_state x) = None" and "oa_err (ou_state x) = None"
  shows "ou_wanted x \<le> ou_flushed x \<and> ou_written x = ou_accepted x"
proof -
  have "outputInv x" using adapter.inv_run [OF refl assms(1)] .
  then show ?thesis using assms(2,3) run_shapes(4) [OF assms(2)] by (simp add: outputInv_def flushOk_def)
qed

text \<open>errors are sticky. The first error of the writer is never replaced, and from then on every method reports it
  and no operation is started.\<close>

theorem output_error_sticky:
  assumes "ostep x y" and "oa_err (ou_state x) = Some e"
  shows "oa_err (ou_state y) = Some e \<and> checkWrite (ou_state y) = (0, Some e) \<and> tryWrite p (ou_state y) = (Some e, ou_state y) \<and>
    beginFlush (ou_state y) = (Some e, ou_state y) \<and> waitWritable (ou_state y) = Inl e \<and> writableAgain (ou_state y) = Some e"
proof -
  have "oa_err (ou_state y) = Some e"
    using assms by (cases rule: ostep.cases)
      (auto simp: tryWrite_def beginFlush_def ioDone_def runLocked_def Let_def split: option.splits)
  then show ?thesis by (simp add: checkWrite_def tryWrite_def beginFlush_def waitWritable_def writableAgain_def)
qed

text \<open>waiting ends with the operation. When \<^verbatim>\<open>WaitWritable\<close> blocks on a channel, that channel belongs to the running
  goroutine; it is closed by the goroutine's last step and, until the next operation starts, a later
  wait does not block.\<close>

theorem waitWritable_ends:
  assumes "ostep\<^sup>*\<^sup>* freshOutput x" and "waitWritable (ou_state x) = Inr (Some i)"
  shows "i \<in> oa_closed (ou_state x) \<longleftrightarrow> oa_run (ou_state x) = None"
proof -
  have "adapterOk (ou_state x)" using adapter.inv_run [OF refl assms(1)] by (simp add: outputInv_def)
  then show ?thesis
    using assms(2) by (auto simp: adapterOk_def waitWritable_def split: option.splits)
qed

section \<open>Witnesses\<close>

text \<open>A write of one byte, a flush requested while the writer is busy, and the goroutine's steps to its end.\<close>

definition afterWrite :: outputRun where
  "afterWrite = freshOutput\<lparr>ou_state := snd (tryWrite [7] newOutput), ou_accepted := [[7]]\<rparr>"

definition afterFlush :: outputRun where
  "afterFlush = afterWrite\<lparr>ou_state := snd (beginFlush (ou_state afterWrite)), ou_wanted := 1, ou_flushing := 0\<rparr>"

definition returned :: "outputRun \<Rightarrow> outputRun" where
  "returned x = x\<lparr>ou_state := ioDone 1 None (ou_state x), ou_written := ou_written x @ writing (ou_state x),
    ou_flushed := (if flushing (ou_state x) then ou_flushing x else ou_flushed x)\<rparr>"

definition locked :: "outputRun \<Rightarrow> outputRun" where
  "locked x = x\<lparr>ou_state := runLocked (ou_state x), ou_flushing := noteFlush (runLocked (ou_state x)) x\<rparr>"

lemma run_returned: "ostep\<^sup>*\<^sup>* x y \<Longrightarrow> ostep\<^sup>*\<^sup>* x (returned y)" "ostep\<^sup>*\<^sup>* x y \<Longrightarrow> ostep\<^sup>*\<^sup>* x (locked y)"
  unfolding returned_def locked_def by (blast intro: ostep.Returned ostep.Locked rtranclp.rtrancl_into_rtrancl)+

lemma run_afterWrite: "ostep\<^sup>*\<^sup>* freshOutput afterWrite"
proof -
  have t: "tryWrite [7] (ou_state freshOutput) = (None, snd (tryWrite [7] newOutput))" by code_simp
  have "afterWrite = freshOutput\<lparr>ou_state := snd (tryWrite [7] newOutput),
    ou_accepted := ou_accepted freshOutput @ (if None = None \<and> [7] \<noteq> [] then [[7]] else [])\<rparr>"
    by (simp add: afterWrite_def freshOutput_def)
  then show ?thesis using ostep.Write [OF t] by (metis r_into_rtranclp)
qed

lemma run_afterFlush: "ostep\<^sup>*\<^sup>* freshOutput afterFlush"
proof -
  have t: "beginFlush (ou_state afterWrite) = (None, snd (beginFlush (ou_state afterWrite)))" by code_simp
  have "noteFlush (snd (beginFlush (ou_state afterWrite))) afterWrite = 0" "length (ou_accepted afterWrite) = 1" by code_simp+
  then have "afterFlush = afterWrite\<lparr>ou_state := snd (beginFlush (ou_state afterWrite)),
    ou_wanted := (if None = None then length (ou_accepted afterWrite) else ou_wanted afterWrite),
    ou_flushing := noteFlush (snd (beginFlush (ou_state afterWrite))) afterWrite\<rparr>"
    by (simp add: afterFlush_def)
  then show ?thesis using ostep.Flush [OF t] rtranclp.rtrancl_into_rtrancl [OF run_afterWrite] by metis
qed

theorem output_order_witness:
  "ou_accepted afterWrite = [[7]] \<and> ou_written afterWrite = [] \<and> writing (ou_state afterWrite) = [[7]]"
  using output_order [OF run_afterWrite] by (simp add: afterWrite_def freshOutput_def)

theorem flush_covers_witness:
  "ou_wanted (locked (returned (locked (returned afterFlush)))) = 1 \<and> 1 \<le> ou_flushed (locked (returned (locked (returned afterFlush))))"
proof -
  let ?x = "locked (returned (locked (returned afterFlush)))"
  have run: "ostep\<^sup>*\<^sup>* freshOutput ?x" by (intro run_returned run_afterFlush)
  have idle: "oa_run (ou_state ?x) = None" "oa_err (ou_state ?x) = None" "ou_wanted ?x = 1" by code_simp+
  from flush_covers [OF run idle(1,2)] idle(3) show ?thesis by simp
qed

theorem output_error_sticky_witness:
  "checkWrite (ou_state (returned (freshOutput\<lparr>ou_state := newOutput\<lparr>oa_err := Some ErrShortWrite\<rparr>\<rparr>))) = (0, Some ErrShortWrite)"
proof -
  let ?x = "freshOutput\<lparr>ou_state := newOutput\<lparr>oa_err := Some ErrShortWrite\<rparr>\<rparr>"
  have "ostep ?x (returned ?x)" unfolding returned_def by (rule ostep.Returned)
  from output_error_sticky [OF this, of ErrShortWrite "[]"] show ?thesis by simp
qed

theorem waitWritable_ends_witness:
  "waitWritable (ou_state afterWrite) = Inr (Some 0) \<and> 0 \<notin> oa_closed (ou_state afterWrite)"
proof -
  have w: "waitWritable (ou_state afterWrite) = Inr (Some 0)" "oa_run (ou_state afterWrite) \<noteq> None" by code_simp+
  from waitWritable_ends [OF run_afterWrite w(1)] w show ?thesis by simp
qed

end
