(* ===== verification/Poll_Safe.thy ===== *)
theory Poll_Safe
  imports Output_Adapter
begin

text \<open>
  The interface \<^verbatim>\<open>OutputStream\<close> of \<^verbatim>\<open>p2/io.go\<close> and its wrapper \<^verbatim>\<open>pollSafeOutput\<close>, which lets a readiness probe look at
  a stream without consuming a one-shot permit or error before the guest has seen it. The contract of
  the interface is the locale \<open>output_stream\<close>; the adapter of \<open>Output_Adapter\<close> provides it, and the wrapper
  provides it again on top of any provider.
\<close>

section \<open>The interface\<close>

text \<open>The methods of an output stream over its state. \<^verbatim>\<open>WaitWritable\<close> is the result of a completed wait.\<close>

record 's outputStream =
  os_CheckWrite :: "'s \<Rightarrow> (u64 \<times> goerr option) \<times> 's"
  os_TryWrite :: "bytes \<Rightarrow> 's \<Rightarrow> goerr option \<times> 's"
  os_BeginFlush :: "'s \<Rightarrow> goerr option \<times> 's"
  os_WaitWritable :: "'s \<Rightarrow> goerr option \<times> 's"

definition accepts :: "'s outputStream \<Rightarrow> u64 \<Rightarrow> 's \<Rightarrow> bool" where
  "accepts S n s \<longleftrightarrow> (\<forall>p. length p \<le> unat n \<longrightarrow> fst (os_TryWrite S p s) \<noteq> Some ErrWouldBlock)"

text \<open>\<^verbatim>\<open>CheckWrite\<close> grants the number of bytes that the next \<^verbatim>\<open>TryWrite\<close> accepts.\<close>

locale output_stream =
  fixes S :: "'s outputStream" and ok :: "'s \<Rightarrow> bool"
  assumes check_ok: "ok s \<Longrightarrow> ok (snd (os_CheckWrite S s))"
    and check_grants: "ok s \<Longrightarrow> os_CheckWrite S s = ((n, None), t) \<Longrightarrow> n \<noteq> 0 \<Longrightarrow> accepts S n t"

section \<open>The adapter as a stream\<close>

definition adapterStream :: "outputAdapter outputStream" where
  "adapterStream = \<lparr>os_CheckWrite = (\<lambda>s. (checkWrite s, s)), os_TryWrite = tryWrite, os_BeginFlush = beginFlush,
     os_WaitWritable = (\<lambda>s. (writableAgain s, s))\<rparr>"

interpretation adapterIsStream: output_stream adapterStream "\<lambda>s. True"
  by unfold_locales (auto simp: adapterStream_def accepts_def checkWrite_def tryWrite_def split: option.splits if_splits)

section \<open>The wrapper\<close>

record 's pollSafeOutput =
  ps_stream :: 's
  ps_permit :: u64
  ps_pending :: "goerr option"

definition takePending :: "'s pollSafeOutput \<Rightarrow> (u64 \<times> goerr option) \<times> 's pollSafeOutput" where
  "takePending s = ((ps_permit s, ps_pending s), s\<lparr>ps_permit := 0, ps_pending := None\<rparr>)"

definition safeCheckWrite :: "'s outputStream \<Rightarrow> 's pollSafeOutput \<Rightarrow> (u64 \<times> goerr option) \<times> 's pollSafeOutput" where
  "safeCheckWrite S s = (case takePending s of ((permit, err), s) \<Rightarrow>
     if err \<noteq> None then ((0, err), s)
     else if permit \<noteq> 0 then ((permit, None), s)
     else (case os_CheckWrite S (ps_stream s) of (r, t) \<Rightarrow> (r, s\<lparr>ps_stream := t\<rparr>)))"

definition safeTryWrite :: "'s outputStream \<Rightarrow> bytes \<Rightarrow> 's pollSafeOutput \<Rightarrow> goerr option \<times> 's pollSafeOutput" where
  "safeTryWrite S p s = (case takePending s of ((permit, err), s) \<Rightarrow>
     if err \<noteq> None then (err, s)
     else (case os_TryWrite S p (ps_stream s) of (r, t) \<Rightarrow> (r, s\<lparr>ps_stream := t\<rparr>)))"

definition safeBeginFlush :: "'s outputStream \<Rightarrow> 's pollSafeOutput \<Rightarrow> goerr option \<times> 's pollSafeOutput" where
  "safeBeginFlush S s = (case takePending s of ((permit, err), s) \<Rightarrow>
     if err \<noteq> None then (err, s)
     else (case os_BeginFlush S (ps_stream s) of (r, t) \<Rightarrow> (r, s\<lparr>ps_stream := t\<rparr>)))"

definition safeWaitWritable :: "'s outputStream \<Rightarrow> 's pollSafeOutput \<Rightarrow> goerr option \<times> 's pollSafeOutput" where
  "safeWaitWritable S s =
     (let permit = ps_permit s; err = ps_pending s; s = (if err \<noteq> None then s\<lparr>ps_pending := None\<rparr> else s) in
      if err \<noteq> None then (err, s)
      else if permit \<noteq> 0 then (None, s)
      else (case os_WaitWritable S (ps_stream s) of (r, t) \<Rightarrow> (r, s\<lparr>ps_stream := t\<rparr>)))"

definition pollReady :: "'s outputStream \<Rightarrow> 's pollSafeOutput \<Rightarrow> bool \<times> 's pollSafeOutput" where
  "pollReady S s =
     (if ps_pending s \<noteq> None \<or> ps_permit s \<noteq> 0 then (True, s)
      else (case os_CheckWrite S (ps_stream s) of ((n, err), t) \<Rightarrow>
        (let s = s\<lparr>ps_stream := t\<rparr>;
             s = (if err \<noteq> None then s\<lparr>ps_pending := err\<rparr> else if n \<noteq> 0 then s\<lparr>ps_permit := n\<rparr> else s)
         in (err \<noteq> None \<or> n > 0, s))))"

text \<open>\<open>canceled\<close>: the context of the waiter is done.\<close>

definition pollWait :: "'s outputStream \<Rightarrow> bool \<Rightarrow> 's pollSafeOutput \<Rightarrow> goerr option \<times> 's pollSafeOutput" where
  "pollWait S canceled s =
     (if ps_pending s \<noteq> None \<or> ps_permit s \<noteq> 0 then (None, s)
      else (case os_WaitWritable S (ps_stream s) of (err, t) \<Rightarrow>
        (let s = s\<lparr>ps_stream := t\<rparr> in
         if err \<noteq> None \<and> \<not> canceled
         then (None, if ps_pending s = None then s\<lparr>ps_pending := err\<rparr> else s)
         else (err, s))))"

definition safeStream :: "'s outputStream \<Rightarrow> 's pollSafeOutput outputStream" where
  "safeStream S = \<lparr>os_CheckWrite = safeCheckWrite S, os_TryWrite = safeTryWrite S, os_BeginFlush = safeBeginFlush S,
     os_WaitWritable = safeWaitWritable S\<rparr>"

lemmas safe_defs = safeStream_def safeCheckWrite_def safeTryWrite_def takePending_def

text \<open>A remembered permit is one that the stream still honours.\<close>

definition permitOk :: "'s outputStream \<Rightarrow> ('s \<Rightarrow> bool) \<Rightarrow> 's pollSafeOutput \<Rightarrow> bool" where
  "permitOk S ok s \<longleftrightarrow> ok (ps_stream s) \<and> (ps_permit s \<noteq> 0 \<longrightarrow> accepts S (ps_permit s) (ps_stream s))"

lemma accepts_safe:
  "ps_pending s = None \<Longrightarrow> accepts S n (ps_stream s) \<Longrightarrow> accepts (safeStream S) n s"
  by (auto simp: accepts_def safe_defs split: prod.split)

locale polled_stream = output_stream
begin

lemma pollReady_ok: "permitOk S ok s \<Longrightarrow> permitOk S ok (snd (pollReady S s))"
  using check_ok [of "ps_stream s"] check_grants [of "ps_stream s"]
  by (auto simp: pollReady_def permitOk_def Let_def split: prod.splits)

lemma safe_check_ok: "permitOk S ok s \<Longrightarrow> permitOk S ok (snd (safeCheckWrite S s))"
  using check_ok [of "ps_stream s"] by (auto simp: permitOk_def safe_defs split: prod.splits)

lemma safe_check_grants:
  assumes "permitOk S ok s" and "safeCheckWrite S s = ((n, None), t)" and "n \<noteq> 0"
  shows "accepts (safeStream S) n t"
  using assms check_grants [of "ps_stream s"]
  by (intro accepts_safe) (auto simp: permitOk_def safeCheckWrite_def takePending_def split: if_splits prod.splits)

end

sublocale polled_stream \<subseteq> safe: output_stream "safeStream S" "permitOk S ok"
  by unfold_locales (auto simp: safeStream_def intro: safe_check_ok dest: safe_check_grants)

text \<open>The standard streams of an instance: the wrapper around the adapter.\<close>

interpretation standardOutput: polled_stream adapterStream "\<lambda>s. True"
  by unfold_locales

section \<open>Properties\<close>

text \<open>C27: probing is transparent. A readiness probe on a stream without remembered results makes one \<^verbatim>\<open>CheckWrite\<close>; any
  number of further probes make none, and the guest's next \<^verbatim>\<open>CheckWrite\<close> returns what that one call
  returned and leaves the stream as that one call left it.\<close>

theorem pollReady_transparent:
  "case os_CheckWrite S s of ((n, err), t) \<Rightarrow>
     (let w = \<lparr>ps_stream = s, ps_permit = 0, ps_pending = None\<rparr>; isReady = (\<not> (err = None \<and> n = 0)) in
      fst (pollReady S w) = isReady \<and>
      (if isReady then pollReady S (snd (pollReady S w)) = (True, snd (pollReady S w)) \<and>
         safeCheckWrite S (snd (pollReady S w)) =
           ((if err = None then n else 0, err), \<lparr>ps_stream = t, ps_permit = 0, ps_pending = None\<rparr>)
       else snd (pollReady S w) = \<lparr>ps_stream = t, ps_permit = 0, ps_pending = None\<rparr>))"
  by (cases "os_CheckWrite S s"; cases "snd (fst (os_CheckWrite S s))")
    (auto simp: pollReady_def safeCheckWrite_def takePending_def Let_def word_neq_0_conv split: prod.splits)

text \<open>C28: a grant is honoured. After any number of probes of the standard output, a write of at most the number of bytes
  that \<^verbatim>\<open>CheckWrite\<close> granted is not refused as blocking.\<close>

theorem grant_honoured:
  assumes "permitOk adapterStream (\<lambda>s. True) s"
    and "safeCheckWrite adapterStream (((snd \<circ> pollReady adapterStream) ^^ k) s) = ((n, None), t)"
    and "n \<noteq> 0" and "length p \<le> unat n"
  shows "fst (safeTryWrite adapterStream p t) \<noteq> Some ErrWouldBlock"
proof -
  have "permitOk adapterStream (\<lambda>s. True) (((snd \<circ> pollReady adapterStream) ^^ k) s)"
    using assms(1) by (induction k) (auto intro: standardOutput.pollReady_ok)
  from standardOutput.safe_check_grants [OF this assms(2,3)] assms(4) show ?thesis
    by (simp add: accepts_def safeStream_def)
qed

theorem grant_honoured_witness:
  "fst (safeTryWrite adapterStream [1, 2] (snd (safeCheckWrite adapterStream
     (((snd \<circ> pollReady adapterStream) ^^ 3) \<lparr>ps_stream = newOutput, ps_permit = 0, ps_pending = None\<rparr>)))) \<noteq> Some ErrWouldBlock"
proof -
  let ?s = "\<lparr>ps_stream = newOutput, ps_permit = 0, ps_pending = None\<rparr> :: outputAdapter pollSafeOutput"
  let ?c = "safeCheckWrite adapterStream (((snd \<circ> pollReady adapterStream) ^^ 3) ?s)"
  have "fst ?c = (maxIOSize, None)" by code_simp
  then have c: "?c = ((maxIOSize, None), snd ?c)" by (metis prod.collapse)
  have "permitOk adapterStream (\<lambda>s. True) ?s" by (simp add: permitOk_def)
  from grant_honoured [OF this c, of "[1, 2]"] show ?thesis by (simp add: maxIOSize_def)
qed

end
