(* ===== verification/P2_Config.thy ===== *)
theory P2_Config
  imports Config_Json
begin

text \<open>
  The configuration of the Preview 2 provider in \<^verbatim>\<open>p2/p2.go\<close>: the resource limits and their defaults, the
  checks of the raw JSON (surrogate escapes, repeated keys, shape) and of the decoded configuration.
  The JSON decoder of Go is not part of the repository; the checks on raw JSON work on its token
  stream or on the value it denotes, and the decoded configuration is an argument.
\<close>

section \<open>Limits\<close>

record limits =
  MaxDescriptors :: u32
  MaxStreams :: u32
  MaxErrors :: u32
  MaxDirectoryStreams :: u32
  MaxNetworkHandles :: u32
  MaxPollables :: u32
  MaxPollInputs :: u32
  MaxDirectoryEntryBytes :: u64
  MaxAggregateBufferBytes :: u64

text \<open>The zero value of \<^verbatim>\<open>Limits\<close>: no limit is configured.\<close>

definition zeroLimits :: limits where
  "zeroLimits = \<lparr>MaxDescriptors = 0, MaxStreams = 0, MaxErrors = 0, MaxDirectoryStreams = 0, MaxNetworkHandles = 0,
     MaxPollables = 0, MaxPollInputs = 0, MaxDirectoryEntryBytes = 0, MaxAggregateBufferBytes = 0\<rparr>"

definition orDefault :: "'a::zero \<Rightarrow> 'a \<Rightarrow> 'a" where
  "orDefault v d = (if v = 0 then d else v)"

definition normalized :: "limits \<Rightarrow> limits" where
  "normalized l = \<lparr>MaxDescriptors = orDefault (MaxDescriptors l) 256, MaxStreams = orDefault (MaxStreams l) 256,
     MaxErrors = orDefault (MaxErrors l) 256, MaxDirectoryStreams = orDefault (MaxDirectoryStreams l) 64,
     MaxNetworkHandles = orDefault (MaxNetworkHandles l) 256, MaxPollables = orDefault (MaxPollables l) 1024,
     MaxPollInputs = orDefault (MaxPollInputs l) 1024,
     MaxDirectoryEntryBytes = orDefault (MaxDirectoryEntryBytes l) (push_bit 20 1),
     MaxAggregateBufferBytes = orDefault (MaxAggregateBufferBytes l) (push_bit 20 16)\<rparr>"

definition maxIO :: u64 where
  "maxIO = push_bit 20 16"

definition ioLimit :: "limits \<Rightarrow> u64" where
  "ioLimit l = (let l = normalized l in
     if MaxAggregateBufferBytes l < maxIO then MaxAggregateBufferBytes l else maxIO)"

text \<open>The table of \<^verbatim>\<open>validateLimits\<close>: each value with its maximum.\<close>

definition limitTable :: "limits \<Rightarrow> (u64 \<times> u64) list" where
  "limitTable l = [(ucast (MaxDescriptors l), 65536), (ucast (MaxStreams l), 65536), (ucast (MaxErrors l), 65536),
     (ucast (MaxDirectoryStreams l), 65536), (ucast (MaxNetworkHandles l), 65536), (ucast (MaxPollables l), 65536),
     (ucast (MaxPollInputs l), 65536), (MaxDirectoryEntryBytes l, push_bit 20 16), (MaxAggregateBufferBytes l, push_bit 20 16)]"

definition validateLimits :: "limits \<Rightarrow> bool" where
  "validateLimits l \<longleftrightarrow> \<not> list_ex (\<lambda>(value, mx). value > mx) (limitTable l)"

section \<open>Mounts and environment\<close>

fun scanMounts :: "string list \<Rightarrow> preopen list \<Rightarrow> bool" where
  "scanMounts seen [] = True"
| "scanMounts seen (mount # mounts) =
     (let guest = GuestPath mount; host = HostPath mount in
      if guest = [] \<or> runeCount guest > 4096 \<or> \<not> hasPrefix guest ''/'' \<or> clean guest \<noteq> guest \<or> CHR 0x00 \<in> set guest then False
      else if host = [] \<or> runeCount host > 4096 \<or> \<not> hasPrefix host ''/'' \<or> clean host \<noteq> host \<or> CHR 0x00 \<in> set host then False
      else if GuestPath mount \<in> set seen then False
      else scanMounts (GuestPath mount # seen) mounts)"

definition validateMounts :: "preopen list \<Rightarrow> bool" where
  "validateMounts mounts = (if length mounts > 64 then False else scanMounts [] mounts)"

definition validEnvEntry :: "string \<Rightarrow> bool" where
  "validEnvEntry item = (case cut item (CHR ''='') of (key, x, found) \<Rightarrow>
     \<not> (\<not> found \<or> key = [] \<or> runeCount item > 32768 \<or> CHR 0x00 \<in> set item))"

section \<open>Raw JSON\<close>

definition jsonEscapeCodeUnit :: "string \<Rightarrow> nat \<Rightarrow> u16 option" where
  "jsonEscapeCodeUnit raw at =
     (if at + 6 > length raw \<or> raw ! at \<noteq> CHR 0x5C \<or> raw ! (at + 1) \<noteq> CHR ''u'' then None
      else hexValue 0 (take 4 (drop (at + 2) raw)))"

function escapeScan :: "string \<Rightarrow> bool \<Rightarrow> nat \<Rightarrow> bool" where
  "escapeScan raw inString i =
     (if i \<ge> length raw then True
      else if raw ! i = CHR 0x22 then escapeScan raw (\<not> inString) (i + 1)
      else if raw ! i = CHR 0x5C then
        (if \<not> inString \<or> i + 1 \<ge> length raw then escapeScan raw inString (i + 1)
         else if raw ! (i + 1) \<noteq> CHR ''u'' then escapeScan raw inString (i + 2)
         else (case jsonEscapeCodeUnit raw i of
             None \<Rightarrow> escapeScan raw inString (i + 1)
           | Some first \<Rightarrow>
               if first \<ge> 0xd800 \<and> first \<le> 0xdbff then
                 (case jsonEscapeCodeUnit raw (i + 6) of
                    None \<Rightarrow> False
                  | Some second \<Rightarrow>
                      if second < 0xdc00 \<or> second > 0xdfff then False
                      else escapeScan raw inString (i + 12))
               else if first \<ge> 0xdc00 \<and> first \<le> 0xdfff then False
               else escapeScan raw inString (i + 6)))
      else escapeScan raw inString (i + 1))"
  by pat_completeness auto
termination escapeScan
  by (relation "measure (\<lambda>(raw, inString, i). length raw - i)") auto

declare escapeScan.simps [simp del]

definition validateSurrogateEscapes :: "string \<Rightarrow> bool" where
  "validateSurrogateEscapes raw = escapeScan raw False 0"

text \<open>\<^verbatim>\<open>rejectDuplicateConfigKeys\<close> on the token stream. As in \<open>jvalue\<close> the first argument bounds the depth of
  the recursion. An object key that is not a string would panic in Go; the decoder delivers only strings
  there.\<close>

fun dscan :: "nat \<Rightarrow> jtok list \<Rightarrow> jtok list option"
  and dobject :: "nat \<Rightarrow> string list \<Rightarrow> jtok list \<Rightarrow> jtok list option"
  and darray :: "nat \<Rightarrow> jtok list \<Rightarrow> jtok list option" where
  "dscan 0 toks = None"
| "dscan (Suc n) toks = (case toks of [] \<Rightarrow> None | t # ts \<Rightarrow>
     if t = JDelim (CHR 0x7B) then dobject n [] ts
     else if t = JDelim (CHR 0x5B) then darray n ts
     else Some ts)"
| "dobject 0 seen toks = None"
| "dobject (Suc n) seen toks =
     (if jmore toks then
        (case toks of JString key # ts \<Rightarrow>
           (if key \<in> set seen then None
            else (case dscan n ts of None \<Rightarrow> None | Some rest \<Rightarrow> dobject n (key # seen) rest))
         | _ \<Rightarrow> None)
      else (case toks of [] \<Rightarrow> None | t # ts \<Rightarrow> Some ts))"
| "darray 0 toks = None"
| "darray (Suc n) toks =
     (if jmore toks then (case dscan n toks of None \<Rightarrow> None | Some rest \<Rightarrow> darray n rest)
      else (case toks of [] \<Rightarrow> None | t # ts \<Rightarrow> Some ts))"

definition rejectDuplicateConfigKeys :: "jtok list \<Rightarrow> bool" where
  "rejectDuplicateConfigKeys toks = (dscan (Suc (length toks)) toks \<noteq> None)"

text \<open>\<^verbatim>\<open>validateConfigShape\<close> after the check for repeated keys, on the JSON value of the input.\<close>

definition mountShape :: "json \<Rightarrow> bool" where
  "mountShape j = (case j of
      Obj ps \<Rightarrow> ''guest'' \<in> fst ` set ps \<and> ''host'' \<in> fst ` set ps \<and>
        list_all (\<lambda>(name, v). name \<in> {''guest'', ''host'', ''read'', ''write'', ''mutateDirectory''} \<and> v \<noteq> Nul) ps
    | _ \<Rightarrow> False)"

definition limitNames :: "string set" where
  "limitNames = {''maxDescriptors'', ''maxStreams'', ''maxErrors'', ''maxDirectoryStreams'', ''maxNetworkHandles'',
     ''maxPollables'', ''maxPollInputs'', ''maxDirectoryEntryBytes'', ''maxAggregateBufferBytes''}"

definition limitsShape :: "json \<Rightarrow> bool" where
  "limitsShape j = (case j of
      Obj ps \<Rightarrow> list_all (\<lambda>(name, v). name \<in> limitNames \<and> v \<noteq> Nul \<and> v \<noteq> Num ''0'') ps
    | _ \<Rightarrow> False)"

definition mountsShape :: "json \<Rightarrow> bool" where
  "mountsShape j = (case j of Arr ms \<Rightarrow> list_all mountShape ms | _ \<Rightarrow> False)"

definition validateConfigShape :: "json \<Rightarrow> bool" where
  "validateConfigShape j =
     (rejectDuplicateConfigKeys (tokens j) \<and>
      (case j of
         Obj ps \<Rightarrow>
           list_all (\<lambda>(name, v). name \<in> {''stdin'', ''stdout'', ''stderr'', ''env'', ''mounts'', ''limits''} \<and> v \<noteq> Nul) ps \<and>
           (case map_of ps ''mounts'' of None \<Rightarrow> True | Some v \<Rightarrow> mountsShape v) \<and>
           (case map_of ps ''limits'' of None \<Rightarrow> True | Some v \<Rightarrow> limitsShape v)
       | _ \<Rightarrow> False))"

section \<open>Decoded configuration\<close>

record pluginConfig2 =
  p2_Stdin :: "string option"
  p2_Stdout :: "string option"
  p2_Stderr :: "string option"
  p2_Env :: "string list option"
  p2_Mounts :: "preopen list option"
  p2_Limits :: "limits option"

definition streamModes :: "pluginConfig2 \<Rightarrow> bool" where
  "streamModes cfg \<longleftrightarrow> \<not> (p2_Stdin cfg \<noteq> None \<and> p2_Stdin cfg \<noteq> Some ''inherit'' \<and> p2_Stdin cfg \<noteq> Some ''eof'' \<or>
     p2_Stdout cfg \<noteq> None \<and> p2_Stdout cfg \<noteq> Some ''inherit'' \<and> p2_Stdout cfg \<noteq> Some ''discard'' \<or>
     p2_Stderr cfg \<noteq> None \<and> p2_Stderr cfg \<noteq> Some ''inherit'' \<and> p2_Stderr cfg \<noteq> Some ''discard'')"

text \<open>\<^verbatim>\<open>validateConfig\<close>: \<open>raw\<close> is valid UTF-8 that denotes the JSON value \<open>j\<close> and nothing after it, and \<open>decoded\<close> is
  what the strict decoder makes of it (\<open>None\<close>: an error).\<close>

definition validateConfig :: "string \<Rightarrow> json \<Rightarrow> pluginConfig2 option \<Rightarrow> bool" where
  "validateConfig raw j decoded =
     (if \<not> validateSurrogateEscapes raw then False
      else if \<not> validateConfigShape j then False
      else (case decoded of None \<Rightarrow> False | Some cfg \<Rightarrow>
        streamModes cfg \<and>
        (case p2_Mounts cfg of None \<Rightarrow> True | Some ms \<Rightarrow> validateMounts ms) \<and>
        (case p2_Env cfg of None \<Rightarrow> True | Some env \<Rightarrow> length env \<le> 4096 \<and> list_all validEnvEntry env) \<and>
        (case p2_Limits cfg of None \<Rightarrow> True | Some l \<Rightarrow> validateLimits l)))"

section \<open>Repeated keys\<close>

text \<open>No object of the value, at any depth, has the same key twice.\<close>

fun keysOnce :: "json \<Rightarrow> bool" where
  "keysOnce (Arr xs) \<longleftrightarrow> (\<forall>x\<in>set xs. keysOnce x)"
| "keysOnce (Obj ps) \<longleftrightarrow> distinct (map fst ps) \<and> (\<forall>(k, v)\<in>set ps. keysOnce v)"
| "keysOnce j \<longleftrightarrow> True"

definition scanned :: "json \<Rightarrow> bool" where
  "scanned j \<longleftrightarrow> (\<forall>n rest. length (tokens j) < n \<longrightarrow> dscan n (tokens j @ rest) = (if keysOnce j then Some rest else None))"

lemma darray_tokens:
  "(\<And>x. x \<in> set xs \<Longrightarrow> scanned x) \<Longrightarrow> length (concat (map tokens xs)) + 1 < n \<Longrightarrow>
     darray n (concat (map tokens xs) @ JDelim (CHR 0x5D) # rest) = (if \<forall>x\<in>set xs. keysOnce x then Some rest else None)"
proof (induction xs arbitrary: n)
  case Nil
  then show ?case by (cases n) simp_all
next
  case (Cons x xs)
  then obtain k where n: "n = Suc k" by (cases n) simp_all
  have "tokens x \<noteq> []" using tokens_nonempty [of x] by auto
  then have x: "0 < length (tokens x)" by simp
  have "dscan k (tokens x @ r) = (if keysOnce x then Some r else None)" for r
    using Cons.prems(1) [of x] Cons.prems(2) n by (simp add: scanned_def)
  moreover have "length (concat (map tokens xs)) + 1 < k"
    using Cons.prems(2) n x by (simp del: length_greater_0_conv)
  ultimately show ?case using Cons n by simp
qed

lemma dobject_tokens:
  "(\<And>p. p \<in> set ps \<Longrightarrow> scanned (snd p)) \<Longrightarrow> length (pairs ps) + 1 < n \<Longrightarrow> distinct seen \<Longrightarrow>
     dobject n seen (pairs ps @ JDelim (CHR 0x7D) # rest) =
       (if distinct (seen @ map fst ps) \<and> (\<forall>p\<in>set ps. keysOnce (snd p)) then Some rest else None)"
proof (induction ps arbitrary: n seen)
  case Nil
  then show ?case by (cases n) simp_all
next
  case (Cons p ps)
  obtain key v where p: "p = (key, v)" by (cases p)
  from Cons.prems obtain k where n: "n = Suc k" by (cases n) simp_all
  have len: "length (tokens v) < k" "length (pairs ps) + 1 < k" using Cons.prems(2) n p by simp_all
  have v: "dscan k (tokens v @ r) = (if keysOnce v then Some r else None)" for r
    using Cons.prems(1) [of p] len p by (simp add: scanned_def)
  have IH: "dobject k (key # seen) (pairs ps @ JDelim (CHR 0x7D) # rest) =
       (if distinct ((key # seen) @ map fst ps) \<and> (\<forall>p\<in>set ps. keysOnce (snd p)) then Some rest else None)" if "key \<notin> set seen"
    using Cons.prems len that by (intro Cons.IH) simp_all
  show ?case using IH by (auto simp: n p v)
qed

lemma scanned_all: "scanned j"
proof (induction j)
  case (Arr xs)
  show ?case
    unfolding scanned_def
  proof (intro allI impI)
    fix n rest assume "length (tokens (Arr xs)) < n"
    then obtain k where "n = Suc k" "length (concat (map tokens xs)) + 1 < k" by (cases n) simp_all
    then show "dscan n (tokens (Arr xs) @ rest) = (if keysOnce (Arr xs) then Some rest else None)"
      using darray_tokens [OF Arr] by simp
  qed
next
  case (Obj ps)
  show ?case
    unfolding scanned_def
  proof (intro allI impI)
    fix n rest assume "length (tokens (Obj ps)) < n"
    then obtain k where k: "n = Suc k" "length (pairs ps) + 1 < k" by (cases n) simp_all
    have "scanned (snd p)" if "p \<in> set ps" for p using Obj that by (cases p) auto
    from dobject_tokens [OF this k(2), of "[]" rest]
    show "dscan n (tokens (Obj ps) @ rest) = (if keysOnce (Obj ps) then Some rest else None)"
      by (simp add: k(1) case_prod_beta)
  qed
qed (auto simp: scanned_def dest!: less_imp_Suc_add)

text \<open>C20: on the token stream of a JSON value \<^verbatim>\<open>rejectDuplicateConfigKeys\<close> reports no error exactly when no object of
  the value, however deeply nested, has the same key twice.\<close>

theorem rejectDuplicateConfigKeys_iff: "rejectDuplicateConfigKeys (tokens j) \<longleftrightarrow> keysOnce j"
  using scanned_all [of j] unfolding scanned_def rejectDuplicateConfigKeys_def
  by (metis append_Nil2 lessI option.distinct(1))

section \<open>The two providers\<close>

lemma validEnvEntry_eq: "validEnvEntry = envEntryOk"
  by (auto simp: fun_eq_iff validEnvEntry_def envEntryOk_def split: prod.split)

lemma escapeScan_eq: "escapeScan raw b i = surrogateScan raw b i"
  by (induction raw b i rule: escapeScan.induct)
    (subst escapeScan.simps, subst surrogateScan.simps, auto simp: jsonEscapeCodeUnit_def configJSONEscapeCodeUnit_def split: option.split)

lemma scanMounts_eq: "scanMounts seen ms = mountsOk seen ms"
  by (induction ms arbitrary: seen) (auto simp: validateMount_def Let_def)

text \<open>the checks that both providers implement separately agree: the Preview 2 provider accepts the same
  surrogate escapes, the same environment entries and the same mount lists (up to its limit of 64) as
  the Preview 1 plugin.\<close>

theorem providers_agree:
  "validateSurrogateEscapes raw = validateConfigSurrogateEscapes raw \<and>
   validEnvEntry item = envEntryOk item \<and>
   validateMounts ms = (length ms \<le> 64 \<and> list_all validateMount ms \<and> distinct (map GuestPath ms))"
  by (simp add: validateSurrogateEscapes_def validateConfigSurrogateEscapes_def escapeScan_eq validEnvEntry_eq
      validateMounts_def scanMounts_eq mountsOk_iff)

section \<open>Limits in force\<close>

text \<open>The documented maxima of the limits, and limits of which none is left open.\<close>

definition limitsWithin :: "limits \<Rightarrow> bool" where
  "limitsWithin l \<longleftrightarrow> unat (MaxDescriptors l) \<le> 65536 \<and> unat (MaxStreams l) \<le> 65536 \<and> unat (MaxErrors l) \<le> 65536 \<and>
     unat (MaxDirectoryStreams l) \<le> 65536 \<and> unat (MaxNetworkHandles l) \<le> 65536 \<and> unat (MaxPollables l) \<le> 65536 \<and>
     unat (MaxPollInputs l) \<le> 65536 \<and> unat (MaxDirectoryEntryBytes l) \<le> 16777216 \<and> unat (MaxAggregateBufferBytes l) \<le> 16777216"

definition limitsPositive :: "limits \<Rightarrow> bool" where
  "limitsPositive l \<longleftrightarrow> MaxDescriptors l \<noteq> 0 \<and> MaxStreams l \<noteq> 0 \<and> MaxErrors l \<noteq> 0 \<and> MaxDirectoryStreams l \<noteq> 0 \<and>
     MaxNetworkHandles l \<noteq> 0 \<and> MaxPollables l \<noteq> 0 \<and> MaxPollInputs l \<noteq> 0 \<and> MaxDirectoryEntryBytes l \<noteq> 0 \<and>
     MaxAggregateBufferBytes l \<noteq> 0"

lemma validateLimits_iff: "validateLimits l \<longleftrightarrow> limitsWithin l"
  by (simp add: validateLimits_def limitTable_def limitsWithin_def not_less word_le_nat_alt)

lemma orDefault_bound: "unat (v :: 'a::len word) \<le> k \<Longrightarrow> unat d \<le> k \<Longrightarrow> unat (orDefault v d) \<le> k"
  by (simp add: orDefault_def)

lemma orDefault_nonzero: "(d :: 'a::len word) \<noteq> 0 \<Longrightarrow> orDefault v d \<noteq> 0"
  by (simp add: orDefault_def)



end
