(* ===== verification/P2_State.thy ===== *)
theory P2_State
  imports Poll_Safe P2_Config
begin

text \<open>
  The state of one Preview 2 instance (\<^verbatim>\<open>hostState\<close> of \<^verbatim>\<open>p2/p2.go\<close> and \<^verbatim>\<open>filesystemState\<close> of \<^verbatim>\<open>p2/filesystem.go\<close>), the
  dynamically typed values of the component runtime, and the interface to everything outside the
  package. As in Preview 1 the outside is one parameter \<open>H\<close>, asked one call at a time over a world \<open>'w\<close>: the
  kernel, the handle table of the component runtime, the configured streams, clocks, timers, randomness
  and the state of the caller's context. An output or input stream is reached through its interface; what
  the adapters of \<^verbatim>\<open>p2/io.go\<close> promise there is shown in \<open>Async_Input\<close>, \<open>Output_Adapter\<close> and \<open>Poll_Safe\<close>.

  \<open>p_log\<close> is the sequence of calls so far and \<open>p_live\<close> the set of open file objects. A loop that ends only
  when the outside lets it makes at most \<open>p_fuel\<close> rounds and sets \<open>p_stuck\<close> when they are used up.
\<close>

section \<open>Values\<close>

text \<open>\<^verbatim>\<open>component.Value\<close>: the dynamic types that the handlers build and test for.\<close>

datatype val =
    VNil
  | VBool bool
  | VU32 u32
  | VU64 u64
  | VStr string
  | VBytes bytes
  | VList "val list"
  | VResult bool val
  | VVariant u32 val

text \<open>The result of a \<^verbatim>\<open>component.HostFunc\<close>: an error (a trap) or the list of values.\<close>

type_synonym hostResult = "goerr + val list"

abbreviation okResult :: "val \<Rightarrow> hostResult" where
  "okResult v \<equiv> Inr [VResult False v]"

abbreviation errResult :: "val \<Rightarrow> hostResult" where
  "errResult v \<equiv> Inr [VResult True v]"

text \<open>The two stream errors: \<^verbatim>\<open>last-operation-failed\<close> with an error resource, and \<^verbatim>\<open>closed\<close>.\<close>

abbreviation closedResult :: hostResult where
  "closedResult \<equiv> errResult (VVariant 1 VNil)"

fun elemByte :: "val \<Rightarrow> u8 option" where
  "elemByte (VU32 u) = Some (ucast u)"
| "elemByte v = None"

fun allBytes :: "val list \<Rightarrow> bytes option" where
  "allBytes [] = Some []"
| "allBytes (x # xs) = (case elemByte x of None \<Rightarrow> None | Some b \<Rightarrow> map_option ((#) b) (allBytes xs))"

definition bytesValue :: "val \<Rightarrow> goerr + bytes" where
  "bytesValue v = (case v of
      VBytes b \<Rightarrow> Inr b
    | VList xs \<Rightarrow> (case allBytes xs of None \<Rightarrow> Inl (OtherError ''list<u8>'') | Some b \<Rightarrow> Inr b)
    | _ \<Rightarrow> Inl (OtherError ''expected list<u8>''))"

definition repArg :: "val list \<Rightarrow> goerr + u32" where
  "repArg args = (if length args \<noteq> 1 then Inl (OtherError ''expected self'')
     else (case args ! 0 of VU32 rep \<Rightarrow> Inr rep | _ \<Rightarrow> Inl (OtherError ''self'')))"

section \<open>Resource tags and numbers\<close>

definition outputStreamResource :: u32 where "outputStreamResource = 1"
definition inputStreamResource :: u32 where "inputStreamResource = 2"
definition errorResource :: u32 where "errorResource = 3"
definition descriptorResource :: u32 where "descriptorResource = 4"
definition pollableResource :: u32 where "pollableResource = 5"
definition directoryStreamResource :: u32 where "directoryStreamResource = 8"
definition stdoutRep :: u32 where "stdoutRep = 1"
definition stderrRep :: u32 where "stderrRep = 2"
definition stdinRep :: u32 where "stdinRep = 3"
definition fileStreamRepMin :: u32 where "fileStreamRepMin = 0x10000"

section \<open>State\<close>

text \<open>An \<^verbatim>\<open>OutputStream\<close> of the instance: the two standard streams, each behind a \<^verbatim>\<open>pollSafeOutput\<close>, or the
  adapter of a file stream, named by a serial number.\<close>

datatype out = StdOut | StdErr | Adapter nat

text \<open>The closures of a \<^verbatim>\<open>pollableValue\<close>, by the place in \<^verbatim>\<open>clocks.go\<close> that creates them.\<close>

datatype pollable = TimerPoll u64 | StdinPoll | FilePoll | OutputPoll u32 out

record hostState =
  h_stdinProbe :: u8
  h_stdinBuffered :: bool
  h_stdinReadError :: "goerr option"
  h_stdout :: "u64 \<times> goerr option"
  h_stderr :: "u64 \<times> goerr option"
  h_errors :: "(u32 \<times> goerr) list"
  h_nextError :: u32
  h_pollables :: "(u32 \<times> pollable) list"
  h_nextPollable :: u32
  h_permits :: "(u32 \<times> u64) list"
  h_outputs :: "(u32 \<times> out) list"
  h_outputFailed :: "(u32 \<times> bool) list"
  h_networks :: u32
  h_limits :: limits

text \<open>\<open>m_base\<close>, \<open>d_append\<close>: a nil pointer is \<open>None\<close>; an append target is its index in the table \<^verbatim>\<open>appendTargets\<close>.\<close>

record filesystemMount =
  m_guest :: string
  m_host :: string
  m_flags :: u32
  m_base :: "fileid option"

record descriptorNode =
  d_file :: fileid
  d_mount :: nat
  d_flags :: u32
  d_isDir :: bool
  d_append :: "u8 option"

record fileStream =
  st_file :: fileid
  st_pos :: u64
  st_read :: bool
  st_closed :: bool
  st_append :: "u8 option"

record directoryStream =
  ds_file :: fileid
  ds_buffer :: "bytes option"
  ds_pos :: nat
  ds_end :: nat

record filesystemState =
  f_mounts :: "filesystemMount list"
  f_descs :: "(u32 \<times> descriptorNode) list"
  f_streams :: "(u32 \<times> fileStream) list"
  f_stdStreams :: u32
  f_dirs :: "(u32 \<times> directoryStream) list"
  f_nextDesc :: u32
  f_nextStream :: u32
  f_nextDir :: u32
  f_limits :: limits

text \<open>The host state that \<^verbatim>\<open>instanceOptions\<close> creates; \<open>limits\<close> are the normalized limits.\<close>

definition newHostState :: "limits \<Rightarrow> hostState" where
  "newHostState limits = \<lparr>h_stdinProbe = 0, h_stdinBuffered = False, h_stdinReadError = None, h_stdout = (0, None),
     h_stderr = (0, None), h_errors = [], h_nextError = 1, h_pollables = [], h_nextPollable = 1, h_permits = [],
     h_outputs = [], h_outputFailed = [], h_networks = 0, h_limits = limits\<rparr>"

section \<open>The outside\<close>

text \<open>\<open>Os\<close>: the file operations shared with Preview 1. \<open>CtxErr\<close> is \<^verbatim>\<open>ctx.Err()\<close>, \<open>Sleep d\<close> waits for a timer or the
  context, \<open>PendingR\<close> asks whether standard input is an \<^verbatim>\<open>asyncInput\<close> with a pending read error,
  and \<open>NextWorker k\<close> which of the \<open>k\<close> waiting goroutines of \<^verbatim>\<open>waitPollables\<close> reports next.\<close>

datatype p2call =
    Os hostcall
  | WriteAt fileid bytes u64
  | Fdatasync fileid
  | ReadDirent fileid nat
  | Fstatat fileid string
  | CheckW out
  | TryW out bytes
  | FlushW out
  | WaitW out
  | TryR nat
  | WaitR
  | PendingR
  | NewOwn u32 u32
  | TakeOwn u32 u32
  | RepOf u32 u32
  | NextWorker nat
  | CtxErr
  | Sleep u64
  | MonoNow
  | Wall
  | Random nat

datatype p2res =
    RHost hostres
  | RErrOpt "goerr option"
  | RPermit u64 "goerr option"
  | RRead bytes "goerr option"
  | RYes bool
  | RHandle u32
  | RFail goerr
  | RNum u64
  | RTime time

type_synonym 'w p2host = "p2call \<Rightarrow> 'w \<Rightarrow> p2res \<times> 'w"

fun asErrOpt :: "p2res \<Rightarrow> goerr option" where
  "asErrOpt (RErrOpt e) = e"
| "asErrOpt (RHost r) = asErr r"
| "asErrOpt _ = Some badReply"

fun asPermit :: "p2res \<Rightarrow> u64 \<times> goerr option" where
  "asPermit (RPermit n e) = (n, e)"
| "asPermit _ = (0, Some badReply)"

fun asRead :: "p2res \<Rightarrow> bytes \<times> goerr option" where
  "asRead (RRead b e) = (b, e)"
| "asRead _ = ([], Some badReply)"

fun asYes :: "p2res \<Rightarrow> bool" where
  "asYes (RYes b) = b"
| "asYes _ = False"

fun asHandle :: "p2res \<Rightarrow> u32" where
  "asHandle (RHandle h) = h"
| "asHandle _ = 0"

fun asRep :: "p2res \<Rightarrow> goerr + u32" where
  "asRep (RHandle h) = Inr h"
| "asRep (RFail e) = Inl e"
| "asRep _ = Inl badReply"

fun asNum :: "p2res \<Rightarrow> u64" where
  "asNum (RNum n) = n"
| "asNum _ = 0"

fun asTime :: "p2res \<Rightarrow> time" where
  "asTime (RTime t) = t"
| "asTime _ = 0"

fun asHost :: "p2res \<Rightarrow> hostres" where
  "asHost (RHost r) = r"
| "asHost _ = RErr badReply"

record 'w p2 =
  p_host :: hostState
  p_fs :: filesystemState
  p_world :: 'w
  p_log :: "p2call list"
  p_live :: "fileid set"
  p_next :: nat
  p_fuel :: nat
  p_stuck :: bool

section \<open>Primitive steps\<close>

definition p2Call :: "'w p2host \<Rightarrow> p2call \<Rightarrow> ('w p2, p2res) state" where
  "p2Call H c = State (\<lambda>s. case H c (p_world s) of
     (r, w) \<Rightarrow> (r, s\<lparr>p_world := w, p_log := p_log s @ [c]\<rparr>))"

definition onHost :: "(hostState \<Rightarrow> hostState) \<Rightarrow> ('w p2, unit) state" where
  "onHost f = modify (\<lambda>s. s\<lparr>p_host := f (p_host s)\<rparr>)"

definition onFs :: "(filesystemState \<Rightarrow> filesystemState) \<Rightarrow> ('w p2, unit) state" where
  "onFs f = modify (\<lambda>s. s\<lparr>p_fs := f (p_fs s)\<rparr>)"

definition osOpen :: "'w p2host \<Rightarrow> nat \<Rightarrow> (fileid \<Rightarrow> hostcall) \<Rightarrow> ('w p2, goerr + fileid) state" where
  "osOpen H root mk = do {
     n \<leftarrow> gets p_next;
     r \<leftarrow> p2Call H (Os (mk (root, n)));
     case asErrOpt r of
       Some e \<Rightarrow> ret (Inl e)
     | None \<Rightarrow> do {
         modify (\<lambda>s. s\<lparr>p_live := insert (root, n) (p_live s), p_next := Suc n\<rparr>);
         ret (Inr (root, n)) } }"

definition osClose :: "'w p2host \<Rightarrow> fileid \<Rightarrow> ('w p2, goerr option) state" where
  "osClose H f = do {
     r \<leftarrow> p2Call H (Os (HClose f));
     modify (\<lambda>s. s\<lparr>p_live := p_live s - {f}\<rparr>);
     ret (asErrOpt r) }"

definition osStat :: "'w p2host \<Rightarrow> fileid \<Rightarrow> ('w p2, goerr + finfo) state" where
  "osStat H f = do { r \<leftarrow> p2Call H (Os (HStat f)); ret (asInfo (asHost r)) }"

definition osDo :: "'w p2host \<Rightarrow> p2call \<Rightarrow> ('w p2, goerr option) state" where
  "osDo H c = do { r \<leftarrow> p2Call H c; ret (asErrOpt r) }"

definition ctxErr :: "'w p2host \<Rightarrow> ('w p2, goerr option) state" where
  "ctxErr H = do { r \<leftarrow> p2Call H CtxErr; ret (asErrOpt r) }"

definition outOfFuel :: "('w p2, unit) state" where
  "outOfFuel = modify (\<lambda>s. s\<lparr>p_stuck := True\<rparr>)"

lemma wp_p2Call [wp_simps]:
  "wp (p2Call H c) Q s = (case H c (p_world s) of (r, w) \<Rightarrow> Q r (s\<lparr>p_world := w, p_log := p_log s @ [c]\<rparr>))"
  by (simp add: wp_def p2Call_def split: prod.splits)

lemma run_p2Call [simp]:
  "run_state (p2Call H c) s = (fst (H c (p_world s)), s\<lparr>p_world := snd (H c (p_world s)), p_log := p_log s @ [c]\<rparr>)"
  by (simp add: p2Call_def split: prod.splits)

lemma run_onHost [simp]: "run_state (onHost f) s = ((), s\<lparr>p_host := f (p_host s)\<rparr>)"
  by (simp add: onHost_def)

lemma run_onFs [simp]: "run_state (onFs f) s = ((), s\<lparr>p_fs := f (p_fs s)\<rparr>)"
  by (simp add: onFs_def)

lemma wp_onHost [wp_simps]: "wp (onHost f) Q s = Q () (s\<lparr>p_host := f (p_host s)\<rparr>)"
  by (simp add: wp_def)

lemma wp_onFs [wp_simps]: "wp (onFs f) Q s = Q () (s\<lparr>p_fs := f (p_fs s)\<rparr>)"
  by (simp add: wp_def)

section \<open>Output streams\<close>

text \<open>The streams outside, through their interface.\<close>

definition rawStream :: "'w p2host \<Rightarrow> out \<Rightarrow> 'w p2 outputStream" where
  "rawStream H d = \<lparr>
     os_CheckWrite = (\<lambda>s. map_prod asPermit id (run_state (p2Call H (CheckW d)) s)),
     os_TryWrite = (\<lambda>b s. map_prod asErrOpt id (run_state (p2Call H (TryW d b)) s)),
     os_BeginFlush = (\<lambda>s. map_prod asErrOpt id (run_state (p2Call H (FlushW d)) s)),
     os_WaitWritable = (\<lambda>s. map_prod asErrOpt id (run_state (p2Call H (WaitW d)) s))\<rparr>"

text \<open>The fields of the two wrappers are in the host state; a method of a wrapper runs on them and on the rest
  of the state as the state of the stream behind it.\<close>

definition wrapperOf :: "out \<Rightarrow> hostState \<Rightarrow> u64 \<times> goerr option" where
  "wrapperOf d h = (if d = StdOut then h_stdout h else h_stderr h)"

definition setWrapper :: "out \<Rightarrow> u64 \<times> goerr option \<Rightarrow> hostState \<Rightarrow> hostState" where
  "setWrapper d w h = (if d = StdOut then h\<lparr>h_stdout := w\<rparr> else h\<lparr>h_stderr := w\<rparr>)"

definition viaSafe :: "out \<Rightarrow> ('w p2 pollSafeOutput \<Rightarrow> 'r \<times> 'w p2 pollSafeOutput) \<Rightarrow> ('w p2, 'r) state" where
  "viaSafe d f = State (\<lambda>s. case wrapperOf d (p_host s) of (permit, pending) \<Rightarrow>
     (case f \<lparr>ps_stream = s, ps_permit = permit, ps_pending = pending\<rparr> of
        (r, p) \<Rightarrow> (r, (ps_stream p)\<lparr>p_host := setWrapper d (ps_permit p, ps_pending p) (p_host (ps_stream p))\<rparr>)))"

fun isWrapped :: "out \<Rightarrow> bool" where
  "isWrapped (Adapter i) = False"
| "isWrapped d = True"

definition outCheckWrite :: "'w p2host \<Rightarrow> out \<Rightarrow> ('w p2, u64 \<times> goerr option) state" where
  "outCheckWrite H d = (if isWrapped d then viaSafe d (safeCheckWrite (rawStream H d)) else State (os_CheckWrite (rawStream H d)))"

definition outTryWrite :: "'w p2host \<Rightarrow> out \<Rightarrow> bytes \<Rightarrow> ('w p2, goerr option) state" where
  "outTryWrite H d b = (if isWrapped d then viaSafe d (safeTryWrite (rawStream H d) b) else State (os_TryWrite (rawStream H d) b))"

definition outBeginFlush :: "'w p2host \<Rightarrow> out \<Rightarrow> ('w p2, goerr option) state" where
  "outBeginFlush H d = (if isWrapped d then viaSafe d (safeBeginFlush (rawStream H d)) else State (os_BeginFlush (rawStream H d)))"

definition outWaitWritable :: "'w p2host \<Rightarrow> out \<Rightarrow> ('w p2, goerr option) state" where
  "outWaitWritable H d = (if isWrapped d then viaSafe d (safeWaitWritable (rawStream H d)) else State (os_WaitWritable (rawStream H d)))"

end
