(* ===== verification/P2_Authority.thy ===== *)
theory P2_Authority
  imports P2_State
begin

text \<open>
  What a call of a Preview 2 instance to the outside may do, and the invariant that every operation keeps.
  The authority of an instance is the flag word of each mount (1: read, 2: write, 32: mutate directory)
  with its host path, and the limits. \<open>allowed2\<close> is the set of permitted calls; \<open>Inv2\<close> adds that every table
  stays within its limit, that every descriptor and stream holds flags its mount grants, that no two
  resources share a number, and that every open file object belongs to a table or to the list \<open>F\<close> of files
  the running operation still has to close.
\<close>

section \<open>Permitted calls\<close>

record authority2 =
  a2_flags :: "nat \<Rightarrow> u32"
  a2_host :: "nat \<Rightarrow> string option"
  a2_limits :: limits

definition grants :: "authority2 \<Rightarrow> fileid \<Rightarrow> u32 \<Rightarrow> bool" where
  "grants A f w \<longleftrightarrow> a2_flags A (fst f) AND w = w"

text \<open>A name that the kernel looks up in a directory: one component, possibly followed by empty and \<^verbatim>\<open>.\<close> components.\<close>

definition component :: "string \<Rightarrow> bool" where
  "component n \<longleftrightarrow> n \<noteq> [] \<and> CHR ''/'' \<notin> set n \<and> n \<noteq> ''..''"

definition dotted :: "string \<Rightarrow> bool" where
  "dotted n \<longleftrightarrow> (case split_on (CHR ''/'') n of [] \<Rightarrow> False
     | c # cs \<Rightarrow> component c \<and> c \<noteq> ''.'' \<and> (\<forall>d\<in>set cs. d = [] \<or> d = ''.''))"

definition openOk2 :: "authority2 \<Rightarrow> fileid \<Rightarrow> u64 \<Rightarrow> bool" where
  "openOk2 A d flags \<longleftrightarrow>
     (flags AND (O_CREAT OR O_TRUNC) \<noteq> 0 \<longrightarrow> grants A d 32) \<and>
     (flags AND (O_ACCMODE OR O_TRUNC) \<noteq> 0 \<longrightarrow> grants A d (2 OR 32))"

fun allowedOs :: "authority2 \<Rightarrow> hostcall \<Rightarrow> bool" where
  "allowedOs A (HStat f) = True"
| "allowedOs A (HClose f) = True"
| "allowedOs A (HReadAt f n off) = grants A f 1"
| "allowedOs A (HSync f) = grants A f 2"
| "allowedOs A (HTruncate f n) = grants A f 2"
| "allowedOs A (HOsOpen name n) = (a2_host A (fst n) = Some name)"
| "allowedOs A (HDup d n) = (fst n = fst d)"
| "allowedOs A (HOpenat2 d name flags mode how n) = (fst n = fst d \<and> how = secureResolve \<and> openOk2 A d flags)"
| "allowedOs A (HOpenat d name flags mode n) =
     (fst n = fst d \<and> component name \<and> flags AND O_NOFOLLOW \<noteq> 0 \<and> openOk2 A d flags)"
| "allowedOs A (HReadlinkat d name n) = dotted name"
| "allowedOs A (HMkdirat d name mode) = (dotted name \<and> grants A d 32)"
| "allowedOs A (HLinkat d name e name') = (dotted name \<and> dotted name' \<and> fst d = fst e \<and> grants A e 32)"
| "allowedOs A (HUnlinkat d name dir) = (dotted name \<and> grants A d 32)"
| "allowedOs A (HRenameat d name e name') = (dotted name \<and> dotted name' \<and> fst d = fst e \<and> grants A d 32 \<and> grants A e 32)"
| "allowedOs A (HSymlinkat target d name) = (dotted name \<and> \<not> hasPrefix target ''/'' \<and> grants A d 32)"
| "allowedOs A (HUtimes f name a m nofollow) =
     (if name = [] then grants A f 2 \<or> grants A f 32 else component name \<and> nofollow \<and> grants A f 32)"
| "allowedOs A _ = False"

fun allowed2 :: "authority2 \<Rightarrow> p2call \<Rightarrow> bool" where
  "allowed2 A (Os c) = allowedOs A c"
| "allowed2 A (WriteAt f b off) = grants A f 2"
| "allowed2 A (Fdatasync f) = grants A f 2"
| "allowed2 A (TryW d b) = (length b \<le> unat (ioLimit (a2_limits A)))"
| "allowed2 A _ = True"

section \<open>The invariant\<close>

text \<open>\<open>keyed n ks\<close>: the numbers in use are distinct and below the counter, which has not wrapped.\<close>

definition keyed :: "u32 \<Rightarrow> (u32 \<times> 'v) list \<Rightarrow> bool" where
  "keyed n al \<longleftrightarrow> distinct (map fst al) \<and> (\<forall>k\<in>fst ` set al. k < n)"

definition hostOk :: "authority2 \<Rightarrow> hostState \<Rightarrow> bool" where
  "hostOk A h \<longleftrightarrow> h_limits h = a2_limits A \<and>
     length (h_errors h) \<le> unat (MaxErrors (a2_limits A)) \<and>
     length (h_pollables h) \<le> unat (MaxPollables (a2_limits A)) \<and>
     h_networks h \<le> MaxNetworkHandles (a2_limits A) \<and>
     (\<forall>p\<in>snd ` set (h_permits h). p \<le> ioLimit (a2_limits A))"

definition nodeOk :: "authority2 \<Rightarrow> descriptorNode \<Rightarrow> bool" where
  "nodeOk A n \<longleftrightarrow> fst (d_file n) = Suc (d_mount n) \<and> (d_flags n AND 0x23) AND NOT (a2_flags A (Suc (d_mount n))) = 0"

definition streamOk2 :: "authority2 \<Rightarrow> fileStream \<Rightarrow> bool" where
  "streamOk2 A st \<longleftrightarrow> grants A (st_file st) (if st_read st then 1 else 2)"

definition mountOk2 :: "authority2 \<Rightarrow> nat \<Rightarrow> filesystemMount \<Rightarrow> bool" where
  "mountOk2 A i m \<longleftrightarrow> m_flags m = a2_flags A (Suc i) \<and> a2_host A (Suc i) = Some (m_host m) \<and>
     (\<forall>f\<in>set_option (m_base m). fst f = Suc i)"

definition fsOk :: "authority2 \<Rightarrow> nat \<Rightarrow> filesystemState \<Rightarrow> bool" where
  "fsOk A b fs \<longleftrightarrow> f_limits fs = a2_limits A \<and> length (f_mounts fs) \<le> 64 \<and>
     keyed (f_nextDesc fs) (f_descs fs) \<and> keyed (f_nextStream fs) (f_streams fs) \<and> keyed (f_nextDir fs) (f_dirs fs) \<and>
     unat (f_nextDesc fs) \<le> b \<and> unat (f_nextStream fs) \<le> b \<and> unat (f_nextDir fs) \<le> b \<and> b < 2 ^ 32 \<and>
     length (f_descs fs) \<le> unat (MaxDescriptors (a2_limits A)) \<and>
     length (f_streams fs) + unat (f_stdStreams fs) \<le> unat (MaxStreams (a2_limits A)) \<and>
     length (f_dirs fs) \<le> unat (MaxDirectoryStreams (a2_limits A)) \<and>
     (\<forall>n\<in>snd ` set (f_descs fs). nodeOk A n) \<and> (\<forall>st\<in>snd ` set (f_streams fs). streamOk2 A st) \<and>
     (\<forall>i<length (f_mounts fs). mountOk2 A i (f_mounts fs ! i))"

definition owned2 :: "filesystemState \<Rightarrow> fileid set" where
  "owned2 fs = d_file ` snd ` set (f_descs fs) \<union> st_file ` snd ` set (f_streams fs) \<union>
     ds_file ` snd ` set (f_dirs fs) \<union> (\<Union>m\<in>set (f_mounts fs). set_option (m_base m))"

definition Inv2 :: "authority2 \<Rightarrow> nat \<Rightarrow> fileid set \<Rightarrow> 'w p2 \<Rightarrow> bool" where
  "Inv2 A b F s \<longleftrightarrow> hostOk A (p_host s) \<and> fsOk A b (p_fs s) \<and> (\<forall>c\<in>set (p_log s). allowed2 A c) \<and>
     p_live s \<subseteq> owned2 (p_fs s) \<union> F"

lemma Inv2_mono: "Inv2 A b F s \<Longrightarrow> b \<le> b' \<Longrightarrow> b' < 2 ^ 32 \<Longrightarrow> F \<subseteq> F' \<Longrightarrow> Inv2 A b' F' s"
  unfolding Inv2_def fsOk_def by auto

section \<open>Rules\<close>

named_theorems p2vcg \<open>rules of triples over Preview 2 states\<close>

lemmas [p2vcg] = triple_bind triple_if triple_let triple_case_option triple_case_sum triple_case_prod

abbreviation keeps :: "authority2 \<Rightarrow> nat \<Rightarrow> fileid set \<Rightarrow> ('w p2, 'a) state \<Rightarrow> ('a \<Rightarrow> bool) \<Rightarrow> bool" where
  "keeps A b F m R \<equiv> triple (Inv2 A b F) m (\<lambda>_. Inv2 A b F) R"

lemma triple_return2 [p2vcg]:
  "R a \<Longrightarrow> F \<subseteq> F' a \<Longrightarrow> b \<le> b' a \<Longrightarrow> b' a < 2 ^ 32 \<or> b' a = b \<Longrightarrow> triple (Inv2 A b F) (ret a) (\<lambda>r. Inv2 A (b' r) (F' r)) R"
  by (auto simp: triple_def wp_simps intro: Inv2_mono) (metis Inv2_mono Inv2_def fsOk_def order.refl)

lemma keeps_p2Call [p2vcg]: "allowed2 A c \<Longrightarrow> keeps A b F (p2Call H c) (\<lambda>_. True)"
  by (auto simp: triple_def wp_simps Inv2_def split: prod.splits)

lemma keeps_osDo [p2vcg]: "allowed2 A c \<Longrightarrow> keeps A b F (osDo H c) (\<lambda>_. True)"
  unfolding osDo_def by (rule p2vcg | simp)+

lemma keeps_ctxErr [p2vcg]: "keeps A b F (ctxErr H) (\<lambda>_. True)"
  unfolding ctxErr_def by (rule p2vcg | simp)+

lemma keeps_osStat [p2vcg]: "keeps A b F (osStat H f) (\<lambda>_. True)"
  unfolding osStat_def by (rule p2vcg | simp)+

lemma keeps_outOfFuel [p2vcg]: "keeps A b F outOfFuel (\<lambda>_. True)"
  by (auto simp: triple_def wp_simps Inv2_def outOfFuel_def)

lemma keeps_gets_host [p2vcg]: "keeps A b F (gets p_host) (\<lambda>h. hostOk A h)"
  by (auto simp: triple_def wp_simps Inv2_def)

lemma keeps_gets_fs [p2vcg]: "keeps A b F (gets p_fs) (\<lambda>fs. fsOk A b fs)"
  by (auto simp: triple_def wp_simps Inv2_def)

lemma keeps_gets [p2vcg]: "keeps A b F (gets f) (\<lambda>_. True)"
  by (auto simp: triple_def wp_simps)

lemma keeps_onHost [p2vcg]: "(\<And>h. hostOk A h \<Longrightarrow> hostOk A (f h)) \<Longrightarrow> keeps A b F (onHost f) (\<lambda>_. True)"
  by (auto simp: triple_def wp_simps Inv2_def)

lemma triple_osOpen2 [p2vcg]:
  "(\<And>n. allowedOs A (mk (root, n))) \<Longrightarrow>
     triple (Inv2 A b F) (osOpen H root mk) (\<lambda>r. Inv2 A b (case r of Inl e \<Rightarrow> F | Inr f \<Rightarrow> insert f F))
       (\<lambda>r. \<forall>f. r = Inr f \<longrightarrow> fst f = root)"
  by (auto simp: triple_def wp_simps Inv2_def osOpen_def split: prod.splits option.splits)

lemma triple_osClose2 [p2vcg]: "triple (Inv2 A b F) (osClose H f) (\<lambda>_. Inv2 A b (F - {f})) (\<lambda>_. True)"
  by (auto simp: triple_def wp_simps Inv2_def osClose_def split: prod.splits)

lemma viaSafe_keeps:
  assumes "\<And>x. Inv2 A b F (ps_stream x) \<Longrightarrow> Inv2 A b F (ps_stream (snd (f x)))"
  shows "keeps A b F (viaSafe d f) (\<lambda>_. True)"
proof -
  have set: "hostOk A (setWrapper d w h) = hostOk A h" for w h by (simp add: setWrapper_def hostOk_def)
  have "wp (viaSafe d f) (\<lambda>_ t. Inv2 A b F t) s" if "Inv2 A b F s" for s :: "'a p2"
  proof -
    obtain permit pending where w: "wrapperOf d (p_host s) = (permit, pending)" by (cases "wrapperOf d (p_host s)")
    let ?x = "\<lparr>ps_stream = s, ps_permit = permit, ps_pending = pending\<rparr>"
    obtain r p where r: "f ?x = (r, p)" by (cases "f ?x")
    have "Inv2 A b F (ps_stream p)" using assms [of ?x] that r by simp
    then show ?thesis by (simp add: wp_run viaSafe_def w r Inv2_def set)
  qed
  then show ?thesis by (simp add: triple_def)
qed

lemma rawStream_keeps:
  "Inv2 A b F s \<Longrightarrow> Inv2 A b F (snd (os_CheckWrite (rawStream H d) s))"
  "Inv2 A b F s \<Longrightarrow> Inv2 A b F (snd (os_BeginFlush (rawStream H d) s))"
  "Inv2 A b F s \<Longrightarrow> Inv2 A b F (snd (os_WaitWritable (rawStream H d) s))"
  "Inv2 A b F s \<Longrightarrow> length c \<le> unat (ioLimit (a2_limits A)) \<Longrightarrow> Inv2 A b F (snd (os_TryWrite (rawStream H d) c s))"
  by (auto simp: rawStream_def Inv2_def)

lemma keeps_State: "(\<And>s. Inv2 A b F s \<Longrightarrow> Inv2 A b F (snd (f s))) \<Longrightarrow> keeps A b F (State f) (\<lambda>_. True)"
  by (simp add: triple_def wp_run)

lemma keeps_outCheckWrite [p2vcg]: "keeps A b F (outCheckWrite H d) (\<lambda>_. True)"
  unfolding outCheckWrite_def
  by (rule triple_if; (rule viaSafe_keeps keeps_State)?)
    (auto simp: safeCheckWrite_def takePending_def split: prod.splits dest: rawStream_keeps(1) [of A b F _ H d])

lemma keeps_outBeginFlush [p2vcg]: "keeps A b F (outBeginFlush H d) (\<lambda>_. True)"
  unfolding outBeginFlush_def
  by (rule triple_if; (rule viaSafe_keeps keeps_State)?)
    (auto simp: safeBeginFlush_def takePending_def split: prod.splits dest: rawStream_keeps(2) [of A b F _ H d])

lemma keeps_outWaitWritable [p2vcg]: "keeps A b F (outWaitWritable H d) (\<lambda>_. True)"
  unfolding outWaitWritable_def
  by (rule triple_if; (rule viaSafe_keeps keeps_State)?)
    (auto simp: safeWaitWritable_def Let_def split: prod.splits dest: rawStream_keeps(3) [of A b F _ H d])

lemma keeps_outTryWrite [p2vcg]:
  "length c \<le> unat (ioLimit (a2_limits A)) \<Longrightarrow> keeps A b F (outTryWrite H d c) (\<lambda>_. True)"
  unfolding outTryWrite_def
  by (rule triple_if; (rule viaSafe_keeps keeps_State)?)
    (auto simp: safeTryWrite_def takePending_def split: prod.splits dest: rawStream_keeps(4) [of A b F _ c H d])

section \<open>Tables\<close>

lemma keyed_insert:
  "keyed n al \<Longrightarrow> Suc (unat n) < 2 ^ 32 \<Longrightarrow> keyed (n + 1) (AList.update n v al) \<and> n \<notin> fst ` set al"
proof -
  assume k: "keyed n al" and n: "Suc (unat n) < 2 ^ 32"
  have "unat (n + 1) = Suc (unat n)" using n by (simp add: unat_word_ariths)
  then have "n < n + 1" by (simp add: word_less_nat_alt)
  moreover have "n \<notin> fst ` set al" using k by (auto simp: keyed_def)
  ultimately show ?thesis using k
    by (auto simp: keyed_def distinct_update set_AList_update intro: order.strict_trans)
qed

lemma keyed_update_same: "keyed n al \<Longrightarrow> map_of al k = Some v \<Longrightarrow> keyed n (AList.update k v' al)"
  using map_of_in_fst [of al k v] by (auto simp: keyed_def distinct_update set_AList_update)

lemma keyed_delete: "keyed n al \<Longrightarrow> keyed n (AList.delete k al)"
  by (auto simp: keyed_def distinct_delete set_AList_delete)

lemma keyed_set: "keyed n al \<Longrightarrow> set (AList.update k v al) = insert (k, v) {x \<in> set al. fst x \<noteq> k}"
  by (simp add: keyed_def set_AList_update)

end
