(* ===== verification/P2_Streams.thy ===== *)
theory P2_Streams
  imports P2_Authority
begin

text \<open>
  The stream functions of Preview 2: the operations of \<^verbatim>\<open>hostState\<close> in \<^verbatim>\<open>p2/io.go\<close> and \<^verbatim>\<open>p2/clocks.go\<close> (error
  resources, write permits, the probe of standard input) and the handlers of \<^verbatim>\<open>wasi:io/streams\<close> in \<^verbatim>\<open>p2/p2.go\<close>
  with the loops of their blocking variants. A handler takes the argument list of the component runtime
  and returns its result list or a trap.
\<close>

section \<open>Stream errors\<close>

definition addError :: "'w p2host \<Rightarrow> goerr \<Rightarrow> ('w p2, goerr + val) state" where
  "addError H err = do {
     h \<leftarrow> gets p_host;
     if of_nat (length (h_errors h)) \<ge> MaxErrors (h_limits h) then ret (Inl (OtherError ''stream error quota exceeded''))
     else do {
       let rep = h_nextError h;
       onHost (\<lambda>h. h\<lparr>h_nextError := h_nextError h + 1, h_errors := AList.update rep err (h_errors h)\<rparr>);
       r \<leftarrow> p2Call H (NewOwn errorResource rep);
       ret (Inr (VVariant 0 (VU32 (asHandle r)))) } }"

definition streamFailure :: "'w p2host \<Rightarrow> goerr \<Rightarrow> ('w p2, hostResult) state" where
  "streamFailure H err =
     (if errorsIs err EOF then ret closedResult
      else do {
        v \<leftarrow> addError H err;
        ret (case v of Inl quotaErr \<Rightarrow> Inl quotaErr | Inr v \<Rightarrow> errResult v) })"

definition outputClosed :: "u32 \<Rightarrow> ('w p2, bool) state" where
  "outputClosed rep = gets (\<lambda>s. map_of (h_outputFailed (p_host s)) rep = Some True)"

definition outputFailure :: "'w p2host \<Rightarrow> u32 \<Rightarrow> goerr \<Rightarrow> ('w p2, hostResult) state" where
  "outputFailure H rep err = do {
     failed \<leftarrow> outputClosed rep;
     if failed then streamFailure H EOF
     else do {
       onHost (\<lambda>h. h\<lparr>h_outputFailed := AList.update rep True (h_outputFailed h)\<rparr>);
       streamFailure H err } }"

section \<open>Write permits\<close>

definition probeWritePermit :: "'w p2host \<Rightarrow> u32 \<Rightarrow> out \<Rightarrow> ('w p2, goerr + u64) state" where
  "probeWritePermit H rep w = do {
     (permit, err) \<leftarrow> outCheckWrite H w;
     case err of
       Some e \<Rightarrow> do {
         onHost (\<lambda>h. h\<lparr>h_permits := AList.delete rep (h_permits h)\<rparr>);
         ret (Inl e) }
     | None \<Rightarrow> do {
         limit \<leftarrow> gets (\<lambda>s. ioLimit (h_limits (p_host s)));
         let permit = (if permit > limit then limit else permit);
         onHost (\<lambda>h. h\<lparr>h_permits := AList.update rep permit (h_permits h)\<rparr>);
         ret (Inr permit) } }"

definition consumeWritePermit :: "u32 \<Rightarrow> u64 \<Rightarrow> ('w p2, goerr option) state" where
  "consumeWritePermit rep len = do {
     h \<leftarrow> gets p_host;
     let permit = map_of (h_permits h) rep;
     (if permit \<noteq> None then onHost (\<lambda>h. h\<lparr>h_permits := AList.delete rep (h_permits h)\<rparr>) else ret ());
     ret (case permit of
         None \<Rightarrow> Some (OtherError ''output-stream.write exceeds check-write permit'')
       | Some p \<Rightarrow> (if len > p \<or> len > ioLimit (h_limits h) then Some (OtherError ''output-stream.write exceeds check-write permit'') else None)) }"

text \<open>\<^verbatim>\<open>waitWritable\<close>: \<open>None\<close> is \<^verbatim>\<open>nil, nil\<close>, and the caller goes on.\<close>

definition waitWritableH :: "'w p2host \<Rightarrow> u32 \<Rightarrow> out \<Rightarrow> ('w p2, hostResult option) state" where
  "waitWritableH H rep w = do {
     failed \<leftarrow> outputClosed rep;
     if failed then do { r \<leftarrow> streamFailure H EOF; ret (Some r) }
     else do {
       err \<leftarrow> outWaitWritable H w;
       case err of
         None \<Rightarrow> ret None
       | Some e \<Rightarrow> do {
           canceled \<leftarrow> ctxErr H;
           case canceled of
             Some c \<Rightarrow> ret (Some (Inl c))
           | None \<Rightarrow> do { r \<leftarrow> outputFailure H rep e; ret (Some r) } } } }"

section \<open>Output handlers\<close>

text \<open>\<^verbatim>\<open>fs.output\<close>: the writable file stream of a number.\<close>

definition isFileOutput :: "filesystemState \<Rightarrow> u32 \<Rightarrow> bool" where
  "isFileOutput fs rep = (case map_of (f_streams fs) rep of None \<Rightarrow> False | Some st \<Rightarrow> \<not> st_read st)"

text \<open>The closure \<^verbatim>\<open>writer\<close>; the new adapter of a file stream gets a fresh number.\<close>

definition fileWriter :: "u32 \<Rightarrow> ('w p2, out option) state" where
  "fileWriter rep = do {
     s \<leftarrow> gets id;
     case map_of (h_outputs (p_host s)) rep of
       Some w \<Rightarrow> ret (Some w)
     | None \<Rightarrow>
         if isFileOutput (p_fs s) rep then do {
           let w = Adapter (p_next s);
           modify (\<lambda>s. s\<lparr>p_next := Suc (p_next s)\<rparr>);
           onHost (\<lambda>h. h\<lparr>h_outputs := AList.update rep w (h_outputs h)\<rparr>);
           ret (Some w) }
         else ret None }"

definition writer :: "u32 \<Rightarrow> ('w p2, goerr + out) state" where
  "writer rep =
     (if rep = stdoutRep then ret (Inr StdOut)
      else if rep = stderrRep then ret (Inr StdErr)
      else do {
        w \<leftarrow> fileWriter rep;
        ret (case w of Some w \<Rightarrow> Inr w | None \<Rightarrow> Inl (OtherError ''unknown output-stream rep'')) })"

definition checkWriteH :: "'w p2host \<Rightarrow> val list \<Rightarrow> ('w p2, hostResult) state" where
  "checkWriteH H args = (case args of
      [VU32 rep] \<Rightarrow> do {
        w \<leftarrow> writer rep;
        case w of
          Inl e \<Rightarrow> ret (Inl e)
        | Inr w \<Rightarrow> do {
            failed \<leftarrow> outputClosed rep;
            if failed then streamFailure H EOF
            else do {
              permit \<leftarrow> probeWritePermit H rep w;
              case permit of
                Inl e \<Rightarrow> outputFailure H rep e
              | Inr n \<Rightarrow> ret (okResult (VU64 n)) } } }
    | _ \<Rightarrow> ret (Inl (OtherError ''output-stream.check-write: expected self'')))"

text \<open>The common end of \<^verbatim>\<open>write\<close> and \<^verbatim>\<open>write-zeroes\<close>: take the permit, then hand over the contents.\<close>

definition writeContents :: "'w p2host \<Rightarrow> u32 \<Rightarrow> out \<Rightarrow> u64 \<Rightarrow> bytes \<Rightarrow> ('w p2, hostResult) state" where
  "writeContents H rep w len buf = do {
     refused \<leftarrow> consumeWritePermit rep len;
     case refused of
       Some e \<Rightarrow> ret (Inl e)
     | None \<Rightarrow> do {
         failed \<leftarrow> outputClosed rep;
         if failed then streamFailure H EOF
         else do {
           err \<leftarrow> outTryWrite H w buf;
           case err of
             Some e \<Rightarrow> outputFailure H rep e
           | None \<Rightarrow> ret (okResult VNil) } } }"

definition writeH :: "'w p2host \<Rightarrow> val list \<Rightarrow> ('w p2, hostResult) state" where
  "writeH H args = (case args of
      [VU32 rep, contents] \<Rightarrow> (case bytesValue contents of
          Inl e \<Rightarrow> ret (Inl e)
        | Inr buf \<Rightarrow> do {
            w \<leftarrow> writer rep;
            case w of
              Inl e \<Rightarrow> ret (Inl e)
            | Inr w \<Rightarrow> writeContents H rep w (of_nat (length buf)) buf })
    | _ \<Rightarrow> ret (Inl (OtherError ''output-stream.write: expected self and contents'')))"

definition writeZeroes :: "'w p2host \<Rightarrow> val list \<Rightarrow> ('w p2, hostResult) state" where
  "writeZeroes H args = (case args of
      [self, VU64 n] \<Rightarrow>
        if n > maxIO then ret (Inl (OtherError ''output-stream.write-zeroes: invalid len''))
        else (case self of
            VU32 rep \<Rightarrow> do {
              w \<leftarrow> writer rep;
              case w of
                Inl e \<Rightarrow> ret (Inl e)
              | Inr w \<Rightarrow> writeContents H rep w n (replicate (unat n) 0) }
          | _ \<Rightarrow> ret (Inl (OtherError ''output-stream.write: self'')))
    | _ \<Rightarrow> ret (Inl (OtherError ''output-stream.write-zeroes: expected self and len'')))"

definition flush :: "'w p2host \<Rightarrow> val list \<Rightarrow> ('w p2, hostResult) state" where
  "flush H args = (case args of
      [VU32 rep] \<Rightarrow> do {
        failed \<leftarrow> outputClosed rep;
        if failed then streamFailure H EOF
        else do {
          w \<leftarrow> writer rep;
          err \<leftarrow> (case w of Inl e \<Rightarrow> ret (Some e) | Inr w \<Rightarrow> outBeginFlush H w);
          case err of
            Some e \<Rightarrow> outputFailure H rep e
          | None \<Rightarrow> ret (okResult VNil) } }
    | _ \<Rightarrow> ret (Inl (OtherError ''output-stream.blocking-flush: expected self'')))"

text \<open>The end of the two blocking operations: wait, flush, wait for the flush, and look for a failure.\<close>

definition flushAndWait :: "'w p2host \<Rightarrow> u32 \<Rightarrow> out \<Rightarrow> ('w p2, hostResult) state" where
  "flushAndWait H rep w = do {
     r \<leftarrow> waitWritableH H rep w;
     case r of
       Some r \<Rightarrow> ret r
     | None \<Rightarrow> do {
         err \<leftarrow> outBeginFlush H w;
         case err of
           Some e \<Rightarrow> outputFailure H rep e
         | None \<Rightarrow> do {
             r \<leftarrow> waitWritableH H rep w;
             case r of
               Some r \<Rightarrow> ret r
             | None \<Rightarrow> do {
                 permit \<leftarrow> probeWritePermit H rep w;
                 case permit of
                   Inl e \<Rightarrow> outputFailure H rep e
                 | Inr n \<Rightarrow> ret (okResult VNil) } } } }"

text \<open>\<open>args[0].(uint32)\<close> is a type assertion: the declared parameter type is a stream handle.\<close>

definition blockingFlush :: "'w p2host \<Rightarrow> val list \<Rightarrow> ('w p2, hostResult) state" where
  "blockingFlush H args = (case args of
      [VU32 rep] \<Rightarrow> do {
        w \<leftarrow> writer rep;
        case w of
          Inl e \<Rightarrow> ret (Inl e)
        | Inr w \<Rightarrow> flushAndWait H rep w }
    | _ \<Rightarrow> ret (Inl (OtherError ''output-stream.blocking-flush: expected self'')))"

text \<open>\<^verbatim>\<open>waitTransientStreamRetry\<close>: \<open>Inl\<close> is the error of a cancelled context, \<open>Inr\<close> the next delay, doubled up to 50 ms.\<close>

definition millisecond :: u64 where "millisecond = 1000000"

definition nextDelay :: "u64 \<Rightarrow> u64" where
  "nextDelay d = (if d < 50 * millisecond then (if d * 2 > 50 * millisecond then 50 * millisecond else d * 2) else d)"

definition waitTransientStreamRetry :: "'w p2host \<Rightarrow> u64 \<Rightarrow> ('w p2, goerr + u64) state" where
  "waitTransientStreamRetry H delay = do {
     r \<leftarrow> p2Call H (Sleep delay);
     ret (case asErrOpt r of Some e \<Rightarrow> Inl e | None \<Rightarrow> Inr (nextDelay delay)) }"

fun writeChunks :: "nat \<Rightarrow> 'w p2host \<Rightarrow> u32 \<Rightarrow> out \<Rightarrow> u64 \<Rightarrow> bytes \<Rightarrow> ('w p2, hostResult) state" where
  "writeChunks 0 H rep w delay buf = do { outOfFuel; ret (Inl badReply) }"
| "writeChunks (Suc k) H rep w delay buf =
     (if buf = [] then flushAndWait H rep w
      else do {
        r \<leftarrow> waitWritableH H rep w;
        case r of
          Some r \<Rightarrow> ret r
        | None \<Rightarrow> do {
            r \<leftarrow> checkWriteH H [VU32 rep];
            case r of
              Inl e \<Rightarrow> ret (Inl e)
            | Inr [VResult False (VU64 permit)] \<Rightarrow>
                if permit = 0 then do {
                  d \<leftarrow> waitTransientStreamRetry H delay;
                  case d of Inl e \<Rightarrow> ret (Inl e) | Inr d \<Rightarrow> writeChunks k H rep w d buf }
                else do {
                  let n = min (length buf) (unat permit);
                  r \<leftarrow> writeH H [VU32 rep, VBytes (take n buf)];
                  case r of
                    Inl e \<Rightarrow> ret (Inl e)
                  | Inr [VResult False v] \<Rightarrow> writeChunks k H rep w millisecond (drop n buf)
                  | Inr vs \<Rightarrow> ret (Inr vs) }
            | Inr vs \<Rightarrow> ret (Inr vs) } })"

definition blockingWriteAndFlush :: "'w p2host \<Rightarrow> val list \<Rightarrow> ('w p2, hostResult) state" where
  "blockingWriteAndFlush H args = (case args of
      [VU32 rep, contents] \<Rightarrow> (case bytesValue contents of
          Inl e \<Rightarrow> ret (Inl e)
        | Inr buf \<Rightarrow>
            if length buf > 4096 then ret (Inl (OtherError ''output-stream.blocking-write-and-flush: contents exceed 4096 bytes''))
            else do {
              w \<leftarrow> writer rep;
              case w of
                Inl e \<Rightarrow> ret (Inl e)
              | Inr w \<Rightarrow> do { k \<leftarrow> gets p_fuel; writeChunks k H rep w millisecond buf } })
    | _ \<Rightarrow> ret (Inl (OtherError ''output-stream.blocking-write-and-flush: expected self and contents'')))"

definition blockingWriteZeroes :: "'w p2host \<Rightarrow> val list \<Rightarrow> ('w p2, hostResult) state" where
  "blockingWriteZeroes H args = (case args of
      [self, VU64 n] \<Rightarrow>
        if n > 4096 then ret (Inl (OtherError ''output-stream.blocking-write-zeroes-and-flush: invalid len''))
        else blockingWriteAndFlush H [self, VBytes (replicate (unat n) 0)]
    | _ \<Rightarrow> ret (Inl (OtherError ''output-stream.blocking-write-zeroes-and-flush: expected self and len'')))"

section \<open>Input handlers\<close>

text \<open>\<^verbatim>\<open>s.stdin.TryRead(dst)\<close> with a buffer of \<open>n\<close> bytes.\<close>

definition stdinTryRead :: "'w p2host \<Rightarrow> nat \<Rightarrow> ('w p2, bytes \<times> goerr option) state" where
  "stdinTryRead H n = do { r \<leftarrow> p2Call H (TryR n); ret (case asRead r of (b, e) \<Rightarrow> (take n b, e)) }"

definition readStdinLocked :: "'w p2host \<Rightarrow> nat \<Rightarrow> ('w p2, bytes \<times> goerr option) state" where
  "readStdinLocked H len = do {
     h \<leftarrow> gets p_host;
     if h_stdinBuffered h then do {
       let b = take len [h_stdinProbe h];
       (if b \<noteq> [] then onHost (\<lambda>h. h\<lparr>h_stdinBuffered := False\<rparr>) else ret ());
       ret (b, None) }
     else (case h_stdinReadError h of
         Some err \<Rightarrow>
           if \<not> errorsIs err EOF then
             (if len = 0 then ret ([], None)
              else do { onHost (\<lambda>h. h\<lparr>h_stdinReadError := Some EOF\<rparr>); ret ([], Some err) })
           else ret ([], Some err)
       | None \<Rightarrow> do {
           (b, err) \<leftarrow> stdinTryRead H len;
           (case err of
              Some e \<Rightarrow>
                if errorsIs e ErrWouldBlock then ret ()
                else if b \<noteq> [] \<and> \<not> errorsIs e EOF then onHost (\<lambda>h. h\<lparr>h_stdinReadError := Some e\<rparr>)
                else onHost (\<lambda>h. h\<lparr>h_stdinReadError := Some EOF\<rparr>)
            | None \<Rightarrow> ret ());
           ret (b, err) }) }"

text \<open>The end of \<^verbatim>\<open>inputReady\<close>: the probe keeps the byte and the error that it reads.\<close>

definition probeStdin :: "'w p2host \<Rightarrow> ('w p2, bool) state" where
  "probeStdin H = do {
     (b, err) \<leftarrow> stdinTryRead H 1;
     onHost (\<lambda>h. h\<lparr>h_stdinBuffered := (b \<noteq> []), h_stdinProbe := (if b \<noteq> [] then hd b else h_stdinProbe h)\<rparr>);
     (case err of
        Some e \<Rightarrow> (if errorsIs e ErrWouldBlock then ret () else onHost (\<lambda>h. h\<lparr>h_stdinReadError := Some e\<rparr>))
      | None \<Rightarrow> ret ());
     gets (\<lambda>s. h_stdinBuffered (p_host s) \<or> h_stdinReadError (p_host s) \<noteq> None) }"

definition inputReady :: "'w p2host \<Rightarrow> ('w p2, bool) state" where
  "inputReady H = do {
     h \<leftarrow> gets p_host;
     if h_stdinBuffered h \<or> h_stdinReadError h \<noteq> None then ret True
     else do {
       r \<leftarrow> p2Call H PendingR;
       if asYes r then ret True else probeStdin H } }"

definition waitStdin :: "'w p2host \<Rightarrow> ('w p2, goerr option) state" where
  "waitStdin H = do {
     h \<leftarrow> gets p_host;
     if h_stdinBuffered h \<or> h_stdinReadError h \<noteq> None then ret None
     else do {
       err \<leftarrow> osDo H WaitR;
       case err of
         None \<Rightarrow> ret None
       | Some e \<Rightarrow> do {
           canceled \<leftarrow> ctxErr H;
           if canceled = None then do {
             onHost (\<lambda>h. if h_stdinReadError h = None then h\<lparr>h_stdinReadError := Some e\<rparr> else h);
             ret None }
           else ret (Some e) } } }"

text \<open>\<^verbatim>\<open>waitStdinReadable\<close>, and the first half of a round of \<^verbatim>\<open>blockingRead\<close>, which has the same text.\<close>

definition waitStdinReadable :: "'w p2host \<Rightarrow> ('w p2, hostResult option) state" where
  "waitStdinReadable H = do {
     h \<leftarrow> gets p_host;
     if h_stdinBuffered h \<or> h_stdinReadError h \<noteq> None then ret None
     else do {
       err \<leftarrow> osDo H WaitR;
       case err of
         None \<Rightarrow> ret None
       | Some e \<Rightarrow> do {
           canceled \<leftarrow> ctxErr H;
           (if canceled = None then onHost (\<lambda>h. h\<lparr>h_stdinReadError := Some EOF\<rparr>) else ret ());
           canceled \<leftarrow> ctxErr H;
           case canceled of
             Some c \<Rightarrow> ret (Some (Inl c))
           | None \<Rightarrow> do { r \<leftarrow> streamFailure H e; ret (Some r) } } } }"

text \<open>\<^verbatim>\<open>fs.readStream\<close>. The stream is changed through its pointer in the table.\<close>

definition putStream :: "u32 \<Rightarrow> fileStream \<Rightarrow> ('w p2, unit) state" where
  "putStream rep st = onFs (\<lambda>fs. fs\<lparr>f_streams := AList.update rep st (f_streams fs)\<rparr>)"

definition readStream :: "'w p2host \<Rightarrow> u32 \<Rightarrow> u64 \<Rightarrow> ('w p2, hostResult) state" where
  "readStream H rep len = do {
     fs \<leftarrow> gets p_fs;
     case map_of (f_streams fs) rep of
       None \<Rightarrow> ret (Inl (OtherError ''input-stream.read: unknown self''))
     | Some st \<Rightarrow>
         if \<not> st_read st then ret (Inl (OtherError ''input-stream.read: unknown self''))
         else do {
           let len = (if len > ioLimit (f_limits fs) then ioLimit (f_limits fs) else len);
           if st_closed st then ret closedResult
           else if len = 0 then ret (okResult (VBytes []))
           else do {
             r \<leftarrow> p2Call H (Os (HReadAt (st_file st) (unat len) (st_pos st)));
             let (b, n, err) = asIO (asHost r);
             let b = take (nat n) (take (unat len) b);
             putStream rep (st\<lparr>st_pos := st_pos st + of_nat (length b)\<rparr>);
             case err of
               Some e \<Rightarrow>
                 if \<not> errorsIs e EOF then ret (Inl (Wrapped e))
                 else if b = [] then do { putStream rep (st\<lparr>st_closed := True\<rparr>); ret closedResult }
                 else ret (okResult (VBytes b))
             | None \<Rightarrow>
                 if b = [] then do { putStream rep (st\<lparr>st_closed := True\<rparr>); ret closedResult }
                 else ret (okResult (VBytes b)) } } }"

definition readH :: "'w p2host \<Rightarrow> val list \<Rightarrow> ('w p2, hostResult) state" where
  "readH H args = (case args of
      [VU32 rep, VU64 n] \<Rightarrow> do {
        h \<leftarrow> gets p_host;
        let limit = ioLimit (h_limits h);
        let n = (if n > limit then limit else n);
        if rep \<noteq> stdinRep then do {
          r \<leftarrow> readStream H rep n;
          case r of Inl e \<Rightarrow> streamFailure H e | Inr vs \<Rightarrow> ret (Inr vs) }
        else if \<not> h_stdinBuffered h \<and> (case h_stdinReadError h of None \<Rightarrow> False | Some e \<Rightarrow> errorsIs e EOF) then streamFailure H EOF
        else do {
          (b, err) \<leftarrow> readStdinLocked H (unat n);
          case err of
            None \<Rightarrow> ret (okResult (VBytes b))
          | Some e \<Rightarrow>
              if errorsIs e ErrWouldBlock then ret (okResult (VBytes []))
              else if b = [] then streamFailure H e
              else ret (okResult (VBytes b)) } }
    | _ \<Rightarrow> ret (Inl (OtherError ''input-stream.read: expected self and len'')))"

text \<open>\<^verbatim>\<open>blockingRead\<close> on standard input. The arguments passed the pattern of the first round when \<open>readH\<close> is reached.\<close>

fun blockingReadLoop :: "nat \<Rightarrow> 'w p2host \<Rightarrow> u64 \<Rightarrow> val list \<Rightarrow> ('w p2, hostResult) state" where
  "blockingReadLoop 0 H delay args = do { outOfFuel; ret (Inl badReply) }"
| "blockingReadLoop (Suc k) H delay args = do {
     r \<leftarrow> waitStdinReadable H;
     case r of
       Some r \<Rightarrow> ret r
     | None \<Rightarrow> do {
         r \<leftarrow> readH H args;
         case r of
           Inr [VResult False payload] \<Rightarrow>
             if args ! 1 = VU64 0 then ret (Inr [VResult False payload])
             else (case bytesValue payload of
                 Inl e \<Rightarrow> ret (Inl e)
               | Inr buf \<Rightarrow>
                   if buf \<noteq> [] then ret (Inr [VResult False payload])
                   else do {
                     d \<leftarrow> waitTransientStreamRetry H delay;
                     case d of Inl e \<Rightarrow> ret (Inl e) | Inr d \<Rightarrow> blockingReadLoop k H d args })
         | _ \<Rightarrow> ret r } }"

definition blockingRead :: "'w p2host \<Rightarrow> val list \<Rightarrow> ('w p2, hostResult) state" where
  "blockingRead H args =
     (if length args = 2 \<and> args ! 0 = VU32 stdinRep
      then do { k \<leftarrow> gets p_fuel; blockingReadLoop k H millisecond args }
      else readH H args)"

definition skip :: "'w p2host \<Rightarrow> bool \<Rightarrow> val list \<Rightarrow> ('w p2, hostResult) state" where
  "skip H blocking args = do {
     r \<leftarrow> (if blocking then blockingRead H args else readH H args);
     ret (case r of
         Inr [VResult False payload] \<Rightarrow> (case bytesValue payload of
             Inl e \<Rightarrow> Inl e
           | Inr buf \<Rightarrow> okResult (VU64 (of_nat (length buf))))
       | _ \<Rightarrow> r) }"

section \<open>Splice\<close>

text \<open>One round of \<^verbatim>\<open>splice\<close>: \<open>Inl r\<close> returns \<open>r\<close>, \<open>Inr ()\<close> asks for another round after a delay.\<close>

definition spliceRound :: "'w p2host \<Rightarrow> bool \<Rightarrow> u32 \<Rightarrow> out option \<Rightarrow> val \<Rightarrow> u64 \<Rightarrow> ('w p2, hostResult + unit) state" where
  "spliceRound H blocking outRep w src n = do {
     r \<leftarrow> (case w of Some w \<Rightarrow> if blocking then waitWritableH H outRep w else ret None | None \<Rightarrow> ret None);
     case r of
       Some r \<Rightarrow> ret (Inl r)
     | None \<Rightarrow> do {
         check \<leftarrow> checkWriteH H [VU32 outRep];
         case check of
           Inr [VResult False (VU64 permit)] \<Rightarrow>
             if blocking \<and> n > 0 \<and> permit = 0 then ret (Inr ())
             else do {
               let readLen = (if n > permit then permit else n);
               r \<leftarrow> (if blocking \<and> src = VU32 stdinRep then waitStdinReadable H else ret None);
               case r of
                 Some r \<Rightarrow> ret (Inl r)
               | None \<Rightarrow> do {
                   got \<leftarrow> readH H [src, VU64 readLen];
                   case got of
                     Inr [VResult False payload] \<Rightarrow> (case bytesValue payload of
                         Inl e \<Rightarrow> ret (Inl (Inl e))
                       | Inr buf \<Rightarrow>
                           if blocking \<and> n > 0 \<and> buf = [] then ret (Inr ())
                           else do {
                             written \<leftarrow> writeH H [VU32 outRep, VBytes buf];
                             ret (Inl (case written of
                                 Inr [VResult False v] \<Rightarrow> okResult (VU64 (of_nat (length buf)))
                               | _ \<Rightarrow> written)) })
                   | _ \<Rightarrow> ret (Inl got) } }
         | _ \<Rightarrow> ret (Inl check) } }"

definition waitSpliceRetry :: "'w p2host \<Rightarrow> u64 \<Rightarrow> ('w p2, goerr + u64) state" where
  "waitSpliceRetry H delay = do {
     r \<leftarrow> p2Call H (Sleep delay);
     ret (case asErrOpt r of Some e \<Rightarrow> Inl e | None \<Rightarrow> Inr (nextDelay delay)) }"

fun spliceLoop :: "nat \<Rightarrow> 'w p2host \<Rightarrow> bool \<Rightarrow> u64 \<Rightarrow> u32 \<Rightarrow> out option \<Rightarrow> val \<Rightarrow> u64 \<Rightarrow> ('w p2, hostResult) state" where
  "spliceLoop 0 H blocking delay outRep w src n = do { outOfFuel; ret (Inl badReply) }"
| "spliceLoop (Suc k) H blocking delay outRep w src n = do {
     r \<leftarrow> spliceRound H blocking outRep w src n;
     case r of
       Inl r \<Rightarrow> ret r
     | Inr u \<Rightarrow> do {
         d \<leftarrow> waitSpliceRetry H delay;
         case d of Inl e \<Rightarrow> ret (Inl e) | Inr d \<Rightarrow> spliceLoop k H blocking d outRep w src n } }"

definition splice :: "'w p2host \<Rightarrow> bool \<Rightarrow> val list \<Rightarrow> ('w p2, hostResult) state" where
  "splice H blocking args = (case args of
      [VU32 outRep, src, VU64 n] \<Rightarrow>
        if blocking then do {
          w \<leftarrow> writer outRep;
          case w of
            Inl e \<Rightarrow> ret (Inl e)
          | Inr w \<Rightarrow> do { k \<leftarrow> gets p_fuel; spliceLoop k H blocking millisecond outRep (Some w) src n } }
        else do { k \<leftarrow> gets p_fuel; spliceLoop (Suc k) H blocking millisecond outRep None src n }
    | _ \<Rightarrow> ret (Inl (OtherError ''output-stream.splice: expected self, src, len'')))"

section \<open>The invariant\<close>

lemma of_nat_below:
  assumes "n \<le> unat (m :: u32)"
  shows "of_nat n < m \<longleftrightarrow> n < unat m"
  using assms unat_u32_bound [of m] by (simp add: word_less_nat_alt unat_of_nat del: unat_u32_bound)

lemma AList_update_bound: "length (AList.update k v al) \<le> Suc (length al)"
  by (simp add: length_AList_update)

lemma AList_update_subset: "set (AList.update k v al) \<subseteq> insert (k, v) (set al)"
  by (induction al) auto

lemma keeps_addError [p2vcg]: "keeps A b F (addError H err) (\<lambda>_. True)"
proof -
  have "hostOk A (h\<lparr>h_nextError := n, h_errors := AList.update rep err (h_errors h)\<rparr>)"
    if "hostOk A h" "\<not> MaxErrors (h_limits h) \<le> of_nat (length (h_errors h))" for h n rep
  proof -
    have "length (h_errors h) < unat (MaxErrors (h_limits h))"
      using that of_nat_below [of "length (h_errors h)" "MaxErrors (h_limits h)"] by (auto simp: hostOk_def not_le)
    with that(1) show ?thesis using AList_update_bound [of rep err "h_errors h"] by (simp add: hostOk_def)
  qed
  then show ?thesis
    by (auto simp: triple_def wp_simps addError_def Inv2_def Let_def split: prod.splits)
qed

text \<open>A failure is a trap or an error result.\<close>

definition isFailure :: "hostResult \<Rightarrow> bool" where
  "isFailure r = (case r of Inl e \<Rightarrow> True | Inr vs \<Rightarrow> (\<exists>v. vs = [VResult True v]))"

lemma keeps_streamFailure: "keeps A b F (streamFailure H err) isFailure"
  unfolding streamFailure_def by (rule p2vcg | simp add: isFailure_def split: sum.split)+

lemma keeps_streamFailure_any [p2vcg]: "keeps A b F (streamFailure H err) (\<lambda>_. True)"
  by (rule triple_weaken [OF keeps_streamFailure]) simp_all

lemma keeps_outputClosed [p2vcg]: "keeps A b F (outputClosed rep) (\<lambda>_. True)"
  unfolding outputClosed_def by (rule p2vcg)

lemma keeps_outputFailure [p2vcg]: "keeps A b F (outputFailure H rep err) (\<lambda>_. True)"
  unfolding outputFailure_def by (rule p2vcg | simp add: hostOk_def)+

lemma hostOk_permits:
  "hostOk A h \<Longrightarrow> n \<le> ioLimit (a2_limits A) \<Longrightarrow> hostOk A (h\<lparr>h_permits := AList.update rep n (h_permits h)\<rparr>)"
  "hostOk A h \<Longrightarrow> hostOk A (h\<lparr>h_permits := AList.delete rep (h_permits h)\<rparr>)"
  using AList_update_subset [of rep n "h_permits h"] by (fastforce simp: hostOk_def set_AList_delete)+

lemma hostOk_limits: "hostOk A h \<Longrightarrow> h_limits h = a2_limits A"
  by (simp add: hostOk_def)

lemma keeps_probeWritePermit [p2vcg]:
  "keeps A b F (probeWritePermit H rep w) (\<lambda>r. \<forall>n. r = Inr n \<longrightarrow> n \<le> ioLimit (a2_limits A))"
proof -
  have lim: "keeps A b F (gets (\<lambda>s. ioLimit (h_limits (p_host s)))) (\<lambda>l. l = ioLimit (a2_limits A))"
    by (auto simp: triple_def wp_simps Inv2_def hostOk_def)
  show ?thesis
    unfolding probeWritePermit_def by (rule lim p2vcg | auto intro: hostOk_permits)+
qed

lemma keeps_consumeWritePermit [p2vcg]:
  "keeps A b F (consumeWritePermit rep n) (\<lambda>r. r = None \<longrightarrow> n \<le> ioLimit (a2_limits A))"
  unfolding consumeWritePermit_def
  by (rule p2vcg | (rule hostOk_permits; assumption) | force simp: hostOk_limits split: option.splits if_splits)+

lemma keeps_waitWritableH [p2vcg]: "keeps A b F (waitWritableH H rep w) (\<lambda>_. True)"
  unfolding waitWritableH_def by (rule p2vcg | simp)+

lemma keeps_fileWriter [p2vcg]: "keeps A b F (fileWriter rep) (\<lambda>_. True)"
proof -
  have "keeps A b F (modify (\<lambda>s. s\<lparr>p_next := Suc (p_next s)\<rparr>)) (\<lambda>_. True)"
    by (auto simp: triple_def wp_simps Inv2_def)
  then show ?thesis unfolding fileWriter_def by - (rule p2vcg | assumption | simp add: hostOk_def)+
qed

lemma keeps_writer [p2vcg]: "keeps A b F (writer rep) (\<lambda>_. True)"
  unfolding writer_def by (rule p2vcg | simp)+

text \<open>The handlers look at the shape of a result list; each alternative has to keep the invariant.\<close>

lemma triple_case_args [p2vcg]:
  "(xs = [] \<Longrightarrow> triple P m Q R) \<Longrightarrow> (\<And>y ys. xs = y # ys \<Longrightarrow> triple P (f y ys) Q R) \<Longrightarrow>
     triple P (case xs of [] \<Rightarrow> m | y # ys \<Rightarrow> f y ys) Q R"
  by (cases xs) auto

lemma triple_case_bool [p2vcg]:
  "(x \<Longrightarrow> triple P m Q R) \<Longrightarrow> (\<not> x \<Longrightarrow> triple P n Q R) \<Longrightarrow> triple P (case x of True \<Rightarrow> m | False \<Rightarrow> n) Q R"
  by (cases x) auto

lemma triple_case_val [p2vcg]:
  "(x = VNil \<Longrightarrow> triple P m Q R) \<Longrightarrow> (\<And>c. x = VBool c \<Longrightarrow> triple P (f1 c) Q R) \<Longrightarrow>
   (\<And>c. x = VU32 c \<Longrightarrow> triple P (f2 c) Q R) \<Longrightarrow> (\<And>c. x = VU64 c \<Longrightarrow> triple P (f3 c) Q R) \<Longrightarrow>
   (\<And>c. x = VStr c \<Longrightarrow> triple P (f4 c) Q R) \<Longrightarrow> (\<And>c. x = VBytes c \<Longrightarrow> triple P (f5 c) Q R) \<Longrightarrow>
   (\<And>c. x = VList c \<Longrightarrow> triple P (f6 c) Q R) \<Longrightarrow> (\<And>c d. x = VResult c d \<Longrightarrow> triple P (f7 c d) Q R) \<Longrightarrow>
   (\<And>c d. x = VVariant c d \<Longrightarrow> triple P (f8 c d) Q R) \<Longrightarrow>
   triple P (case x of VNil \<Rightarrow> m | VBool c \<Rightarrow> f1 c | VU32 c \<Rightarrow> f2 c | VU64 c \<Rightarrow> f3 c | VStr c \<Rightarrow> f4 c | VBytes c \<Rightarrow> f5 c
     | VList c \<Rightarrow> f6 c | VResult c d \<Rightarrow> f7 c d | VVariant c d \<Rightarrow> f8 c d) Q R"
  by (cases x) auto

lemma keeps_checkWriteH [p2vcg]: "keeps A b F (checkWriteH H args) (\<lambda>_. True)"
  unfolding checkWriteH_def by (rule p2vcg | simp)+

lemma keeps_writeContents [p2vcg]:
  "unat n = length buf \<Longrightarrow> keeps A b F (writeContents H rep w n buf) (\<lambda>_. True)"
  unfolding writeContents_def by (rule p2vcg | simp add: word_le_nat_alt)+

lemma ioLimit_bound: "unat (ioLimit l) \<le> 16777216"
  by (auto simp: ioLimit_def Let_def maxIO_def word_less_nat_alt)

lemma keeps_writeH [p2vcg]: "(\<forall>x\<in>set args. \<forall>c. bytesValue x = Inr c \<longrightarrow> length c < 2 ^ 64) \<Longrightarrow> keeps A b F (writeH H args) (\<lambda>_. True)"
  unfolding writeH_def by (rule p2vcg | force simp: unat_of_nat)+

lemma keeps_writeZeroes [p2vcg]: "keeps A b F (writeZeroes H args) (\<lambda>_. True)"
  unfolding writeZeroes_def by (rule p2vcg | simp)+

text \<open>A statement without result, tried first where the condition on the result is still open.\<close>

lemma keeps_ret: "keeps A b F (ret x) (\<lambda>_. True)"
  by (simp add: triple_def wp_simps)

lemma keeps_flush [p2vcg]: "keeps A b F (flush H args) (\<lambda>_. True)"
  unfolding flush_def by (rule keeps_ret | rule p2vcg | simp)+

lemma keeps_flushAndWait [p2vcg]: "keeps A b F (flushAndWait H rep w) (\<lambda>_. True)"
  unfolding flushAndWait_def by (rule p2vcg | simp)+

lemma keeps_blockingFlush [p2vcg]: "keeps A b F (blockingFlush H args) (\<lambda>_. True)"
  unfolding blockingFlush_def by (rule p2vcg | simp)+

lemma keeps_waitTransientStreamRetry [p2vcg]: "keeps A b F (waitTransientStreamRetry H d) (\<lambda>_. True)"
  unfolding waitTransientStreamRetry_def by (rule p2vcg | simp)+

lemma keeps_waitSpliceRetry [p2vcg]: "keeps A b F (waitSpliceRetry H d) (\<lambda>_. True)"
  unfolding waitSpliceRetry_def by (rule p2vcg | simp)+

lemma keeps_writeChunks [p2vcg]:
  "length buf < 2 ^ 64 \<Longrightarrow> keeps A b F (writeChunks k H rep w d buf :: ('w p2, hostResult) state) (\<lambda>_. True)"
proof (induction k arbitrary: d buf)
  case 0
  show ?case by (simp, (rule p2vcg | simp)+)
next
  case (Suc k)
  have "keeps A b F (writeChunks k H rep w d' (drop n buf) :: ('w p2, hostResult) state) (\<lambda>_. True)" for d' n
    using Suc.prems by (intro Suc.IH) simp
  moreover have "keeps A b F (writeChunks k H rep w d' buf :: ('w p2, hostResult) state) (\<lambda>_. True)" for d'
    using Suc.prems by (rule Suc.IH)
  ultimately show ?case
    using Suc.prems unfolding writeChunks.simps by - (assumption | rule p2vcg | simp add: bytesValue_def)+
qed

lemma keeps_blockingWriteAndFlush [p2vcg]: "keeps A b F (blockingWriteAndFlush H args) (\<lambda>_. True)"
  unfolding blockingWriteAndFlush_def by (rule p2vcg | simp)+

lemma keeps_blockingWriteZeroes [p2vcg]: "keeps A b F (blockingWriteZeroes H args) (\<lambda>_. True)"
  unfolding blockingWriteZeroes_def by (rule p2vcg | simp)+

lemma keeps_stdinTryRead [p2vcg]: "keeps A b F (stdinTryRead H n) (\<lambda>r. length (fst r) \<le> n)"
  unfolding stdinTryRead_def by (rule p2vcg | simp split: prod.split)+

lemma hostOk_stdin [simp]:
  "hostOk A (h\<lparr>h_stdinBuffered := x\<rparr>) = hostOk A h" "hostOk A (h\<lparr>h_stdinReadError := e\<rparr>) = hostOk A h"
  "hostOk A (h\<lparr>h_stdinBuffered := x, h_stdinProbe := y\<rparr>) = hostOk A h"
  by (simp_all add: hostOk_def)

lemma keeps_readStdinLocked [p2vcg]: "keeps A b F (readStdinLocked H n) (\<lambda>r. length (fst r) \<le> n)"
  unfolding readStdinLocked_def by (rule keeps_ret | rule p2vcg | simp)+

lemma keeps_inputReady [p2vcg]: "keeps A b F (inputReady H) (\<lambda>_. True)"
  unfolding inputReady_def probeStdin_def by (rule keeps_ret | rule p2vcg | simp)+

lemma keeps_waitStdin [p2vcg]: "keeps A b F (waitStdin H) (\<lambda>_. True)"
  unfolding waitStdin_def by (rule keeps_ret | rule p2vcg | simp)+

lemma keeps_waitStdinReadable [p2vcg]: "keeps A b F (waitStdinReadable H) (\<lambda>_. True)"
  unfolding waitStdinReadable_def by (rule keeps_ret | rule p2vcg | simp)+

lemma fsOk_stream:
  "fsOk A b fs \<Longrightarrow> map_of (f_streams fs) rep = Some st \<Longrightarrow> streamOk2 A st"
  by (force simp: fsOk_def dest: map_of_SomeD)

text \<open>Changing a stream through its pointer: the file and the direction stay.\<close>

lemma fsOk_putStream:
  assumes "fsOk A b fs" and "map_of (f_streams fs) rep = Some st"
    and "st_file st' = st_file st" and "st_read st' = st_read st"
  shows "fsOk A b (fs\<lparr>f_streams := AList.update rep st' (f_streams fs)\<rparr>)"
    "owned2 (fs\<lparr>f_streams := AList.update rep st' (f_streams fs)\<rparr>) = owned2 fs"
proof -
  have k: "keyed (f_nextStream fs) (f_streams fs)" using assms(1) by (simp add: fsOk_def)
  have "streamOk2 A st'" using fsOk_stream [OF assms(1,2)] assms(3,4) by (simp add: streamOk2_def)
  then show "fsOk A b (fs\<lparr>f_streams := AList.update rep st' (f_streams fs)\<rparr>)"
    using assms(1) keyed_update_same [OF k assms(2)] map_of_in_fst [OF assms(2)]
    by (auto simp: fsOk_def keyed_set [OF k] length_AList_update)
  have "(rep, st) \<in> set (f_streams fs)" using assms(2) by (rule map_of_SomeD)
  then have "st_file ` snd ` set (AList.update rep st' (f_streams fs)) = st_file ` snd ` set (f_streams fs)"
    using k assms(3) unfolding keyed_set [OF k] keyed_def
    by (auto simp: image_iff) (metis assms(2) eq_key_imp_eq_value fst_conv map_of_eq_Some_iff option.inject snd_conv)+
  then show "owned2 (fs\<lparr>f_streams := AList.update rep st' (f_streams fs)\<rparr>) = owned2 fs"
    by (simp add: owned2_def)
qed

lemma Inv2_putStream:
  "Inv2 A b F s \<Longrightarrow> map_of (f_streams (p_fs s)) rep = Some st \<Longrightarrow> st_file st' = st_file st \<Longrightarrow> st_read st' = st_read st \<Longrightarrow>
     Inv2 A b F (s\<lparr>p_fs := (p_fs s)\<lparr>f_streams := AList.update rep st' (f_streams (p_fs s))\<rparr>\<rparr>)"
  using fsOk_putStream [of A b "p_fs s" rep st st'] by (simp add: Inv2_def)

lemma Inv2_call: "Inv2 A b F s \<Longrightarrow> allowed2 A c \<Longrightarrow> Inv2 A b F (s\<lparr>p_world := w, p_log := p_log s @ [c]\<rparr>)"
  by (simp add: Inv2_def)

text \<open>The read of a file stream that is not closed, with the answer of the host.\<close>

definition streamAnswer :: "fileStream \<Rightarrow> u64 \<Rightarrow> hostres \<Rightarrow> hostResult \<times> fileStream" where
  "streamAnswer st len r = (case asIO r of (b, n, err) \<Rightarrow>
     (let b = take (nat n) (take (unat len) b); st' = st\<lparr>st_pos := st_pos st + of_nat (length b)\<rparr> in
      if err \<noteq> None \<and> \<not> errorsIs (the err) EOF then (Inl (Wrapped (the err)), st')
      else if b = [] then (closedResult, st\<lparr>st_closed := True\<rparr>)
      else (okResult (VBytes b), st')))"

definition clamp :: "u64 \<Rightarrow> u64 \<Rightarrow> u64" where
  "clamp limit n = (if n > limit then limit else n)"

lemma AList_update_twice [simp]: "AList.update k v (AList.update k v' al) = AList.update k v al"
  by (induction al) auto

lemma run_readStream:
  "run_state (readStream H rep len) s =
     (case map_of (f_streams (p_fs s)) rep of
        None \<Rightarrow> (Inl (OtherError ''input-stream.read: unknown self''), s)
      | Some st \<Rightarrow>
          if \<not> st_read st then (Inl (OtherError ''input-stream.read: unknown self''), s)
          else if st_closed st then (closedResult, s)
          else (let len = clamp (ioLimit (f_limits (p_fs s))) len in
            if len = 0 then (okResult (VBytes []), s)
            else (let c = Os (HReadAt (st_file st) (unat len) (st_pos st)); (r, w) = H c (p_world s);
                      (res, st') = streamAnswer st len (asHost r); s' = s\<lparr>p_world := w, p_log := p_log s @ [c]\<rparr> in
              (res, s'\<lparr>p_fs := (p_fs s)\<lparr>f_streams := AList.update rep st' (f_streams (p_fs s))\<rparr>\<rparr>))))"
proof (cases "map_of (f_streams (p_fs s)) rep")
  case None
  then show ?thesis by (simp add: readStream_def)
next
  case (Some st)
  define n where "n = clamp (ioLimit (f_limits (p_fs s))) len"
  obtain r w where r: "H (Os (HReadAt (st_file st) (unat n) (st_pos st))) (p_world s) = (r, w)" by fastforce
  obtain b m err where io: "asIO (asHost r) = (b, m, err)" by (cases "asIO (asHost r)")
  show ?thesis
    by (cases err; simp add: readStream_def putStream_def streamAnswer_def Some r io Let_def
        flip: clamp_def n_def; arith)
qed

lemma streamAnswer_same: "st_file (snd (streamAnswer st len r)) = st_file st" "st_read (snd (streamAnswer st len r)) = st_read st"
  by (auto simp: streamAnswer_def Let_def split: prod.splits)

text \<open>The contents of a successful read are at most as long as the limit of one operation.\<close>

definition smallRead :: "authority2 \<Rightarrow> hostResult \<Rightarrow> bool" where
  "smallRead A r \<longleftrightarrow> (\<forall>p c. r = Inr [VResult False p] \<longrightarrow> bytesValue p = Inr c \<longrightarrow> length c \<le> unat (ioLimit (a2_limits A)))"

lemma smallRead_simps:
  "smallRead A (Inl e)" "smallRead A (errResult v)" "smallRead A (okResult (VBytes c)) \<longleftrightarrow> length c \<le> unat (ioLimit (a2_limits A))"
  by (auto simp: smallRead_def bytesValue_def)

lemma isFailure_small: "isFailure r \<Longrightarrow> smallRead A r"
  by (auto simp: isFailure_def smallRead_def split: sum.splits)

lemma clamp_le: "clamp l n \<le> l" "unat (clamp l n) \<le> unat l"
  by (auto simp: clamp_def word_le_nat_alt word_less_nat_alt)

lemma streamAnswer_small: "unat len \<le> unat (ioLimit (a2_limits A)) \<Longrightarrow> smallRead A (fst (streamAnswer st len r))"
  by (auto simp: streamAnswer_def smallRead_simps Let_def split: prod.splits)

lemma keeps_readStream: "keeps A b F (readStream H rep n :: ('w p2, hostResult) state) (smallRead A)"
proof -
  have "Inv2 A b F (snd (run_state (readStream H rep n) s)) \<and> smallRead A (fst (run_state (readStream H rep n) s))"
    if i: "Inv2 A b F s" for s :: "'w p2"
  proof (cases "map_of (f_streams (p_fs s)) rep")
    case None
    then show ?thesis using i by (simp add: run_readStream smallRead_simps)
  next
    case (Some st)
    let ?n = "clamp (ioLimit (f_limits (p_fs s))) n"
    have lim: "f_limits (p_fs s) = a2_limits A" using i by (simp add: Inv2_def fsOk_def)
    have "allowed2 A (Os (HReadAt (st_file st) m pos))" if "st_read st" for m pos
      using fsOk_stream [of A b "p_fs s" rep st] i that Some by (simp add: Inv2_def streamOk2_def)
    from Inv2_putStream [OF Inv2_call [OF i this], where st = st] Some i
    have "Inv2 A b F (snd (run_state (readStream H rep n) s))"
      by (simp add: run_readStream streamAnswer_same Let_def split: prod.split) (metis streamAnswer_same snd_conv)
    moreover have "smallRead A (fst (streamAnswer st ?n r))" for r
      by (rule streamAnswer_small) (simp add: lim clamp_le)
    then have "smallRead A (fst (run_state (readStream H rep n) s))"
      using Some by (simp add: run_readStream smallRead_simps Let_def split: prod.split) (metis fst_conv)
    ultimately show ?thesis by simp
  qed
  then show ?thesis by (simp add: triple_def wp_run)
qed

lemma keeps_readH: "keeps A b F (readH H args) (smallRead A)"
proof -
  have fail: "keeps A b F (streamFailure H e) (smallRead A)" for e
    by (rule triple_weaken [OF keeps_streamFailure]) (simp_all add: isFailure_small)
  have "unat (if ioLimit (h_limits h) < n then ioLimit (h_limits h) else n) \<le> unat (ioLimit (a2_limits A))" if "hostOk A h" for h n
    using clamp_le(2) [of "ioLimit (h_limits h)" n] that unfolding clamp_def by (simp only: hostOk_limits)
  then show ?thesis
    unfolding readH_def
    by - (rule keeps_readStream fail | rule p2vcg | simp add: smallRead_simps | (fastforce simp: smallRead_simps dest: order.trans))+
qed

lemma keeps_readH_any [p2vcg]: "keeps A b F (readH H args) (\<lambda>_. True)"
  by (rule triple_weaken [OF keeps_readH]) simp_all

lemma keeps_blockingReadLoop [p2vcg]: "keeps A b F (blockingReadLoop k H d args :: ('w p2, hostResult) state) (\<lambda>_. True)"
proof (induction k arbitrary: d)
  case 0
  show ?case by (simp, (rule p2vcg | simp)+)
next
  case (Suc k)
  show ?case unfolding blockingReadLoop.simps by (rule Suc.IH | rule p2vcg | simp)+
qed

lemma keeps_blockingRead [p2vcg]: "keeps A b F (blockingRead H args) (\<lambda>_. True)"
  unfolding blockingRead_def by (rule p2vcg | simp)+

lemma keeps_skip [p2vcg]: "keeps A b F (skip H blocking args) (\<lambda>_. True)"
  unfolding skip_def by (rule p2vcg | simp)+

lemma keeps_spliceRound [p2vcg]: "keeps A b F (spliceRound H blocking outRep w src n) (\<lambda>_. True)"
proof -
  have "length c < 2 ^ 64" if "smallRead A (Inr [VResult False p])" "bytesValue p = Inr c" for p c
    using that ioLimit_bound [of "a2_limits A"] by (fastforce simp: smallRead_def)
  then show ?thesis
    unfolding spliceRound_def
    by - (rule keeps_ret keeps_readH | rule p2vcg | (simp; fail) | fastforce simp: bytesValue_def)+
qed

lemma keeps_spliceLoop [p2vcg]: "keeps A b F (spliceLoop k H blocking d outRep w src n :: ('w p2, hostResult) state) (\<lambda>_. True)"
proof (induction k arbitrary: d)
  case 0
  show ?case by (simp, (rule p2vcg | simp)+)
next
  case (Suc k)
  show ?case unfolding spliceLoop.simps by (rule Suc.IH | rule p2vcg | simp)+
qed

lemma keeps_splice [p2vcg]: "keeps A b F (splice H blocking args) (\<lambda>_. True)"
  unfolding splice_def by (rule p2vcg | simp del: spliceLoop.simps)+
end
