(* ===== verification/Stream_Props.thy ===== *)
theory Stream_Props
  imports P2_Streams
begin

text \<open>
  Properties of the stream handlers of Preview 2: a failure of an output is reported once and the stream is
  closed afterwards, a blocking write hands over exactly its contents and then flushes, the probe of
  standard input loses nothing, and what a file stream drops when a read fails half way.
\<close>

section \<open>Failures\<close>

text \<open>A stream number whose writer is known: nothing is created to serve it.\<close>

definition knownOutput :: "u32 \<Rightarrow> 'w p2 \<Rightarrow> bool" where
  "knownOutput rep s \<longleftrightarrow> rep = stdoutRep \<or> rep = stderrRep \<or> map_of (h_outputs (p_host s)) rep \<noteq> None"

definition hasFailed :: "u32 \<Rightarrow> 'w p2 \<Rightarrow> bool" where
  "hasFailed rep s \<longleftrightarrow> map_of (h_outputFailed (p_host s)) rep = Some True"

lemma run_outputClosed [simp]: "run_state (outputClosed rep) s = (hasFailed rep s, s)"
  by (simp add: outputClosed_def hasFailed_def)

lemma run_streamFailure_EOF [simp]: "run_state (streamFailure H EOF) s = (closedResult, s)"
  by (simp add: streamFailure_def)

lemma run_writer_known:
  assumes "knownOutput rep s"
  shows "\<exists>w. run_state (writer rep) s = (Inr w, s)"
  using assms by (auto simp: knownOutput_def writer_def fileWriter_def)

lemma run_consume:
  "run_state (consumeWritePermit rep n) s =
     ((if \<exists>p. map_of (h_permits (p_host s)) rep = Some p \<and> n \<le> p \<and> n \<le> ioLimit (h_limits (p_host s)) then None
       else Some (OtherError ''output-stream.write exceeds check-write permit'')),
      s\<lparr>p_host := (p_host s)\<lparr>h_permits := AList.delete rep (h_permits (p_host s))\<rparr>\<rparr>)"
proof (cases "map_of (h_permits (p_host s)) rep")
  case None
  then have "AList.delete rep (h_permits (p_host s)) = h_permits (p_host s)" by (simp add: map_of_eq_None_iff)
  with None show ?thesis by (simp add: consumeWritePermit_def)
next
  case (Some p)
  then show ?thesis by (auto simp: consumeWritePermit_def)
qed

lemma closed_handlers:
  assumes "hasFailed rep s" and "knownOutput rep s"
  shows "run_state (checkWriteH H [VU32 rep]) s = (closedResult, s)"
    and "run_state (flush H [VU32 rep]) s = (closedResult, s)"
    and "run_state (flushAndWait H rep w) s = (closedResult, s)"
    and "run_state (blockingFlush H [VU32 rep]) s = (closedResult, s)"
    and "run_state (writeChunks (Suc k) H rep w d c) s = (closedResult, s)"
proof -
  obtain w' where w: "run_state (writer rep) s = (Inr w', s)" using run_writer_known [OF assms(2)] by blast
  show "run_state (checkWriteH H [VU32 rep]) s = (closedResult, s)" using w assms(1) by (simp add: checkWriteH_def)
  show "run_state (flush H [VU32 rep]) s = (closedResult, s)" using assms(1) by (simp add: flush_def)
  show f: "run_state (flushAndWait H rep w) s = (closedResult, s)" for w using assms(1) by (simp add: flushAndWait_def waitWritableH_def)
  show "run_state (blockingFlush H [VU32 rep]) s = (closedResult, s)" using w f by (simp add: blockingFlush_def)
  show "run_state (writeChunks (Suc k) H rep w d c) s = (closedResult, s)"
    using assms(1) f by (simp add: waitWritableH_def)
qed

lemma run_streamFailure:
  "run_state (streamFailure H e) s =
     (if errorsIs e EOF then (closedResult, s)
      else if MaxErrors (h_limits (p_host s)) \<le> of_nat (length (h_errors (p_host s))) then (Inl (OtherError ''stream error quota exceeded''), s)
      else (let rep = h_nextError (p_host s); (r, w) = H (NewOwn errorResource rep) (p_world s) in
        (errResult (VVariant 0 (VU32 (asHandle r))),
         s\<lparr>p_host := (p_host s)\<lparr>h_nextError := rep + 1, h_errors := AList.update rep e (h_errors (p_host s))\<rparr>,
           p_world := w, p_log := p_log s @ [NewOwn errorResource rep]\<rparr>)))"
  by (simp add: streamFailure_def addError_def Let_def split: prod.split)

lemma closed_write:
  assumes "hasFailed rep s" and "knownOutput rep s" and "map_of (h_permits (p_host s)) rep = Some p"
    and "of_nat (length c) \<le> p" and "of_nat (length c) \<le> ioLimit (h_limits (p_host s))"
  shows "run_state (writeH H [VU32 rep, VBytes c]) s =
    (closedResult, s\<lparr>p_host := (p_host s)\<lparr>h_permits := AList.delete rep (h_permits (p_host s))\<rparr>\<rparr>)"
proof -
  obtain w where "run_state (writer rep) s = (Inr w, s)" using run_writer_known [OF assms(2)] by blast
  moreover have "hasFailed rep (s\<lparr>p_host := (p_host s)\<lparr>h_permits := x\<rparr>\<rparr>)" for x using assms(1) by (simp add: hasFailed_def)
  ultimately show ?thesis using assms(3-5) by (simp add: writeH_def bytesValue_def writeContents_def run_consume)
qed

lemma p2_update_same [simp]: "s\<lparr>p_host := p_host s\<rparr> = (s :: 'w p2)"
  by simp

text \<open>The operations on the output \<open>rep\<close>: the seven that write or flush, with any contents, and the two splices.\<close>

definition outputOps :: "'w p2host \<Rightarrow> u32 \<Rightarrow> ('w p2, hostResult) state set" where
  "outputOps H rep = {checkWriteH H [VU32 rep], flush H [VU32 rep], blockingFlush H [VU32 rep]} \<union>
     (\<Union>v. {writeH H [VU32 rep, v], writeZeroes H [VU32 rep, v], blockingWriteAndFlush H [VU32 rep, v], blockingWriteZeroes H [VU32 rep, v]})"

definition spliceOps :: "'w p2host \<Rightarrow> u32 \<Rightarrow> ('w p2, hostResult) state set" where
  "spliceOps H rep = (\<Union>b src n. {splice H b [VU32 rep, src, VU64 n]})"

text \<open>The error resources and the marks of failed streams are the same.\<close>

definition sameErrors :: "'w p2 \<Rightarrow> 'w p2 \<Rightarrow> bool" where
  "sameErrors s t \<longleftrightarrow> h_errors (p_host t) = h_errors (p_host s) \<and> h_nextError (p_host t) = h_nextError (p_host s) \<and>
     h_outputFailed (p_host t) = h_outputFailed (p_host s)"

text \<open>An error result leaves the stream marked; it either says that the stream is closed, or it is the first of the stream
  and hands out one new error resource. A success changes neither.\<close>

definition reportedOnce :: "u32 \<Rightarrow> 'w p2 \<Rightarrow> hostResult \<Rightarrow> 'w p2 \<Rightarrow> bool" where
  "reportedOnce rep s r t \<longleftrightarrow>
     (\<forall>v. r = errResult v \<longrightarrow> hasFailed rep t \<and>
        (v = VVariant 1 VNil \<and> h_errors (p_host t) = h_errors (p_host s) \<or>
         \<not> hasFailed rep s \<and> (\<exists>h e. v = VVariant 0 (VU32 h) \<and> h_errors (p_host t) = AList.update (h_nextError (p_host s)) e (h_errors (p_host s))))) \<and>
     (\<forall>v. r = okResult v \<longrightarrow> sameErrors s t)"

lemma same_refl [simp]: "sameErrors s s" by (simp add: sameErrors_def)

lemma same_hasFailed: "sameErrors s u \<Longrightarrow> hasFailed rep u = hasFailed rep s" by (simp add: sameErrors_def hasFailed_def)

lemma reported_trap [simp]: "reportedOnce rep s (Inl e) t" by (simp add: reportedOnce_def)

lemma reported_ok [simp]: "sameErrors s t \<Longrightarrow> reportedOnce rep s (okResult v) t" by (simp add: reportedOnce_def)

lemma reported_closed [simp]: "sameErrors s t \<Longrightarrow> hasFailed rep t \<Longrightarrow> reportedOnce rep s closedResult t"
  by (simp add: reportedOnce_def sameErrors_def)

lemma reported_failure: "sameErrors s u \<Longrightarrow> wp (outputFailure H rep e) (reportedOnce rep s) u"
  by (auto simp: wp_run outputFailure_def run_streamFailure reportedOnce_def sameErrors_def hasFailed_def Let_def split_beta)

lemma same_outs:
  assumes "sameErrors s u"
  shows "wp (outCheckWrite H d) (\<lambda>_. sameErrors s) u" "wp (outTryWrite H d c) (\<lambda>_. sameErrors s) u"
    "wp (outBeginFlush H d) (\<lambda>_. sameErrors s) u" "wp (outWaitWritable H d) (\<lambda>_. sameErrors s) u"
  using assms
  by (auto simp: wp_run outCheckWrite_def outTryWrite_def outBeginFlush_def outWaitWritable_def viaSafe_def rawStream_def
      safeCheckWrite_def safeTryWrite_def safeBeginFlush_def safeWaitWritable_def takePending_def setWrapper_def sameErrors_def Let_def split: prod.splits)

lemma same_writer: "sameErrors s u \<Longrightarrow> wp (writer rep) (\<lambda>_. sameErrors s) u"
  by (auto simp: wp_simps writer_def fileWriter_def sameErrors_def Let_def split: option.splits)

lemma same_probe: "sameErrors s u \<Longrightarrow> wp (probeWritePermit H rep w) (\<lambda>_. sameErrors s) u"
  unfolding probeWritePermit_def wp_bind
  by (rule wp_mono [OF same_outs(1)]) (auto simp: wp_simps sameErrors_def Let_def split: option.splits prod.splits)

lemma same_consume: "sameErrors s u \<Longrightarrow> wp (consumeWritePermit rep n) (\<lambda>_. sameErrors s) u"
  by (auto simp: wp_run run_consume sameErrors_def)

lemma same_ctxErr: "sameErrors s u \<Longrightarrow> wp (ctxErr H) (\<lambda>_. sameErrors s) u"
  by (simp add: wp_run ctxErr_def sameErrors_def split_beta)

lemma reported_closedH: "sameErrors s u \<Longrightarrow> hasFailed rep u \<Longrightarrow> wp (streamFailure H EOF) (reportedOnce rep s) u"
  by (simp add: wp_run)

lemma wp_outputClosed [wp_simps]: "wp (outputClosed rep) Q s = Q (hasFailed rep s) s"
  by (simp add: wp_run)

lemma reported_checkWrite: "sameErrors s u \<Longrightarrow> wp (checkWriteH H [VU32 rep]) (reportedOnce rep s) u"
  unfolding checkWriteH_def
  by (auto simp: wp_simps reported_closedH reported_failure intro!: wp_mono [OF same_writer] wp_mono [OF same_probe] split: sum.splits)

lemma reported_contents: "sameErrors s u \<Longrightarrow> wp (writeContents H rep w n c) (reportedOnce rep s) u"
  unfolding writeContents_def
  by (auto simp: wp_simps reported_closedH reported_failure intro!: wp_mono [OF same_consume] wp_mono [OF same_outs(2)] split: option.splits)

lemma reported_write: "sameErrors s u \<Longrightarrow> wp (writeH H [VU32 rep, v]) (reportedOnce rep s) u"
  unfolding writeH_def
  by (auto simp: wp_simps reported_contents intro!: wp_mono [OF same_writer] split: sum.splits)

lemma reported_zeroes: "sameErrors s u \<Longrightarrow> wp (writeZeroes H [VU32 rep, v]) (reportedOnce rep s) u"
  unfolding writeZeroes_def
  by (auto simp: wp_simps reported_contents intro!: wp_mono [OF same_writer] split: sum.splits val.splits)

lemma reported_flush: "sameErrors s u \<Longrightarrow> wp (flush H [VU32 rep]) (reportedOnce rep s) u"
  unfolding flush_def
  by (auto simp: wp_simps reported_closedH reported_failure intro!: wp_mono [OF same_writer] wp_mono [OF same_outs(3)] split: sum.splits option.splits)

lemma reported_wait:
  "sameErrors s u \<Longrightarrow> wp (waitWritableH H rep w) (\<lambda>r t. case r of None \<Rightarrow> sameErrors s t | Some r \<Rightarrow> reportedOnce rep s r t) u"
  unfolding waitWritableH_def
  by (auto simp: wp_simps intro!: wp_mono [OF reported_closedH] wp_mono [OF reported_failure] wp_mono [OF same_outs(4)] wp_mono [OF same_ctxErr]
      split: option.splits)

lemma reported_flushAndWait: "sameErrors s u \<Longrightarrow> wp (flushAndWait H rep w) (reportedOnce rep s) u"
  unfolding flushAndWait_def
  by (auto simp: wp_simps reported_failure intro!: wp_mono [OF reported_wait [of s]] wp_mono [OF same_outs(3) [of s]] wp_mono [OF same_probe [of s]]
      split: option.splits sum.splits)

lemma reported_blockingFlush: "sameErrors s u \<Longrightarrow> wp (blockingFlush H [VU32 rep]) (reportedOnce rep s) u"
  unfolding blockingFlush_def
  by (auto simp: wp_simps reported_flushAndWait intro!: wp_mono [OF same_writer] split: sum.splits)

lemma reported_okD: "reportedOnce rep s (okResult v) t \<Longrightarrow> sameErrors s t"
  by (simp add: reportedOnce_def)

lemma reported_chunks: "sameErrors s u \<Longrightarrow> wp (writeChunks k H rep w delay c) (reportedOnce rep s) u"
proof (induction k arbitrary: u delay c)
  case 0
  then show ?case by (simp add: wp_simps outOfFuel_def)
next
  case (Suc k)
  have retry: "wp (waitTransientStreamRetry H d) (\<lambda>_. sameErrors s) v" if "sameErrors s v" for d v
    using that by (simp add: waitTransientStreamRetry_def wp_run sameErrors_def split_beta)
  show ?case
    using Suc.prems
    by (auto simp: wp_simps reported_flushAndWait Let_def Suc.IH dest!: reported_okD
        intro!: wp_mono [OF reported_wait [of s]] wp_mono [OF reported_checkWrite [of s]] wp_mono [OF retry] wp_mono [OF reported_write [of s]]
        split: option.splits sum.splits list.splits val.splits bool.splits)
qed

lemma reported_blockingWrite: "sameErrors s u \<Longrightarrow> wp (blockingWriteAndFlush H [VU32 rep, v]) (reportedOnce rep s) u"
  unfolding blockingWriteAndFlush_def
  by (auto simp: wp_simps reported_chunks intro!: wp_mono [OF same_writer] split: sum.splits)

lemma reported_blockingZeroes: "sameErrors s u \<Longrightarrow> wp (blockingWriteZeroes H [VU32 rep, v]) (reportedOnce rep s) u"
  unfolding blockingWriteZeroes_def by (auto simp: wp_simps reported_blockingWrite split: val.splits)

lemma outputOps_reported: "m \<in> outputOps H rep \<Longrightarrow> wp m (reportedOnce rep s) s"
  by (auto simp: outputOps_def reported_checkWrite reported_flush reported_blockingFlush reported_write reported_zeroes reported_blockingWrite
      reported_blockingZeroes)

text \<open>An operation that makes no call to the outside and creates no error resource.\<close>

definition silent :: "'w p2 \<Rightarrow> hostResult \<times> 'w p2 \<Rightarrow> bool" where
  "silent s x \<longleftrightarrow> (fst x = closedResult \<or> (\<exists>e. fst x = Inl e)) \<and> p_log (snd x) = p_log s \<and> sameErrors s (snd x)"

lemma closed_splice:
  assumes "hasFailed rep s" and "knownOutput rep s" and "p_fuel s \<noteq> 0"
  shows "run_state (splice H b [VU32 rep, src, VU64 n]) s = (closedResult, s)"
proof -
  obtain w where w: "run_state (writer rep) s = (Inr w, s)" using run_writer_known [OF assms(2)] by blast
  have r: "run_state (spliceRound H b rep (if b then Some w else None) src n) s = (Inl closedResult, s)"
    using closed_handlers(1) [OF assms(1,2), of H] assms(1) by (simp add: spliceRound_def waitWritableH_def)
  obtain k where "p_fuel s = Suc k" using assms(3) by (cases "p_fuel s") auto
  with w r show ?thesis by (cases b) (simp_all add: splice_def)
qed

lemma silent_closed [simp]: "silent s (closedResult, s)" "silent s (Inl e, s)"
  by (simp_all add: silent_def)

lemma silent_contents:
  assumes "hasFailed rep s"
  shows "silent s (run_state (writeContents H rep w n c) s)"
proof -
  have "hasFailed rep (s\<lparr>p_host := (p_host s)\<lparr>h_permits := x\<rparr>\<rparr>)" for x using assms by (simp add: hasFailed_def)
  then show ?thesis by (auto simp: writeContents_def run_consume silent_def sameErrors_def)
qed

lemma outputOps_silent:
  assumes "hasFailed rep s" and "knownOutput rep s" and "p_fuel s \<noteq> 0" and "m \<in> outputOps H rep"
  shows "silent s (run_state m s)"
proof -
  obtain w where w: "run_state (writer rep) s = (Inr w, s)" using run_writer_known [OF assms(2)] by blast
  obtain k where k: "p_fuel s = Suc k" using assms(3) by (cases "p_fuel s") auto
  note closed = closed_handlers [OF assms(1,2)]
  have bw: "silent s (run_state (blockingWriteAndFlush H [VU32 rep, v]) s)" for v
    using w k closed(5) by (auto simp: blockingWriteAndFlush_def simp del: writeChunks.simps split: sum.split)
  have "silent s (run_state (writeH H [VU32 rep, v]) s)" for v
    using w silent_contents [OF assms(1)] by (auto simp: writeH_def split: sum.split)
  moreover have "silent s (run_state (writeZeroes H [VU32 rep, v]) s)" for v
    using w silent_contents [OF assms(1)] by (auto simp: writeZeroes_def split: val.split)
  moreover have "silent s (run_state (blockingWriteZeroes H [VU32 rep, v]) s)" for v
    using bw by (auto simp: blockingWriteZeroes_def split: val.split)
  ultimately show ?thesis using assms(4) closed(1,2,4) bw by (auto simp: outputOps_def)
qed


section \<open>Blocking writes\<close>

text \<open>The bytes that a sequence of calls hands to the stream \<open>d\<close>.\<close>

definition written :: "out \<Rightarrow> p2call list \<Rightarrow> bytes" where
  "written d cs = concat (map (\<lambda>c. case c of TryW d' b \<Rightarrow> if d' = d then b else [] | _ \<Rightarrow> []) cs)"

lemma written_simps [simp]:
  "written d [] = []" "written d (cs @ cs') = written d cs @ written d cs'" "written d [TryW d b] = b"
  "written d [WaitW e] = []" "written d [CheckW e] = []" "written d [FlushW e] = []"
  by (simp_all add: written_def)

text \<open>A stream that is writable whenever it is waited for and never fails.\<close>

definition serves :: "'w p2host \<Rightarrow> out \<Rightarrow> bool" where
  "serves H d \<longleftrightarrow> (\<forall>x. asErrOpt (fst (H (WaitW d) x)) = None \<and> asErrOpt (fst (H (FlushW d) x)) = None \<and>
     (\<exists>n. n \<noteq> 0 \<and> asPermit (fst (H (CheckW d) x)) = (n, None)) \<and> (\<forall>b. asErrOpt (fst (H (TryW d b) x)) = None))"

text \<open>\<open>t\<close> follows \<open>s\<close> by the calls \<open>cs\<close>; the stream has no error to report, and only permits changed.\<close>

definition follows :: "out \<Rightarrow> p2call list \<Rightarrow> 'w p2 \<Rightarrow> 'w p2 \<Rightarrow> bool" where
  "follows d cs s t \<longleftrightarrow> p_log t = p_log s @ cs \<and> p_fs t = p_fs s \<and> snd (wrapperOf d (p_host t)) = None \<and>
     h_outputFailed (p_host t) = h_outputFailed (p_host s) \<and> h_outputs (p_host t) = h_outputs (p_host s) \<and>
     h_limits (p_host t) = h_limits (p_host s)"

lemma follows_trans: "follows d cs s t \<Longrightarrow> follows d cs' t u \<Longrightarrow> follows d (cs @ cs') s u"
  by (simp add: follows_def)

lemma wrapper_cases: "snd (wrapperOf d h) = None \<Longrightarrow> \<exists>n. wrapperOf d h = (n, None)"
  by (cases "wrapperOf d h") simp

lemma set_wrapper [simp]:
  "wrapperOf d (setWrapper d w h) = w" "h_outputFailed (setWrapper d w h) = h_outputFailed h"
  "h_outputs (setWrapper d w h) = h_outputs h" "h_limits (setWrapper d w h) = h_limits h"
  "wrapperOf d (h\<lparr>h_permits := x\<rparr>) = wrapperOf d h" "h_permits (setWrapper d w h) = h_permits h"
  by (simp_all add: wrapperOf_def setWrapper_def)

lemma follows_host: "follows d cs s t \<Longrightarrow> follows d cs s (t\<lparr>p_host := (p_host t)\<lparr>h_permits := x\<rparr>\<rparr>)"
  by (simp add: follows_def)

text \<open>The states after a call to the stream or to its wrapper.\<close>

lemma follows_call:
  "snd (wrapperOf d (p_host s)) = None \<Longrightarrow> follows d [c] s (s\<lparr>p_world := x, p_log := p_log s @ [c]\<rparr>)"
  "follows d [c] s (s\<lparr>p_world := x, p_log := p_log s @ [c], p_host := setWrapper d (y, None) (p_host s)\<rparr>)"
  "follows d [] s (s\<lparr>p_host := setWrapper d (y, None) (p_host s)\<rparr>)"
  by (simp_all add: follows_def)

lemmas out_defs = viaSafe_def rawStream_def safeCheckWrite_def safeTryWrite_def safeBeginFlush_def
  safeWaitWritable_def takePending_def Let_def

lemma serves_wait:
  assumes "serves H d" and "snd (wrapperOf d (p_host s)) = None"
  shows "\<exists>cs t. run_state (outWaitWritable H d) s = (None, t) \<and> follows d cs s t \<and> written d cs = []"
proof -
  obtain n where n: "wrapperOf d (p_host s) = (n, None)" using wrapper_cases [OF assms(2)] by blast
  have "asErrOpt (fst (H (WaitW d) (p_world s))) = None" using assms(1) by (simp add: serves_def)
  then show ?thesis
    by (cases "isWrapped d"; cases "n = 0")
      (auto simp: outWaitWritable_def out_defs n intro: written_simps follows_call assms(2))
qed

lemma serves_check:
  assumes "serves H d" and "snd (wrapperOf d (p_host s)) = None"
  shows "\<exists>m cs t. run_state (outCheckWrite H d) s = ((m, None), t) \<and> m \<noteq> 0 \<and> follows d cs s t \<and> written d cs = []"
proof -
  obtain n where n: "wrapperOf d (p_host s) = (n, None)" using wrapper_cases [OF assms(2)] by blast
  obtain m where "m \<noteq> 0" "asPermit (fst (H (CheckW d) (p_world s))) = (m, None)" using assms(1) by (auto simp: serves_def)
  then show ?thesis
    by (cases "isWrapped d"; cases "n = 0")
      (auto simp: outCheckWrite_def out_defs n intro: written_simps follows_call assms(2))
qed

lemma serves_flush:
  assumes "serves H d" and "snd (wrapperOf d (p_host s)) = None"
  shows "\<exists>t. run_state (outBeginFlush H d) s = (None, t) \<and> follows d [FlushW d] s t"
proof -
  obtain n where n: "wrapperOf d (p_host s) = (n, None)" using wrapper_cases [OF assms(2)] by blast
  have "asErrOpt (fst (H (FlushW d) (p_world s))) = None" using assms(1) by (simp add: serves_def)
  then show ?thesis
    by (cases "isWrapped d") (auto simp: outBeginFlush_def out_defs n intro: follows_call assms(2))
qed

lemma serves_try:
  assumes "serves H d" and "snd (wrapperOf d (p_host s)) = None"
  shows "\<exists>t. run_state (outTryWrite H d c) s = (None, t) \<and> follows d [TryW d c] s t"
proof -
  obtain n where n: "wrapperOf d (p_host s) = (n, None)" using wrapper_cases [OF assms(2)] by blast
  have "asErrOpt (fst (H (TryW d c) (p_world s))) = None" using assms(1) by (simp add: serves_def)
  then show ?thesis
    by (cases "isWrapped d") (auto simp: outTryWrite_def out_defs n intro: follows_call assms(2))
qed

lemma serves_waitWritableH:
  assumes "serves H d" and "snd (wrapperOf d (p_host s)) = None" and "\<not> hasFailed rep s"
  shows "\<exists>cs t. run_state (waitWritableH H rep d) s = (None, t) \<and> follows d cs s t \<and> written d cs = []"
  using serves_wait [OF assms(1,2)] assms(3) by (auto simp: waitWritableH_def)

lemma serves_probe:
  assumes "serves H d" and "snd (wrapperOf d (p_host s)) = None"
  shows "\<exists>m cs t. run_state (probeWritePermit H rep d) s = (Inr m, t) \<and> m \<noteq> 0 \<and> m \<le> ioLimit (h_limits (p_host s)) \<and>
     map_of (h_permits (p_host t)) rep = Some m \<and> follows d cs s t \<and> written d cs = []"
proof -
  obtain m cs t where m: "run_state (outCheckWrite H d) s = ((m, None), t)" "m \<noteq> 0" "follows d cs s t" "written d cs = []"
    using serves_check [OF assms] by blast
  have lim: "h_limits (p_host t) = h_limits (p_host s)" using m(3) by (simp add: follows_def)
  have "ioLimit l \<noteq> 0" for l by (simp add: ioLimit_def Let_def maxIO_def normalized_def orDefault_def)
  with m lim follows_host [OF m(3)] show ?thesis by (auto simp: probeWritePermit_def Let_def not_less)
qed

definition servedBy :: "u32 \<Rightarrow> out \<Rightarrow> 'w p2 \<Rightarrow> bool" where
  "servedBy rep d s \<longleftrightarrow> (if rep = stdoutRep then d = StdOut else if rep = stderrRep then d = StdErr
     else map_of (h_outputs (p_host s)) rep = Some d)"

text \<open>An open output stream with nothing to report.\<close>

definition openOutput :: "u32 \<Rightarrow> out \<Rightarrow> 'w p2 \<Rightarrow> bool" where
  "openOutput rep d s \<longleftrightarrow> servedBy rep d s \<and> \<not> hasFailed rep s \<and> snd (wrapperOf d (p_host s)) = None"

lemma run_writer_served: "servedBy rep d s \<Longrightarrow> run_state (writer rep) s = (Inr d, s)"
  by (auto simp: servedBy_def writer_def fileWriter_def split: if_splits)

lemma follows_open: "follows d cs s t \<Longrightarrow> openOutput rep d s \<Longrightarrow> openOutput rep d t"
  by (simp add: follows_def openOutput_def servedBy_def hasFailed_def)

lemma openD: "openOutput rep d s \<Longrightarrow> servedBy rep d s" "openOutput rep d s \<Longrightarrow> \<not> hasFailed rep s"
  "openOutput rep d s \<Longrightarrow> snd (wrapperOf d (p_host s)) = None"
  by (simp_all add: openOutput_def)

lemma serves_checkWriteH:
  assumes "serves H d" and "openOutput rep d s"
  shows "\<exists>m cs t. run_state (checkWriteH H [VU32 rep]) s = (okResult (VU64 m), t) \<and> m \<noteq> 0 \<and> m \<le> ioLimit (h_limits (p_host s)) \<and>
     map_of (h_permits (p_host t)) rep = Some m \<and> follows d cs s t \<and> written d cs = []"
  using serves_probe [OF assms(1) openD(3) [OF assms(2)], of rep] openD(2) [OF assms(2)]
  by (auto simp: checkWriteH_def run_writer_served [OF openD(1) [OF assms(2)]])

lemma serves_writeH:
  assumes "serves H d" and "openOutput rep d s" and "map_of (h_permits (p_host s)) rep = Some m"
    and "length c \<le> unat m" and "m \<le> ioLimit (h_limits (p_host s))"
  shows "\<exists>t. run_state (writeH H [VU32 rep, VBytes c]) s = (okResult VNil, t) \<and> follows d [TryW d c] s t"
proof -
  let ?s = "s\<lparr>p_host := (p_host s)\<lparr>h_permits := AList.delete rep (h_permits (p_host s))\<rparr>\<rparr>"
  have "length c < 2 ^ 64" using assms(4) unat_u64_bound [of m] by (simp del: unat_u64_bound)
  then have "unat (of_nat (length c) :: u64) = length c" by (simp add: unat_of_nat)
  then have le: "(of_nat (length c) :: u64) \<le> m" using assms(4) by (simp add: word_le_nat_alt)
  then have n: "\<exists>p. map_of (h_permits (p_host s)) rep = Some p \<and> of_nat (length c) \<le> p \<and> of_nat (length c) \<le> ioLimit (h_limits (p_host s))"
    using assms(3,5) by auto
  have op: "openOutput rep d ?s" using assms(2) by (simp add: openOutput_def servedBy_def hasFailed_def)
  obtain t where "run_state (outTryWrite H d c) ?s = (None, t)" "follows d [TryW d c] ?s t"
    using serves_try [OF assms(1) openD(3) [OF op], of c] by blast
  moreover have "\<not> hasFailed rep ?s" using op by (rule openD)
  moreover have "follows d [TryW d c] ?s t \<Longrightarrow> follows d [TryW d c] s t" by (simp add: follows_def)
  ultimately show ?thesis using n
    by (simp add: writeH_def bytesValue_def run_writer_served [OF openD(1) [OF assms(2)]] writeContents_def run_consume)
qed

text \<open>The calls end with a flush, a wait for it and no further write.\<close>

definition flushedLast :: "out \<Rightarrow> p2call list \<Rightarrow> bool" where
  "flushedLast d cs \<longleftrightarrow> (\<exists>before after. cs = before @ FlushW d # after \<and> written d after = [])"

lemma flushedLast_append: "flushedLast d cs \<Longrightarrow> flushedLast d (cs' @ cs)"
  unfolding flushedLast_def by (metis append_assoc)

lemma serves_flushAndWait:
  assumes "serves H d" and "openOutput rep d s"
  shows "\<exists>cs t. run_state (flushAndWait H rep d) s = (okResult VNil, t) \<and> follows d cs s t \<and> written d cs = [] \<and> flushedLast d cs"
proof -
  obtain c1 s1 where 1: "run_state (waitWritableH H rep d) s = (None, s1)" "follows d c1 s s1" "written d c1 = []"
    using serves_waitWritableH [OF assms(1) openD(3) [OF assms(2)] openD(2) [OF assms(2)]] by blast
  note o1 = follows_open [OF 1(2) assms(2)]
  obtain s2 where 2: "run_state (outBeginFlush H d) s1 = (None, s2)" "follows d [FlushW d] s1 s2"
    using serves_flush [OF assms(1) openD(3) [OF o1]] by blast
  note o2 = follows_open [OF 2(2) o1]
  obtain c3 s3 where 3: "run_state (waitWritableH H rep d) s2 = (None, s3)" "follows d c3 s2 s3" "written d c3 = []"
    using serves_waitWritableH [OF assms(1) openD(3) [OF o2] openD(2) [OF o2]] by blast
  note o3 = follows_open [OF 3(2) o2]
  obtain m c4 s4 where 4: "run_state (probeWritePermit H rep d) s3 = (Inr m, s4)" "follows d c4 s3 s4" "written d c4 = []"
    using serves_probe [OF assms(1) openD(3) [OF o3]] by blast
  have "follows d (c1 @ FlushW d # c3 @ c4) s s4"
    using follows_trans [OF follows_trans [OF follows_trans [OF 1(2) 2(2)] 3(2)] 4(2)] by simp
  moreover have "flushedLast d (c1 @ FlushW d # c3 @ c4)"
    unfolding flushedLast_def using 3(3) 4(3) by (metis append_Nil written_simps(2))
  moreover have "written d (c1 @ FlushW d # c3 @ c4) = []" using 1(3) 3(3) 4(3) by (simp add: written_def)
  ultimately show ?thesis using 1(1) 2(1) 3(1) 4(1) by (auto simp: flushAndWait_def)
qed

lemma serves_writeChunks:
  "serves H d \<Longrightarrow> openOutput rep d s \<Longrightarrow> length c < k \<Longrightarrow>
     \<exists>cs t. run_state (writeChunks k H rep d delay c) s = (okResult VNil, t) \<and> follows d cs s t \<and> written d cs = c \<and> flushedLast d cs"
proof (induction k arbitrary: s c delay)
  case (Suc k)
  show ?case
  proof (cases "c = []")
    case True
    then show ?thesis using serves_flushAndWait [OF Suc.prems(1,2)] by auto
  next
    case False
    obtain c1 s1 where 1: "run_state (waitWritableH H rep d) s = (None, s1)" "follows d c1 s s1" "written d c1 = []"
      using serves_waitWritableH [OF Suc.prems(1) openD(3) [OF Suc.prems(2)] openD(2) [OF Suc.prems(2)]] by blast
    note o1 = follows_open [OF 1(2) Suc.prems(2)]
    obtain m c2 s2 where 2: "run_state (checkWriteH H [VU32 rep]) s1 = (okResult (VU64 m), s2)" "m \<noteq> 0"
      "m \<le> ioLimit (h_limits (p_host s1))" "map_of (h_permits (p_host s2)) rep = Some m" "follows d c2 s1 s2" "written d c2 = []"
      using serves_checkWriteH [OF Suc.prems(1) o1] by blast
    note o2 = follows_open [OF 2(5) o1]
    let ?n = "min (length c) (unat m)"
    have lim: "m \<le> ioLimit (h_limits (p_host s2))" using 2(3,5) by (simp add: follows_def)
    obtain s3 where 3: "run_state (writeH H [VU32 rep, VBytes (take ?n c)]) s2 = (okResult VNil, s3)" "follows d [TryW d (take ?n c)] s2 s3"
      using serves_writeH [OF Suc.prems(1) o2 2(4) _ lim, of "take ?n c"] by auto
    note o3 = follows_open [OF 3(2) o2]
    have "0 < ?n" using False 2(2) by (simp add: unat_gt_0)
    then have "length c - ?n < length c" using False by (intro diff_less) simp_all
    then have "length (drop ?n c) < k" using Suc.prems(3) by (simp only: length_drop)
    from Suc.IH [OF Suc.prems(1) o3 this] obtain c4 t where 4:
      "run_state (writeChunks k H rep d millisecond (drop ?n c)) s3 = (okResult VNil, t)" "follows d c4 s3 t"
      "written d c4 = drop ?n c" "flushedLast d c4" by blast
    have "follows d (c1 @ c2 @ [TryW d (take ?n c)] @ c4) s t"
      using follows_trans [OF 1(2) follows_trans [OF 2(5) follows_trans [OF 3(2) 4(2)]]] by simp
    moreover have "written d (c1 @ c2 @ [TryW d (take ?n c)] @ c4) = c"
      using 1(3) 2(6) 4(3) by (simp del: append_Cons)
    moreover have "flushedLast d (c1 @ c2 @ [TryW d (take ?n c)] @ c4)" using 4(4) by (simp only: flushedLast_append)
    moreover have "run_state (writeChunks (Suc k) H rep d delay c) s = (okResult VNil, t)"
      using False 1(1) 2(1,2) 3(1) 4(1) by (simp add: Let_def)
    ultimately show ?thesis by blast
  qed
qed simp

text \<open>C16: a blocking write of at most 4096 bytes to an open stream that is writable whenever it is waited for and
  does not fail returns success after at most one round per byte; the chunks it hands over, each within the
  permit of its own \<^verbatim>\<open>check-write\<close>, are together exactly the contents, and they are followed by a flush.\<close>

theorem blocking_write_complete:
  assumes "serves H d" and "openOutput rep d s" and "length c \<le> 4096" and "length c < p_fuel s"
  shows "\<exists>cs t. run_state (blockingWriteAndFlush H [VU32 rep, VBytes c]) s = (okResult VNil, t) \<and>
     p_log t = p_log s @ cs \<and> written d cs = c \<and> flushedLast d cs \<and> p_fs t = p_fs s \<and> \<not> hasFailed rep t"
proof -
  obtain cs t where r: "run_state (writeChunks (p_fuel s) H rep d millisecond c) s = (okResult VNil, t)" "follows d cs s t"
    "written d cs = c" "flushedLast d cs"
    using serves_writeChunks [OF assms(1,2,4)] by blast
  moreover have "\<not> hasFailed rep t" using follows_open [OF r(2) assms(2)] by (rule openD)
  ultimately show ?thesis
    using assms(3) by (auto simp: blockingWriteAndFlush_def bytesValue_def run_writer_served [OF openD(1) [OF assms(2)]] follows_def)
qed

section \<open>Examples\<close>

text \<open>A host on which everything succeeds, except that its second standard stream fails every write.\<close>

definition sampleOutside :: "unit p2host" where
  "sampleOutside c x = (case c of
      CheckW d \<Rightarrow> RPermit 3 None
    | TryW d b \<Rightarrow> RErrOpt (if d = StdErr then Some ErrShortWrite else None)
    | NewOwn k rep \<Rightarrow> RHandle (rep + 100)
    | TryR n \<Rightarrow> RRead (replicate n 7) None
    | _ \<Rightarrow> RErrOpt None, x)"

definition samplePlain :: "unit p2" where
  "samplePlain = \<lparr>p_host = newHostState (normalized zeroLimits),
     p_fs = \<lparr>f_mounts = [], f_descs = [], f_streams = [], f_stdStreams = 0, f_dirs = [], f_nextDesc = 1,
       f_nextStream = fileStreamRepMin, f_nextDir = 1, f_limits = normalized zeroLimits\<rparr>,
     p_world = (), p_log = [], p_live = {}, p_next = 0, p_fuel = 10, p_stuck = False\<rparr>"

text \<open>The same state after a \<^verbatim>\<open>check-write\<close> of the second standard stream.\<close>

definition permitted3 :: "unit p2" where
  "permitted3 = samplePlain\<lparr>p_host := (p_host samplePlain)\<lparr>h_permits := [(stderrRep, 3)]\<rparr>\<rparr>"


theorem blocking_write_complete_witness:
  "\<exists>cs t. run_state (blockingWriteAndFlush sampleOutside [VU32 stdoutRep, VBytes [1, 2, 3, 4]]) samplePlain = (okResult VNil, t) \<and>
     p_log t = cs \<and> written StdOut cs = [1, 2, 3, 4] \<and> flushedLast StdOut cs"
proof -
  have "serves sampleOutside StdOut" by (auto simp: serves_def sampleOutside_def)
  moreover have "openOutput stdoutRep StdOut samplePlain"
    by (simp add: openOutput_def servedBy_def hasFailed_def samplePlain_def newHostState_def wrapperOf_def)
  moreover have "p_log samplePlain = []" "p_fuel samplePlain = 10" by (simp_all add: samplePlain_def)
  ultimately show ?thesis using blocking_write_complete [of sampleOutside StdOut stdoutRep samplePlain "[1, 2, 3, 4]"] by auto
qed

section \<open>File streams\<close>

text \<open>C40: when a read of a file stream fails after it has delivered some bytes, the bytes are lost: the position moves
  past them and the guest receives only the error.\<close>

theorem readStream_drops:
  assumes "map_of (f_streams (p_fs s)) rep = Some st" and "st_read st" and "\<not> st_closed st"
    and "0 < n" and "n \<le> ioLimit (f_limits (p_fs s))" and "length b \<le> unat n" and "b \<noteq> []" and "\<not> errorsIs e EOF"
    and "H (Os (HReadAt (st_file st) (unat n) (st_pos st))) (p_world s) = (RHost (RIO b (int (length b)) (Some e)), w)"
    and "run_state (readStream H rep n) s = (r, t)"
  shows "r = Inl (Wrapped e) \<and>
    map_of (f_streams (p_fs t)) rep = Some (st\<lparr>st_pos := st_pos st + of_nat (length b)\<rparr>)"
proof -
  have "clamp (ioLimit (f_limits (p_fs s))) n = n" using assms(5) by (auto simp: clamp_def)
  moreover have "n \<noteq> 0" using assms(4) by auto
  ultimately show ?thesis using assms by (auto simp: run_readStream streamAnswer_def Let_def)
qed

definition failingRead :: "unit p2host" where
  "failingRead c x = (RHost (RIO [1, 2] 2 (Some (OtherError ''input/output error''))), x)"

definition streamAt :: "u64 \<Rightarrow> fileStream" where
  "streamAt pos = \<lparr>st_file = (1, 0), st_pos = pos, st_read = True, st_closed = False, st_append = None\<rparr>"

theorem readStream_drops_witness:
  "\<exists>t. run_state (readStream failingRead fileStreamRepMin 8)
       (samplePlain\<lparr>p_fs := (p_fs samplePlain)\<lparr>f_streams := [(fileStreamRepMin, streamAt 0)]\<rparr>\<rparr>) =
       (Inl (Wrapped (OtherError ''input/output error'')), t) \<and>
     map_of (f_streams (p_fs t)) fileStreamRepMin = Some (streamAt 2)"
proof -
  let ?s = "samplePlain\<lparr>p_fs := (p_fs samplePlain)\<lparr>f_streams := [(fileStreamRepMin, streamAt 0)]\<rparr>\<rparr>"
  obtain r t where r: "run_state (readStream failingRead fileStreamRepMin 8) ?s = (r, t)" by (metis surj_pair)
  have "(8 :: u64) \<le> ioLimit (f_limits (p_fs ?s))"
    by (simp add: samplePlain_def ioLimit_def normalized_def orDefault_def zeroLimits_def maxIO_def Let_def)
  with readStream_drops [OF _ _ _ _ _ _ _ _ _ r, of "streamAt 0" "[1, 2]" "OtherError ''input/output error''" "()"] r
  show ?thesis by (simp add: streamAt_def failingRead_def)
qed

end
