(* ===== verification/Async_Input.thy ===== *)
theory Async_Input
  imports Go_Std Interfaces
begin

text \<open>
  The adapter \<^verbatim>\<open>asyncInput\<close> of \<^verbatim>\<open>p2/io.go\<close>, which turns a blocking reader into a nonblocking stream with at
  most one read in flight. Every method holds the lock of the adapter; the goroutine that performs the
  read is a separate step (\<open>readDone\<close>), and one that finishes inside a call of \<^verbatim>\<open>TryRead\<close> is an argument of
  that call. \<^verbatim>\<open>WaitReadable\<close> takes the lock twice, before and after it waits, and is modelled as two steps.
\<close>

section \<open>State\<close>

text \<open>The bytes and the error of a finished read. The goroutine keeps \<open>n\<close> bytes of its buffer when \<open>n > 0\<close>
  and none otherwise.\<close>

type_synonym readResult = "bytes \<times> goerr option"

text \<open>\<open>ai_waiting\<close> is the pending read: its identity (the code compares pointers) and its result once
  the channel \<^verbatim>\<open>ready\<close> is closed. \<open>ai_next\<close> numbers the pending reads.\<close>

record asyncInput =
  ai_result :: "readResult option"
  ai_waiting :: "(nat \<times> readResult option) option"
  ai_closed :: bool
  ai_next :: nat

definition newInput :: "bool \<Rightarrow> asyncInput" where
  "newInput isNil = \<lparr>ai_result = None, ai_waiting = None, ai_closed = isNil, ai_next = 0\<rparr>"

section \<open>Operations\<close>

definition start :: "asyncInput \<Rightarrow> asyncInput" where
  "start s = (if ai_waiting s \<noteq> None \<or> ai_result s \<noteq> None \<or> ai_closed s then s
     else s\<lparr>ai_waiting := Some (ai_next s, None), ai_next := Suc (ai_next s)\<rparr>)"

text \<open>The end of the goroutine, with what \<^verbatim>\<open>Read\<close> stored in its buffer of 64 KiB.\<close>

definition readBuffer :: nat where
  "readBuffer = 64 * 1024"

definition readDone :: "readResult \<Rightarrow> asyncInput \<Rightarrow> asyncInput" where
  "readDone r s = (case ai_waiting s of
      Some (i, None) \<Rightarrow> s\<lparr>ai_waiting := Some (i, Some (take readBuffer (fst r), snd r))\<rparr>
    | _ \<Rightarrow> s)"

definition collect :: "asyncInput \<Rightarrow> asyncInput" where
  "collect s = (case ai_waiting s of
      Some (i, Some r) \<Rightarrow> s\<lparr>ai_result := Some r, ai_waiting := None\<rparr>
    | _ \<Rightarrow> s)"

definition pendingReadError :: "asyncInput \<Rightarrow> bool \<times> asyncInput" where
  "pendingReadError s = (let s = collect s in
     ((case ai_result s of Some (b, err) \<Rightarrow> length b = 0 \<and> err \<noteq> None | None \<Rightarrow> False), s))"

text \<open>The rest of \<^verbatim>\<open>TryRead\<close> once a result is there.\<close>

definition takeResult :: "nat \<Rightarrow> bytes \<Rightarrow> goerr option \<Rightarrow> asyncInput \<Rightarrow> (bytes \<times> goerr option) \<times> asyncInput" where
  "takeResult len b err s =
     (let n = min len (length b); out = take n b; rest = drop n b; s = s\<lparr>ai_result := Some (rest, err)\<rparr> in
      if length rest \<noteq> 0 then ((out, None), s)
      else
        (let eof = (case err of None \<Rightarrow> False | Some e \<Rightarrow> errorsIs e EOF \<or> n = 0) in
         if \<not> eof \<and> n > 0 \<and> err \<noteq> None then ((out, None), s)
         else
           (let s = (if eof then s\<lparr>ai_closed := True\<rparr> else s); s = s\<lparr>ai_result := None\<rparr> in
            if n > 0 then ((out, None), s) else (([], err), s))))"

definition tryRead :: "readResult option \<Rightarrow> nat \<Rightarrow> asyncInput \<Rightarrow> (bytes \<times> goerr option) \<times> asyncInput" where
  "tryRead early len s =
     (let s = collect s in
      if len = 0 then
        (let s = (case ai_result s of
              Some (b, Some e) \<Rightarrow> (if length b = 0 \<and> errorsIs e EOF then s\<lparr>ai_result := None, ai_closed := True\<rparr> else s)
            | _ \<Rightarrow> s)
         in (([], if ai_closed s then Some EOF else None), s))
      else if ai_result s = None \<and> ai_closed s then (([], Some EOF), s)
      else
        (let s = (if ai_result s = None
                  then collect (case early of None \<Rightarrow> start s | Some r \<Rightarrow> readDone r (start s)) else s)
         in case ai_result s of
              None \<Rightarrow> (([], Some ErrWouldBlock), s)
            | Some (b, err) \<Rightarrow> takeResult len b err s))"

text \<open>\<^verbatim>\<open>WaitReadable\<close> before the wait: \<open>None\<close> when it returns at once, else the read it waits for.\<close>

definition waitReadable :: "asyncInput \<Rightarrow> nat option \<times> asyncInput" where
  "waitReadable s = (let s = collect s in
     if ai_result s \<noteq> None \<or> ai_closed s then (None, s)
     else (let s = start s in (map_option fst (ai_waiting s), s)))"

text \<open>\<^verbatim>\<open>WaitReadable\<close> after the channel of the read \<open>i\<close> was closed.\<close>

definition readableAgain :: "nat \<Rightarrow> asyncInput \<Rightarrow> asyncInput" where
  "readableAgain i s = (case ai_waiting s of
      Some (j, Some r) \<Rightarrow> (if j = i then s\<lparr>ai_waiting := None, ai_result := Some r\<rparr> else s)
    | _ \<Rightarrow> s)"

section \<open>The adapter as a queue\<close>

text \<open>The bytes that were read and not yet delivered.\<close>

definition buffered :: "asyncInput \<Rightarrow> bytes" where
  "buffered s = (case ai_result s of None \<Rightarrow> [] | Some (b, e) \<Rightarrow> b) @
     (case ai_waiting s of Some (i, Some (b, e)) \<Rightarrow> b | _ \<Rightarrow> [])"

definition inputOk :: "asyncInput \<Rightarrow> bool" where
  "inputOk s \<longleftrightarrow> (ai_waiting s \<noteq> None \<longrightarrow> ai_result s = None) \<and>
     (ai_closed s \<longrightarrow> ai_result s = None \<and> ai_waiting s = None) \<and> length (buffered s) \<le> readBuffer"

lemma inputOk_simps:
  "inputOk (newInput b)" "inputOk s \<Longrightarrow> inputOk (start s)" "inputOk s \<Longrightarrow> inputOk (readDone r s)"
  "inputOk s \<Longrightarrow> inputOk (collect s)" "inputOk s \<Longrightarrow> inputOk (readableAgain i s)"
  "inputOk s \<Longrightarrow> inputOk (snd (pendingReadError s))" "inputOk s \<Longrightarrow> inputOk (snd (waitReadable s))"
  by (auto simp: inputOk_def newInput_def start_def readDone_def collect_def readableAgain_def pendingReadError_def
      waitReadable_def buffered_def Let_def split: option.splits)

text \<open>What an operation adds to the bytes that were read.\<close>

lemma buffered_simps:
  "buffered (newInput b) = []" "buffered (start s) = buffered s"
  "inputOk s \<Longrightarrow> buffered (collect s) = buffered s" "inputOk s \<Longrightarrow> buffered (readableAgain i s) = buffered s"
  "inputOk s \<Longrightarrow> buffered (snd (pendingReadError s)) = buffered s" "inputOk s \<Longrightarrow> buffered (snd (waitReadable s)) = buffered s"
  by (auto simp: inputOk_def newInput_def start_def collect_def readableAgain_def pendingReadError_def
      waitReadable_def buffered_def Let_def split: option.splits)

definition arriving :: "readResult \<Rightarrow> asyncInput \<Rightarrow> bytes" where
  "arriving r s = (case ai_waiting s of Some (i, None) \<Rightarrow> take readBuffer (fst r) | _ \<Rightarrow> [])"

lemma buffered_readDone: "inputOk s \<Longrightarrow> buffered (readDone r s) = buffered s @ arriving r s"
  by (auto simp: inputOk_def readDone_def buffered_def arriving_def split: option.splits)

lemma takeResult_shape:
  assumes "takeResult len b err s = ((out, e), t)"
  shows "out = take len b \<and> (t = s\<lparr>ai_result := Some (drop len b, err)\<rparr> \<or>
    drop len b = [] \<and> t \<in> {s\<lparr>ai_result := None\<rparr>, s\<lparr>ai_result := None, ai_closed := True\<rparr>})"
proof (cases "len < length b")
  case True
  with assms show ?thesis by (auto simp: takeResult_def Let_def)
next
  case False
  then have min: "min len (length b) = length b" by simp
  show ?thesis
    using assms False unfolding takeResult_def Let_def min
    by (cases err; cases "b = []") (auto split: if_splits)
qed

lemma takeResult_queue:
  assumes "ai_result s = Some (b, err)" and "inputOk s" and "takeResult len b err s = ((out, e), t)"
  shows "buffered s = out @ buffered t \<and> inputOk t"
proof -
  have w: "ai_waiting s = None" "\<not> ai_closed s" "length b \<le> readBuffer"
    using assms(1,2) by (cases "ai_waiting s"; simp add: inputOk_def buffered_def)+
  from takeResult_shape [OF assms(3)] w assms(1) show ?thesis by (auto simp: buffered_def inputOk_def)
qed

text \<open>The bytes that arrive during a call of \<open>tryRead\<close>.\<close>

definition arrivingIn :: "readResult option \<Rightarrow> nat \<Rightarrow> asyncInput \<Rightarrow> bytes" where
  "arrivingIn early len s = (case early of
      None \<Rightarrow> []
    | Some r \<Rightarrow> (if len = 0 \<or> ai_result (collect s) \<noteq> None \<or> ai_closed s then [] else arriving r (start (collect s))))"

lemma collect_closed [simp]: "ai_closed (collect s) = ai_closed s"
  by (auto simp: collect_def split: option.splits)

lemma tryRead_queue:
  assumes "inputOk s" and "tryRead early len s = ((out, e), t)"
  shows "buffered s @ arrivingIn early len s = out @ buffered t \<and> inputOk t"
proof -
  let ?c = "collect s"
  have c: "inputOk ?c" "buffered ?c = buffered s" using assms(1) by (simp_all add: inputOk_simps buffered_simps)
  consider (zero) "len = 0" | (closed) "len \<noteq> 0" "ai_result ?c = None" "ai_closed ?c"
    | (avail) b err where "len \<noteq> 0" "ai_result ?c = Some (b, err)"
    | (read) "len \<noteq> 0" "ai_result ?c = None" "\<not> ai_closed ?c"
    by (cases "ai_result ?c") auto
  then show ?thesis
  proof cases
    case zero
    show ?thesis
    proof (cases "\<exists>e. ai_result ?c = Some ([], Some e) \<and> errorsIs e EOF")
      case True
      then obtain e where e: "ai_result ?c = Some ([], Some e)" "errorsIs e EOF" by blast
      then have "ai_waiting ?c = None" using c(1) by (cases "ai_waiting ?c") (simp_all add: inputOk_def)
      with e zero assms(2) c(2) show ?thesis
        by (auto simp: tryRead_def Let_def arrivingIn_def inputOk_def buffered_def split: option.splits)
    next
      case False
      then have "t = ?c" "out = []"
        using zero assms(2) by (auto simp: tryRead_def Let_def split: option.splits if_splits)
      with zero c show ?thesis by (simp add: arrivingIn_def split: option.split)
    qed
  next
    case closed
    with assms(2) c show ?thesis by (auto simp: tryRead_def Let_def arrivingIn_def split: option.splits)
  next
    case (avail b err)
    with assms(2) have "takeResult len b err ?c = ((out, e), t)" by (simp add: tryRead_def Let_def)
    from takeResult_queue [OF avail(2) c(1) this] c(2) avail show ?thesis
      by (simp add: arrivingIn_def split: option.split)
  next
    case read
    define u where "u = collect (case early of None \<Rightarrow> start ?c | Some r \<Rightarrow> readDone r (start ?c))"
    have u: "inputOk u" "buffered u = buffered s @ arrivingIn early len s"
      using c read by (auto simp: u_def inputOk_simps buffered_simps buffered_readDone arrivingIn_def split: option.split)
    show ?thesis
    proof (cases "ai_result u")
      case None
      with assms(2) read u show ?thesis by (auto simp: tryRead_def Let_def u_def [symmetric])
    next
      case (Some x)
      obtain b err where x: "ai_result u = Some (b, err)" using Some by (cases x) simp
      with assms(2) read have "takeResult len b err u = ((out, e), t)" by (simp add: tryRead_def Let_def u_def [symmetric])
      from takeResult_queue [OF x u(1) this] u(2) show ?thesis by simp
    qed
  qed
qed

section \<open>Runs\<close>

text \<open>The adapter with the bytes read from the reader and the bytes delivered to the guest so far.\<close>

record inputRun =
  ir_state :: asyncInput
  ir_read :: bytes
  ir_delivered :: bytes

inductive istep :: "inputRun \<Rightarrow> inputRun \<Rightarrow> bool" where
  ReadDone: "istep x (x\<lparr>ir_state := readDone r (ir_state x), ir_read := ir_read x @ arriving r (ir_state x)\<rparr>)"
| TryRead: "tryRead early len (ir_state x) = ((out, e), t) \<Longrightarrow>
    istep x (x\<lparr>ir_state := t, ir_read := ir_read x @ arrivingIn early len (ir_state x), ir_delivered := ir_delivered x @ out\<rparr>)"
| Probe: "istep x (x\<lparr>ir_state := snd (pendingReadError (ir_state x))\<rparr>)"
| Wait: "istep x (x\<lparr>ir_state := snd (waitReadable (ir_state x))\<rparr>)"
| Wake: "istep x (x\<lparr>ir_state := readableAgain i (ir_state x)\<rparr>)"

inductive_cases istepE: "istep x y"

definition freshInput :: "bool \<Rightarrow> inputRun" where
  "freshInput isNil = \<lparr>ir_state = newInput isNil, ir_read = [], ir_delivered = []\<rparr>"

definition inputInv :: "inputRun \<Rightarrow> bool" where
  "inputInv x \<longleftrightarrow> inputOk (ir_state x) \<and> ir_read x = ir_delivered x @ buffered (ir_state x)"

lemma inputInv_step: "inputInv x \<Longrightarrow> istep x y \<Longrightarrow> inputInv y"
  by (erule istepE) (auto simp: inputInv_def inputOk_simps buffered_simps buffered_readDone dest: tryRead_queue)

lemma inputInv_fresh: "inputInv (freshInput b)"
  by (simp add: inputInv_def freshInput_def inputOk_simps buffered_simps)

interpretation input: invariant_system "\<lambda>x. \<exists>b. x = freshInput b" istep inputInv
  by unfold_locales (auto intro: inputInv_fresh inputInv_step)

section \<open>Properties\<close>

text \<open>C13: the adapter is a queue. Whatever the interleaving of the reading goroutine with reads, probes and waits, the
  bytes delivered to the guest followed by the buffered ones are exactly the bytes read, in order; the
  buffer never exceeds one read of 64 KiB, and nothing is buffered once the stream reports its end.\<close>

theorem asyncInput_fifo:
  assumes "istep\<^sup>*\<^sup>* (freshInput isNil) x"
  shows "ir_read x = ir_delivered x @ buffered (ir_state x) \<and> length (buffered (ir_state x)) \<le> 65536 \<and>
    (ai_closed (ir_state x) \<longrightarrow> ir_delivered x = ir_read x)"
proof -
  have "inputInv x" using input.inv_run [OF _ assms] by blast
  then show ?thesis by (auto simp: inputInv_def inputOk_def buffered_def readBuffer_def)
qed

theorem asyncInput_fifo_witness:
  "\<exists>x. istep\<^sup>*\<^sup>* (freshInput False) x \<and> ir_read x = [1, 2, 3] \<and> ir_delivered x = [1, 2] \<and> buffered (ir_state x) = [3]"
proof -
  let ?x = "freshInput False"
  let ?r = "([1, 2, 3], Some EOF) :: readResult"
  let ?y = "?x\<lparr>ir_state := snd (tryRead (Some ?r) 2 (ir_state ?x)),
    ir_read := ir_read ?x @ arrivingIn (Some ?r) 2 (ir_state ?x), ir_delivered := ir_delivered ?x @ [1, 2]\<rparr>"
  note defs = freshInput_def newInput_def tryRead_def collect_def start_def readDone_def takeResult_def arrivingIn_def
    arriving_def Let_def readBuffer_def
  have "tryRead (Some ?r) 2 (ir_state ?x) = (([1, 2], None), snd (tryRead (Some ?r) 2 (ir_state ?x)))" by (simp add: defs)
  then have run: "istep\<^sup>*\<^sup>* ?x ?y" by (intro r_into_rtranclp istep.TryRead)
  have y: "ir_read ?y = [1, 2, 3]" "ir_delivered ?y = [1, 2]" by (simp_all add: defs)
  have "buffered (ir_state ?y) = [3]" using asyncInput_fifo [OF run] unfolding y by simp
  with run y show ?thesis by (intro exI conjI)
qed

lemma closed_reads: "inputOk s \<Longrightarrow> ai_closed s \<Longrightarrow> tryRead early len s = (([], Some EOF), s)"
  by (auto simp: tryRead_def collect_def inputOk_def Let_def)

text \<open>the end of a stream is final and errors come after the bytes read with them. A closed adapter answers every
  read with \<^verbatim>\<open>EOF\<close> and never reads again; bytes that arrive together with an error are delivered without
  it, and once they are gone a read reports that error (and \<^verbatim>\<open>EOF\<close> ever after).\<close>

theorem tryRead_errors:
  assumes "inputOk s" and "ai_result s = Some (b, Some err)" and "0 < len"
  shows "if b = [] then tryRead early len s = (([], Some err), s\<lparr>ai_result := None, ai_closed := True\<rparr>) \<and>
       tryRead early' len' (s\<lparr>ai_result := None, ai_closed := True\<rparr>) = (([], Some EOF), s\<lparr>ai_result := None, ai_closed := True\<rparr>)
     else \<exists>t. tryRead early len s = ((take len b, None), t) \<and>
       (len < length b \<longrightarrow> ai_result t = Some (drop len b, Some err)) \<and>
       (length b \<le> len \<longrightarrow> (if errorsIs err EOF then ai_closed t else ai_result t = Some ([], Some err)))"
proof -
  have "ai_waiting s = None" using assms(1,2) by (cases "ai_waiting s") (simp_all add: inputOk_def)
  then have c: "collect s = s" by (simp add: collect_def)
  have "inputOk (s\<lparr>ai_result := None, ai_closed := True\<rparr>)" using \<open>ai_waiting s = None\<close> by (simp add: inputOk_def buffered_def)
  then show ?thesis
    using assms(2,3) closed_reads [of "s\<lparr>ai_result := None, ai_closed := True\<rparr>"]
    by (auto simp: tryRead_def takeResult_def c Let_def min_def split: if_splits)
qed


theorem tryRead_errors_witness:
  "tryRead None 4 \<lparr>ai_result = Some ([], Some ErrClosed), ai_waiting = None, ai_closed = False, ai_next = 1\<rparr> =
     (([], Some ErrClosed), \<lparr>ai_result = None, ai_waiting = None, ai_closed = True, ai_next = 1\<rparr>)"
  using tryRead_errors [of "\<lparr>ai_result = Some ([], Some ErrClosed), ai_waiting = None, ai_closed = False, ai_next = 1\<rparr>" "[]" ErrClosed 4 None]
  by (simp add: inputOk_def buffered_def)

text \<open>waiting makes progress. When \<^verbatim>\<open>WaitReadable\<close> blocks, it does so on a read that is in flight; once that read
  is done, the waiter publishes its result and the next read of the guest does not block.\<close>

theorem readable_after_wait:
  assumes "inputOk s" and "waitReadable s = (Some i, t)" and "0 < len" and "snd r \<noteq> Some ErrWouldBlock"
  shows "ai_waiting t = Some (i, None) \<and> snd (fst (tryRead early len (readableAgain i (readDone r t)))) \<noteq> Some ErrWouldBlock"
proof -
  have t: "ai_waiting t = Some (i, None)" "ai_result t = None"
    using assms(1,2) by (cases "ai_result s"; auto simp: waitReadable_def start_def collect_def inputOk_def Let_def split: option.splits if_splits)+
  obtain b err where r: "r = (b, err)" by (cases r)
  let ?b = "take readBuffer b"
  have u: "readableAgain i (readDone r t) = t\<lparr>ai_waiting := None, ai_result := Some (?b, err)\<rparr>"
    using t by (simp add: readDone_def readableAgain_def r)
  let ?u = "t\<lparr>ai_waiting := None, ai_result := Some (?b, err)\<rparr>"
  have "tryRead early len ?u = takeResult len ?b err ?u"
    using assms(3) by (simp add: tryRead_def collect_def Let_def)
  moreover have "snd (fst (takeResult len ?b err ?u)) \<in> {None, err}" by (simp add: takeResult_def Let_def)
  ultimately show ?thesis using t(1) assms(4) r unfolding u by auto
qed

theorem readable_after_wait_witness:
  "waitReadable (newInput False) = (Some 0, start (newInput False)) \<and>
   snd (fst (tryRead None 1 (readableAgain 0 (readDone ([9], None) (start (newInput False)))))) \<noteq> Some ErrWouldBlock"
proof -
  have w: "waitReadable (newInput False) = (Some 0, start (newInput False))"
    by (simp add: waitReadable_def newInput_def start_def collect_def)
  from readable_after_wait [OF inputOk_simps(1) this, of 1 "([9], None)" None] w show ?thesis by simp
qed

end
