(* ===== verification/Stdin_Probe.thy ===== *)
theory Stdin_Probe
  imports Stream_Props Async_Input
begin

text \<open>
  Standard input of a Preview 2 instance: the probe that \<^verbatim>\<open>inputReady\<close> keeps in the host state, in front of any
  input stream that loses nothing. The contract of the stream is the locale \<open>input_source\<close>; the adapter of
  \<open>Async_Input\<close> provides it, with its reading goroutine interleaved arbitrarily.
\<close>

section \<open>Operations on standard input\<close>

datatype stdinOp = ReadIn u64 | BlockingReadIn u64 | ProbeIn | WaitIn

text \<open>The bytes that the guest receives with a result.\<close>

definition deliveredBy :: "hostResult \<Rightarrow> bytes" where
  "deliveredBy r = (case r of Inr [VResult False (VBytes b)] \<Rightarrow> b | _ \<Rightarrow> [])"

definition stdinDo :: "'w p2host \<Rightarrow> stdinOp \<Rightarrow> ('w p2, bytes) state" where
  "stdinDo H op = (case op of
      ReadIn n \<Rightarrow> do { r \<leftarrow> readH H [VU32 stdinRep, VU64 n]; ret (deliveredBy r) }
    | BlockingReadIn n \<Rightarrow> do { r \<leftarrow> blockingRead H [VU32 stdinRep, VU64 n]; ret (deliveredBy r) }
    | ProbeIn \<Rightarrow> do { r \<leftarrow> inputReady H; ret [] }
    | WaitIn \<Rightarrow> do { r \<leftarrow> waitStdin H; ret [] })"

fun stdinRun :: "'w p2host \<Rightarrow> stdinOp list \<Rightarrow> ('w p2, bytes) state" where
  "stdinRun H [] = ret []"
| "stdinRun H (op # ops) = do { b \<leftarrow> stdinDo H op; bs \<leftarrow> stdinRun H ops; ret (b @ bs) }"

lemma deliveredBy_simps [simp]:
  "deliveredBy (okResult (VBytes b)) = b" "deliveredBy (Inl e) = []" "deliveredBy (errResult v) = []"
  by (simp_all add: deliveredBy_def)

lemma deliveredBy_failure: "isFailure r \<Longrightarrow> deliveredBy r = []"
  by (auto simp: isFailure_def split: sum.splits)

definition endOfInput :: "hostState \<Rightarrow> bool" where
  "endOfInput h \<longleftrightarrow> \<not> h_stdinBuffered h \<and> (case h_stdinReadError h of None \<Rightarrow> False | Some e \<Rightarrow> errorsIs e EOF)"

lemma run_readH_stdin:
  "run_state (readH H [VU32 stdinRep, VU64 n]) s =
     (if endOfInput (p_host s) then (closedResult, s)
      else (case run_state (readStdinLocked H (unat (clamp (ioLimit (h_limits (p_host s))) n))) s of
        ((b, err), t) \<Rightarrow> (case err of
            None \<Rightarrow> (okResult (VBytes b), t)
          | Some e \<Rightarrow>
              if errorsIs e ErrWouldBlock then (okResult (VBytes []), t)
              else if b = [] then run_state (streamFailure H e) t
              else (okResult (VBytes b), t))))"
  by (auto simp: readH_def endOfInput_def Let_def clamp_def split: prod.split option.split)

section \<open>The contract of an input stream\<close>

text \<open>\<open>total\<close> are the bytes that the underlying reader has produced so far, \<open>held\<close> those of them that the stream
  has not handed over. Any call may be preceded by the arrival of more bytes. A read that would block
  hands over nothing.\<close>

locale input_source =
  fixes H :: "'w p2host" and ok :: "'w \<Rightarrow> bool" and total held :: "'w \<Rightarrow> bytes"
  assumes try_read: "ok x \<Longrightarrow> H (TryR n) x = (r, y) \<Longrightarrow>
      ok y \<and> (\<exists>a. total y = total x @ a \<and> held x @ a = take n (fst (asRead r)) @ held y)"
    and would_block: "ok x \<Longrightarrow> H (TryR n) x = (r, y) \<Longrightarrow> snd (asRead r) = Some e \<Longrightarrow> errorsIs e ErrWouldBlock \<Longrightarrow> fst (asRead r) = []"
    and other_call: "ok x \<Longrightarrow> \<forall>n. c \<noteq> TryR n \<Longrightarrow> H c x = (r, y) \<Longrightarrow> ok y \<and> (\<exists>a. total y = total x @ a \<and> held y = held x @ a)"
begin

text \<open>The bytes delivered to the guest so far, with the probed byte and the bytes the stream holds, are
  the bytes the reader produced.\<close>

definition balanced :: "bytes \<Rightarrow> 'w p2 \<Rightarrow> bool" where
  "balanced delivered s \<longleftrightarrow> ok (p_world s) \<and>
     total (p_world s) = delivered @ (if h_stdinBuffered (p_host s) then [h_stdinProbe (p_host s)] else []) @ held (p_world s)"

lemma balanced_call:
  assumes "\<forall>n. c \<noteq> TryR n"
  shows "triple (balanced dl) (p2Call H c) (\<lambda>_. balanced dl) (\<lambda>_. True)"
proof -
  have "ok y \<and> (\<exists>a. total y = total x @ a \<and> held y = held x @ a)" if "ok x" "H c x = (r, y)" for x r y
    using other_call [OF that(1) assms that(2)] .
  then show ?thesis by (fastforce simp: triple_def wp_simps balanced_def split: prod.splits)
qed

text \<open>A read of the stream with an empty probe.\<close>

lemma balanced_tryRead:
  assumes "balanced dl s" and "\<not> h_stdinBuffered (p_host s)" and "run_state (stdinTryRead H n) s = ((b, err), t)"
  shows "balanced (dl @ b) t \<and> p_host t = p_host s \<and> (\<forall>e. err = Some e \<and> errorsIs e ErrWouldBlock \<longrightarrow> b = [])"
proof -
  obtain r y where r: "H (TryR n) (p_world s) = (r, y)" by fastforce
  have t: "t = s\<lparr>p_world := y, p_log := p_log s @ [TryR n]\<rparr>" "b = take n (fst (asRead r))" "err = snd (asRead r)"
    using assms(3) r by (auto simp: stdinTryRead_def split: prod.splits)
  have x: "ok (p_world s)" "total (p_world s) = dl @ held (p_world s)" using assms(1,2) by (simp_all add: balanced_def)
  from try_read [OF x(1) r] obtain a where "ok y" "total y = total (p_world s) @ a" "held (p_world s) @ a = b @ held y"
    using t(2) by blast
  moreover have "b = []" if "err = Some e" "errorsIs e ErrWouldBlock" for e
    using would_block [OF x(1) r] that t by simp
  ultimately show ?thesis using x t(1) assms(2) by (auto simp: balanced_def)
qed

lemma readStdinLocked_balanced:
  assumes "balanced dl s" and "run_state (readStdinLocked H n) s = ((b, err), t)"
  shows "balanced (dl @ b) t \<and> (\<forall>e. err = Some e \<and> errorsIs e ErrWouldBlock \<longrightarrow> b = [])"
proof (cases "h_stdinBuffered (p_host s)")
  case True
  with assms show ?thesis by (cases n) (auto simp: readStdinLocked_def balanced_def)
next
  case nb: False
  show ?thesis
  proof (cases "h_stdinReadError (p_host s)")
    case (Some e)
    with nb assms show ?thesis by (auto simp: readStdinLocked_def balanced_def split: if_splits)
  next
    case None
    obtain b' err' t' where r: "run_state (stdinTryRead H n) s = ((b', err'), t')" by (metis surj_pair)
    note bal = balanced_tryRead [OF assms(1) nb r]
    have host: "balanced dl' (t'\<lparr>p_host := (p_host s)\<lparr>h_stdinReadError := x\<rparr>\<rparr>) = balanced dl' t'" for dl' x
      using bal by (simp add: balanced_def)
    from assms(2) have "b = b' \<and> err = err' \<and> (t = t' \<or> (\<exists>x. t = t'\<lparr>p_host := (p_host s)\<lparr>h_stdinReadError := x\<rparr>\<rparr>))"
      using nb None r bal by (auto simp: readStdinLocked_def split: option.splits if_splits)
    with bal host show ?thesis by auto
  qed
qed

lemma balanced_host [simp]:
  "h_stdinBuffered (f (p_host s)) = h_stdinBuffered (p_host s) \<Longrightarrow> h_stdinProbe (f (p_host s)) = h_stdinProbe (p_host s) \<Longrightarrow>
     balanced dl (s\<lparr>p_host := f (p_host s)\<rparr>) = balanced dl s"
  by (simp add: balanced_def)

lemma balanced_frame:
  "triple (balanced dl) (ret x) (\<lambda>_. balanced dl) (\<lambda>_. True)"
  "triple (balanced dl) (gets g) (\<lambda>_. balanced dl) (\<lambda>_. True)"
  "triple (balanced dl) outOfFuel (\<lambda>_. balanced dl) (\<lambda>_. True)"
  "(\<And>h. h_stdinBuffered (f h) = h_stdinBuffered h \<and> h_stdinProbe (f h) = h_stdinProbe h) \<Longrightarrow>
     triple (balanced dl) (onHost f) (\<lambda>_. balanced dl) (\<lambda>_. True)"
  "triple (balanced dl) (osDo H WaitR) (\<lambda>_. balanced dl) (\<lambda>_. True)"
  "triple (balanced dl) (ctxErr H) (\<lambda>_. balanced dl) (\<lambda>_. True)"
proof -
  show "triple (balanced dl) (osDo H WaitR) (\<lambda>_. balanced dl) (\<lambda>_. True)"
    unfolding osDo_def by (rule triple_bind [OF balanced_call]) (auto simp: triple_def wp_simps)
  show "triple (balanced dl) (ctxErr H) (\<lambda>_. balanced dl) (\<lambda>_. True)"
    unfolding ctxErr_def by (rule triple_bind [OF balanced_call]) (auto simp: triple_def wp_simps)
qed (auto simp: triple_def wp_simps outOfFuel_def balanced_def)

lemmas balanced_rules = balanced_frame triple_bind triple_if triple_let triple_case_option triple_case_sum triple_case_prod

lemma addError_balanced: "triple (balanced dl) (addError H e) (\<lambda>_. balanced dl) (\<lambda>_. True)"
  unfolding addError_def by (rule balanced_rules balanced_call | simp)+

lemma streamFailure_balanced: "triple (balanced dl) (streamFailure H e) (\<lambda>_. balanced dl) (\<lambda>_. True)"
  unfolding streamFailure_def by (rule balanced_rules addError_balanced | simp)+

lemma waitStdin_balanced: "triple (balanced dl) (waitStdin H) (\<lambda>_. balanced dl) (\<lambda>_. True)"
  unfolding waitStdin_def by (rule balanced_rules | simp)+

lemma waitStdinReadable_balanced: "triple (balanced dl) (waitStdinReadable H) (\<lambda>_. balanced dl) (\<lambda>_. True)"
  unfolding waitStdinReadable_def by (rule balanced_rules streamFailure_balanced | simp)+

lemma sleep_balanced: "triple (balanced dl) (waitTransientStreamRetry H d) (\<lambda>_. balanced dl) (\<lambda>_. True)"
  unfolding waitTransientStreamRetry_def by (rule balanced_rules balanced_call | simp)+

lemma probeStdin_balanced:
  assumes "balanced dl s" and "\<not> h_stdinBuffered (p_host s)"
  shows "balanced dl (snd (run_state (probeStdin H) s))"
proof -
  obtain b err t where r: "run_state (stdinTryRead H 1) s = ((b, err), t)" by (metis surj_pair)
  note bal = balanced_tryRead [OF assms r]
  have "length b \<le> 1" using r by (auto simp: stdinTryRead_def split: prod.splits)
  then have "b = [] \<or> b = [hd b]" by (cases b) auto
  then have "balanced dl (t\<lparr>p_host := (p_host t)\<lparr>h_stdinBuffered := (b \<noteq> []), h_stdinProbe := (if b \<noteq> [] then hd b else h_stdinProbe (p_host t))\<rparr>\<rparr>)"
    using bal assms(2) by (auto simp: balanced_def)
  moreover have "balanced dl (u\<lparr>p_host := (p_host u)\<lparr>h_stdinReadError := x\<rparr>\<rparr>) = balanced dl u" for u x by (simp add: balanced_def)
  ultimately show ?thesis
    by (cases err; cases "errorsIs (the err) ErrWouldBlock") (simp_all add: probeStdin_def r [simplified] balanced_def)
qed

lemma inputReady_balanced: "triple (balanced dl) (inputReady H) (\<lambda>_. balanced dl) (\<lambda>_. True)"
proof -
  have "balanced dl (snd (run_state (inputReady H) s))" if b: "balanced dl s" for s
  proof -
    let ?t = "s\<lparr>p_world := snd (H PendingR (p_world s)), p_log := p_log s @ [PendingR]\<rparr>"
    have "balanced dl ?t"
      using balanced_call [of PendingR dl] b by (auto simp: triple_def wp_run)
    then show ?thesis using b probeStdin_balanced [of dl ?t] by (simp add: inputReady_def)
  qed
  then show ?thesis by (simp add: triple_def wp_run)
qed

lemma streamFailure_delivers: "isFailure (fst (run_state (streamFailure H e) s))"
  by (simp add: run_streamFailure isFailure_def Let_def split: prod.split)

lemma streamFailure_balancedD:
  "balanced dl s \<Longrightarrow> run_state (streamFailure H e) s = (r, t) \<Longrightarrow> balanced (dl @ deliveredBy r) t"
  using streamFailure_delivers [of e s] tripleD [OF streamFailure_balanced] by (fastforce simp: deliveredBy_failure)

lemma readH_balanced:
  assumes "balanced dl s" and "run_state (readH H [VU32 stdinRep, VU64 n]) s = (r, t)"
  shows "balanced (dl @ deliveredBy r) t"
proof (cases "endOfInput (p_host s)")
  case True
  with assms show ?thesis by (auto simp: run_readH_stdin)
next
  case False
  obtain b err u where rd: "run_state (readStdinLocked H (unat (clamp (ioLimit (h_limits (p_host s))) n))) s = ((b, err), u)"
    by (metis surj_pair)
  note bal = readStdinLocked_balanced [OF assms(1) rd]
  have "balanced dl u \<Longrightarrow> run_state (streamFailure H e) u = (r, t) \<Longrightarrow> balanced (dl @ deliveredBy r) t" for e
    by (rule streamFailure_balancedD)
  then show ?thesis using assms(2) bal False by (auto simp: run_readH_stdin rd split: option.splits if_splits)
qed

lemma blockingReadLoop_balanced:
  "balanced dl s \<Longrightarrow> run_state (blockingReadLoop k H d [VU32 stdinRep, VU64 n]) s = (r, t) \<Longrightarrow> balanced (dl @ deliveredBy r) t"
proof (induction k arbitrary: s d)
  case 0
  then show ?case by (auto simp: outOfFuel_def balanced_def)
next
  case (Suc k)
  obtain w s1 where w: "run_state (waitStdinReadable H) s = (w, s1)" by fastforce
  have b1: "balanced dl s1" using tripleD [OF waitStdinReadable_balanced Suc.prems(1) w] by simp
  have wf: "w = None \<or> (\<exists>x. w = Some x \<and> isFailure x)"
    using w streamFailure_delivers by (auto simp: waitStdinReadable_def isFailure_def osDo_def ctxErr_def split: option.splits if_splits prod.splits) (metis fst_conv)+
  obtain x s2 where x: "run_state (readH H [VU32 stdinRep, VU64 n]) s1 = (x, s2)" by fastforce
  note b2 = readH_balanced [OF b1 x]
  obtain y s3 where y: "run_state (waitTransientStreamRetry H d) s2 = (y, s3)" by fastforce
  have b3: "balanced dl' s2 \<Longrightarrow> balanced dl' s3" for dl' using tripleD [OF sleep_balanced _ y] by simp
  show ?case
  proof (cases w)
    case (Some z)
    with wf w b1 Suc.prems(2) show ?thesis by (auto simp: deliveredBy_failure)
  next
    case None
    show ?thesis
    proof (cases "\<exists>p. x = Inr [VResult False p] \<and> n \<noteq> 0 \<and> bytesValue p = Inr []")
      case True
      then obtain p where p: "x = Inr [VResult False p]" "n \<noteq> 0" "bytesValue p = Inr []" by blast
      then have "deliveredBy x = []" by (cases p) (simp_all add: bytesValue_def deliveredBy_def)
      with b2 b3 have s3: "balanced dl s3" by simp
      with p None w x y Suc.prems(2) Suc.IH [OF s3] show ?thesis by (auto split: sum.splits)
    next
      case False
      have "(r, t) = (x, s2) \<or> (\<exists>e. (r, t) = (Inl e, s2) \<and> deliveredBy x = [])"
        using False None w x Suc.prems(2)
        by (auto simp: bytesValue_def deliveredBy_def split: sum.splits list.splits val.splits bool.splits if_splits option.splits)
      then show ?thesis using b2 by auto
    qed
  qed
qed

lemma stdinDo_balanced: "balanced dl s \<Longrightarrow> run_state (stdinDo H op) s = (b, t) \<Longrightarrow> balanced (dl @ b) t"
proof (cases op)
  case (BlockingReadIn n)
  then show "balanced dl s \<Longrightarrow> run_state (stdinDo H op) s = (b, t) \<Longrightarrow> balanced (dl @ b) t"
    by (auto simp: stdinDo_def blockingRead_def split: prod.splits intro: blockingReadLoop_balanced)
qed (auto simp: stdinDo_def split: prod.splits intro: readH_balanced
    dest: tripleD [OF inputReady_balanced] tripleD [OF waitStdin_balanced])

lemma stdinRun_balanced: "balanced dl s \<Longrightarrow> run_state (stdinRun H ops) s = (bs, t) \<Longrightarrow> balanced (dl @ bs) t"
proof (induction ops arbitrary: dl s bs)
  case (Cons op ops)
  then show ?case using stdinDo_balanced by (fastforce split: prod.splits)
qed simp

end

section \<open>The adapter behind standard input\<close>

text \<open>The world of an instance whose standard input is an \<open>asyncInput\<close>: the adapter, all bytes its reader produced
  so far, and a schedule that says at which calls the read in flight completes and with what.\<close>

type_synonym inputWorld = "asyncInput \<times> bytes \<times> readResult option list"

fun completeRead :: "inputWorld \<Rightarrow> inputWorld" where
  "completeRead (ai, came, Some r # sched) = (readDone r ai, came @ arriving r ai, sched)"
| "completeRead (ai, came, None # sched) = (ai, came, sched)"
| "completeRead (ai, came, []) = (ai, came, [])"

definition stdinHost :: "inputWorld p2host" where
  "stdinHost c x = (case completeRead x of (ai, came, sched) \<Rightarrow>
     (case c of
        TryR n \<Rightarrow> (case tryRead None n ai of (r, ai') \<Rightarrow> (RRead (fst r) (snd r), (ai', came, sched)))
      | PendingR \<Rightarrow> (case pendingReadError ai of (p, ai') \<Rightarrow> (RYes p, (ai', came, sched)))
      | WaitR \<Rightarrow> (case waitReadable ai of (i, ai') \<Rightarrow>
          (case completeRead (ai', came, sched) of (ai2, came2, sched2) \<Rightarrow>
             (RErrOpt None, (case i of None \<Rightarrow> ai2 | Some i \<Rightarrow> readableAgain i ai2, came2, sched2))))
      | _ \<Rightarrow> (RErrOpt None, (ai, came, sched))))"

definition adapterReady :: "inputWorld \<Rightarrow> bool" where
  "adapterReady x = inputOk (fst x)"

definition heldBytes :: "inputWorld \<Rightarrow> bytes" where
  "heldBytes x = buffered (fst x)"

lemma completeRead_step:
  assumes "inputOk ai" and "completeRead (ai, came, sched) = (ai', came', sched')"
  shows "inputOk ai' \<and> (\<exists>a. came' = came @ a \<and> buffered ai' = buffered ai @ a)"
  using assms by (cases "(ai, came, sched)" rule: completeRead.cases) (auto simp: inputOk_simps buffered_readDone)

lemma tryRead_would_block:
  "tryRead None n ai = ((b, Some e), t) \<Longrightarrow> b = []"
  by (auto simp: tryRead_def takeResult_def Let_def split: option.splits if_splits prod.splits)

interpretation standardInput: input_source stdinHost adapterReady "\<lambda>x. fst (snd x)" heldBytes
proof
  fix x n r y assume x: "adapterReady x" and r: "stdinHost (TryR n) x = (r, y)"
  obtain ai came sched where c: "completeRead x = (ai, came, sched)" by (cases "completeRead x")
  obtain a where a: "inputOk ai" "came = fst (snd x) @ a" "buffered ai = heldBytes x @ a"
    using completeRead_step [of "fst x" "fst (snd x)" "snd (snd x)"] x c by (auto simp: adapterReady_def heldBytes_def)
  obtain b e ai' where t: "tryRead None n ai = ((b, e), ai')" by (metis surj_pair)
  have q: "buffered ai = b @ buffered ai'" "inputOk ai'" using tryRead_queue [OF a(1) t] by (simp_all add: arrivingIn_def)
  have "length b \<le> n" using t by (auto simp: tryRead_def takeResult_def Let_def split: option.splits if_splits prod.splits)
  then show "adapterReady y \<and> (\<exists>a. fst (snd y) = fst (snd x) @ a \<and> heldBytes x @ a = take n (fst (asRead r)) @ heldBytes y)"
    using r c t a q by (auto simp: stdinHost_def adapterReady_def heldBytes_def)
  show "fst (asRead r) = []" if "snd (asRead r) = Some err" for err
    using r c t that tryRead_would_block by (fastforce simp: stdinHost_def)
next
  fix x c r y assume x: "adapterReady x" and n: "\<forall>n. c \<noteq> TryR n" and r: "stdinHost c x = (r, y)"
  obtain ai came sched where comp: "completeRead x = (ai, came, sched)" by (cases "completeRead x")
  obtain a where a: "inputOk ai" "came = fst (snd x) @ a" "buffered ai = heldBytes x @ a"
    using completeRead_step [of "fst x" "fst (snd x)" "snd (snd x)"] x comp by (auto simp: adapterReady_def heldBytes_def)
  obtain i ai1 where w: "waitReadable ai = (i, ai1)" by fastforce
  have 1: "inputOk ai1" "buffered ai1 = buffered ai" using a(1) w inputOk_simps(7) [of ai] buffered_simps(6) [of ai] by simp_all
  obtain ai2 came2 sched2 where c2: "completeRead (ai1, came, sched) = (ai2, came2, sched2)" by (metis surj_pair)
  obtain a2 where a2: "inputOk ai2" "came2 = came @ a2" "buffered ai2 = buffered ai1 @ a2"
    using completeRead_step [OF 1(1) c2] by blast
  consider (wait) "c = WaitR" | (pending) "c = PendingR" | (other) "y = (ai, came, sched)"
    using r n comp by (cases c) (auto simp: stdinHost_def)
  then show "adapterReady y \<and> (\<exists>a. fst (snd y) = fst (snd x) @ a \<and> heldBytes y = heldBytes x @ a)"
  proof cases
    case wait
    with r comp w c2 have "y = (case i of None \<Rightarrow> ai2 | Some i \<Rightarrow> readableAgain i ai2, came2, sched2)" by (simp add: stdinHost_def)
    then show ?thesis using a 1 a2 by (cases i) (simp_all add: adapterReady_def heldBytes_def inputOk_simps buffered_simps)
  next
    case pending
    with r comp have "y = (snd (pendingReadError ai), came, sched)" by (auto simp: stdinHost_def split: prod.splits)
    then show ?thesis using a by (simp add: adapterReady_def heldBytes_def inputOk_simps buffered_simps)
  next
    case other
    then show ?thesis using a by (simp add: adapterReady_def heldBytes_def)
  qed
qed

section \<open>Properties\<close>

text \<open>C12: polling standard input loses nothing. For any sequence of reads, blocking reads, readiness probes and waits on a
  fresh instance, with the reads of the adapter completing at arbitrary points, the bytes that the guest
  receives, the byte kept by the probe and the bytes held by the adapter are together exactly the bytes the
  reader produced, in order.\<close>

theorem stdin_conserved:
  assumes "p_host s = newHostState l" and "p_world s = (newInput isNil, [], sched)"
    and "run_state (stdinRun stdinHost ops) s = (bs, t)"
  shows "fst (snd (p_world t)) =
    bs @ (if h_stdinBuffered (p_host t) then [h_stdinProbe (p_host t)] else []) @ buffered (fst (p_world t))"
proof -
  have "standardInput.balanced [] s"
    using assms(1,2) by (simp add: standardInput.balanced_def newHostState_def adapterReady_def heldBytes_def inputOk_simps buffered_simps)
  from standardInput.stdinRun_balanced [OF this assms(3)] show ?thesis by (simp add: standardInput.balanced_def heldBytes_def)
qed

definition typedInput :: "inputWorld p2" where
  "typedInput = \<lparr>p_host = newHostState (normalized zeroLimits), p_fs = p_fs samplePlain,
     p_world = (newInput False, [], [None, None, Some ([1, 2, 3], None)]), p_log = [], p_live = {}, p_next = 0, p_fuel = 3, p_stuck = False\<rparr>"

theorem stdin_conserved_witness:
  "\<exists>bs t. run_state (stdinRun stdinHost [ProbeIn, ProbeIn, ReadIn 8, ReadIn 8]) typedInput = (bs, t) \<and>
     fst (snd (p_world t)) =
       bs @ (if h_stdinBuffered (p_host t) then [h_stdinProbe (p_host t)] else []) @ buffered (fst (p_world t))"
proof -
  obtain bs t where r: "run_state (stdinRun stdinHost [ProbeIn, ProbeIn, ReadIn 8, ReadIn 8]) typedInput = (bs, t)" by fastforce
  from stdin_conserved [OF _ _ r] r show ?thesis by (auto simp: typedInput_def)
qed

end
