(* ===== verification/P2_Clocks.thy ===== *)
theory P2_Clocks
  imports P2_Streams
begin

text \<open>
  The clocks, pollables and polling of \<^verbatim>\<open>p2/clocks.go\<close>, the command-line, randomness and error functions of
  \<^verbatim>\<open>p2/p2.go\<close> and the network handles of \<^verbatim>\<open>p2/sockets.go\<close>. A pollable is one of the four kinds that the code
  creates; its closures \<^verbatim>\<open>ready\<close> and \<^verbatim>\<open>wait\<close> are \<open>pollableReady\<close> and \<open>pollableWait\<close>. The goroutines of \<^verbatim>\<open>waitPollables\<close> wait
  one per pollable; which of them returns next is the choice of the outside (\<open>NextWorker\<close>), and the effect of that wait and its report to the loop are one step.
\<close>

section \<open>Clocks\<close>

definition monoNow :: "'w p2host \<Rightarrow> ('w p2, u64) state" where
  "monoNow H = do { r \<leftarrow> p2Call H MonoNow; ret (asNum r) }"

definition mono :: "'w p2host \<Rightarrow> val list \<Rightarrow> ('w p2, hostResult) state" where
  "mono H args = do { n \<leftarrow> monoNow H; ret (Inr [VU64 n]) }"

definition resolution :: "val list \<Rightarrow> ('w p2, hostResult) state" where
  "resolution args = ret (Inr [VU64 1])"

text \<open>\<^verbatim>\<open>uint64(n.Unix()), uint32(n.Nanosecond())\<close> of a time in nanoseconds since the epoch.\<close>

definition secondsOf :: "time \<Rightarrow> int" where "secondsOf t = t div 1000000000"
definition nanosOf :: "time \<Rightarrow> int" where "nanosOf t = t mod 1000000000"

definition wall :: "'w p2host \<Rightarrow> val list \<Rightarrow> ('w p2, hostResult) state" where
  "wall H args = do {
     r \<leftarrow> p2Call H Wall;
     ret (Inr [VList [VU64 (of_int (secondsOf (asTime r))), VU32 (of_int (nanosOf (asTime r)))]]) }"

definition wallRes :: "val list \<Rightarrow> ('w p2, hostResult) state" where
  "wallRes args = ret (Inr [VList [VU64 0, VU32 1]])"

section \<open>Pollables\<close>

definition addPollable :: "pollable \<Rightarrow> ('w p2, goerr + u32) state" where
  "addPollable v = do {
     h \<leftarrow> gets p_host;
     if of_nat (length (h_pollables h)) \<ge> MaxPollables (h_limits h) then ret (Inl (OtherError ''pollable quota exceeded''))
     else do {
       let rep = h_nextPollable h;
       onHost (\<lambda>h. h\<lparr>h_nextPollable := h_nextPollable h + 1, h_pollables := AList.update rep v (h_pollables h)\<rparr>);
       ret (Inr rep) } }"

definition newPollable :: "pollable \<Rightarrow> ('w p2, hostResult) state" where
  "newPollable v = do { r \<leftarrow> addPollable v; ret (case r of Inl e \<Rightarrow> Inl e | Inr rep \<Rightarrow> Inr [VU32 rep]) }"

definition dropPollable :: "u32 \<Rightarrow> ('w p2, unit) state" where
  "dropPollable rep = onHost (\<lambda>h. h\<lparr>h_pollables := AList.delete rep (h_pollables h)\<rparr>)"

definition timerTarget :: "u64 \<Rightarrow> u64 \<Rightarrow> u64" where
  "timerTarget now n = (if 0xFFFFFFFFFFFFFFFF - now < n then 0xFFFFFFFFFFFFFFFF else now + n)"

definition subscribeTimer :: "'w p2host \<Rightarrow> bool \<Rightarrow> val list \<Rightarrow> ('w p2, hostResult) state" where
  "subscribeTimer H instant args = (case args of
      [VU64 n] \<Rightarrow>
        if instant then newPollable (TimerPoll n)
        else do { now \<leftarrow> monoNow H; newPollable (TimerPoll (timerTarget now n)) }
    | _ \<Rightarrow> ret (Inl (OtherError ''monotonic-clock.subscribe: expected when'')))"

text \<open>\<^verbatim>\<open>fs.input\<close>: the readable file stream of a number.\<close>

definition isFileInput :: "filesystemState \<Rightarrow> u32 \<Rightarrow> bool" where
  "isFileInput fs rep = (case map_of (f_streams fs) rep of None \<Rightarrow> False | Some st \<Rightarrow> st_read st)"

definition subscribeInput :: "val list \<Rightarrow> ('w p2, hostResult) state" where
  "subscribeInput args = (case repArg args of
      Inl e \<Rightarrow> ret (Inl e)
    | Inr rep \<Rightarrow>
        if rep = stdinRep then newPollable StdinPoll
        else do {
          fs \<leftarrow> gets p_fs;
          if isFileInput fs rep then newPollable FilePoll
          else ret (Inl (OtherError ''input-stream.subscribe: unknown rep'')) })"

definition subscribeOutput :: "val list \<Rightarrow> ('w p2, hostResult) state" where
  "subscribeOutput args = (case repArg args of
      Inl e \<Rightarrow> ret (Inl e)
    | Inr rep \<Rightarrow> do {
        w \<leftarrow> (if rep = stdoutRep then ret (Some StdOut) else if rep = stderrRep then ret (Some StdErr) else fileWriter rep);
        case w of
          None \<Rightarrow> ret (Inl (OtherError ''output-stream.subscribe: unknown rep''))
        | Some w \<Rightarrow> newPollable (OutputPoll rep w) })"

section \<open>Readiness and waiting\<close>

definition outPollReady :: "'w p2host \<Rightarrow> out \<Rightarrow> ('w p2, bool) state" where
  "outPollReady H d =
     (if isWrapped d then viaSafe d (pollReady (rawStream H d))
      else do { (n, err) \<leftarrow> outCheckWrite H d; ret (err \<noteq> None \<or> n > 0) })"

text \<open>\<^verbatim>\<open>pollWait\<close> of a wrapped stream; the context is asked after the wait.\<close>

definition outPollWait :: "'w p2host \<Rightarrow> out \<Rightarrow> ('w p2, goerr option) state" where
  "outPollWait H d =
     (if isWrapped d then do {
        h \<leftarrow> gets p_host;
        if snd (wrapperOf d h) \<noteq> None \<or> fst (wrapperOf d h) \<noteq> 0 then ret None
        else do {
          err \<leftarrow> osDo H (WaitW d);
          case err of
            None \<Rightarrow> ret None
          | Some e \<Rightarrow> do {
              canceled \<leftarrow> ctxErr H;
              if canceled = None then do {
                onHost (\<lambda>h. if snd (wrapperOf d h) = None then setWrapper d (fst (wrapperOf d h), Some e) h else h);
                ret None }
              else ret (Some e) } } }
      else outWaitWritable H d)"

fun waitMonotonic :: "nat \<Rightarrow> 'w p2host \<Rightarrow> u64 \<Rightarrow> ('w p2, goerr option) state" where
  "waitMonotonic 0 H target = do { outOfFuel; ret (Some badReply) }"
| "waitMonotonic (Suc k) H target = do {
     n \<leftarrow> monoNow H;
     if n \<ge> target then ret None
     else do {
       let d = target - n;
       let d = (if d > 0x7FFFFFFFFFFFFFFF then 0x7FFFFFFFFFFFFFFF else d);
       err \<leftarrow> osDo H (Sleep d);
       case err of Some e \<Rightarrow> ret (Some e) | None \<Rightarrow> waitMonotonic k H target } }"

definition pollableReady :: "'w p2host \<Rightarrow> pollable \<Rightarrow> ('w p2, bool) state" where
  "pollableReady H p = (case p of
      TimerPoll target \<Rightarrow> do { n \<leftarrow> monoNow H; ret (n \<ge> target) }
    | StdinPoll \<Rightarrow> inputReady H
    | FilePoll \<Rightarrow> ret True
    | OutputPoll rep d \<Rightarrow> do {
        failed \<leftarrow> outputClosed rep;
        if failed then ret True else outPollReady H d })"

definition pollableWait :: "'w p2host \<Rightarrow> pollable \<Rightarrow> ('w p2, goerr option) state" where
  "pollableWait H p = (case p of
      TimerPoll target \<Rightarrow> do { k \<leftarrow> gets p_fuel; waitMonotonic k H target }
    | StdinPoll \<Rightarrow> waitStdin H
    | FilePoll \<Rightarrow> ret None
    | OutputPoll rep d \<Rightarrow> do {
        failed \<leftarrow> outputClosed rep;
        if failed then ret None else outPollWait H d })"

fun readyIndexes :: "'w p2host \<Rightarrow> nat \<Rightarrow> pollable list \<Rightarrow> ('w p2, u32 list) state" where
  "readyIndexes H i [] = ret []"
| "readyIndexes H i (p # ps) = do {
     r \<leftarrow> pollableReady H p;
     rest \<leftarrow> readyIndexes H (Suc i) ps;
     ret (if r then of_nat i # rest else rest) }"

definition waitPollRetry :: "'w p2host \<Rightarrow> u64 \<Rightarrow> ('w p2, goerr + u64) state" where
  "waitPollRetry H delay = do {
     r \<leftarrow> p2Call H (Sleep delay);
     ret (case asErrOpt r of Some e \<Rightarrow> Inl e | None \<Rightarrow> Inr (nextDelay delay)) }"

text \<open>The rounds of \<^verbatim>\<open>blockPollable\<close>.\<close>

fun blockLoop :: "nat \<Rightarrow> 'w p2host \<Rightarrow> u64 \<Rightarrow> pollable \<Rightarrow> ('w p2, goerr option) state" where
  "blockLoop 0 H delay p = do { outOfFuel; ret (Some badReply) }"
| "blockLoop (Suc k) H delay p = do {
     r \<leftarrow> pollableReady H p;
     if r then ret None
     else do {
       err \<leftarrow> pollableWait H p;
       canceled \<leftarrow> ctxErr H;
       case canceled of
         Some c \<Rightarrow> ret (Some c)
       | None \<Rightarrow> do {
           failing \<leftarrow> (if err \<noteq> None then do { r \<leftarrow> pollableReady H p; ret (\<not> r) } else ret False);
           if failing then ret err
           else do {
             r \<leftarrow> pollableReady H p;
             if r then blockLoop k H delay p
             else do {
               d \<leftarrow> waitPollRetry H delay;
               case d of Inl e \<Rightarrow> ret (Some e) | Inr d \<Rightarrow> blockLoop k H d p } } } } }"

definition blockPollable :: "'w p2host \<Rightarrow> pollable \<Rightarrow> ('w p2, goerr option) state" where
  "blockPollable H p = do { k \<leftarrow> gets p_fuel; blockLoop k H millisecond p }"

text \<open>The loop of \<^verbatim>\<open>waitPollables\<close> over the reports of its workers.\<close>

fun pollRounds :: "nat \<Rightarrow> 'w p2host \<Rightarrow> pollable list \<Rightarrow> ('w p2, goerr + u32 list) state" where
  "pollRounds 0 H ps = do { outOfFuel; ret (Inl badReply) }"
| "pollRounds (Suc k) H ps = do {
     who \<leftarrow> p2Call H (NextWorker (length ps));
     err \<leftarrow> (let i = unat (asHandle who) in if i < length ps then pollableWait H (ps ! i) else ret None);
     canceled \<leftarrow> ctxErr H;
     case canceled of
       Some c \<Rightarrow> ret (Inl c)
     | None \<Rightarrow> do {
         ready \<leftarrow> readyIndexes H 0 ps;
         if ready \<noteq> [] then ret (Inr ready)
         else (case err of Some e \<Rightarrow> ret (Inl e) | None \<Rightarrow> pollRounds k H ps) } }"

definition waitPollables :: "'w p2host \<Rightarrow> pollable list \<Rightarrow> ('w p2, goerr + u32 list) state" where
  "waitPollables H ps = do {
     ready \<leftarrow> readyIndexes H 0 ps;
     if ready \<noteq> [] then ret (Inr ready)
     else do { k \<leftarrow> gets p_fuel; pollRounds k H ps } }"

section \<open>Handlers of pollables\<close>

definition block :: "'w p2host \<Rightarrow> val list \<Rightarrow> ('w p2, hostResult) state" where
  "block H args = (case repArg args of
      Inl e \<Rightarrow> ret (Inl e)
    | Inr rep \<Rightarrow> do {
        h \<leftarrow> gets p_host;
        case map_of (h_pollables h) rep of
          None \<Rightarrow> ret (Inl (OtherError ''pollable.block: unknown rep''))
        | Some p \<Rightarrow> do { err \<leftarrow> blockPollable H p; ret (case err of Some e \<Rightarrow> Inl e | None \<Rightarrow> Inr []) } })"

definition readyMethod :: "'w p2host \<Rightarrow> val list \<Rightarrow> ('w p2, hostResult) state" where
  "readyMethod H args = (case repArg args of
      Inl e \<Rightarrow> ret (Inl e)
    | Inr rep \<Rightarrow> do {
        h \<leftarrow> gets p_host;
        case map_of (h_pollables h) rep of
          None \<Rightarrow> ret (Inl (OtherError ''pollable.ready: unknown rep''))
        | Some p \<Rightarrow> do { r \<leftarrow> pollableReady H p; ret (Inr [VBool r]) } })"

fun lookupAll :: "'w p2host \<Rightarrow> val list \<Rightarrow> ('w p2, goerr + pollable list) state" where
  "lookupAll H [] = ret (Inr [])"
| "lookupAll H (x # xs) = (case x of
      VU32 handle \<Rightarrow> do {
        r \<leftarrow> p2Call H (RepOf pollableResource handle);
        case asRep r of
          Inl e \<Rightarrow> ret (Inl e)
        | Inr rep \<Rightarrow> do {
            h \<leftarrow> gets p_host;
            case map_of (h_pollables h) rep of
              None \<Rightarrow> ret (Inl (OtherError ''wasi:io/poll.poll: unknown rep''))
            | Some p \<Rightarrow> do {
                ps \<leftarrow> lookupAll H xs;
                ret (map_sum id ((#) p) ps) } } }
    | _ \<Rightarrow> ret (Inl (OtherError ''wasi:io/poll.poll: handle'')))"

definition poll :: "'w p2host \<Rightarrow> val list \<Rightarrow> ('w p2, hostResult) state" where
  "poll H args = (case args of
      [VList xs] \<Rightarrow> do {
        h \<leftarrow> gets p_host;
        if xs = [] then ret (Inl (OtherError ''wasi:io/poll.poll: empty list''))
        else if of_nat (length xs) > MaxPollInputs (h_limits h) then ret (Inl (OtherError ''wasi:io/poll.poll: input quota exceeded''))
        else do {
          ps \<leftarrow> lookupAll H xs;
          case ps of
            Inl e \<Rightarrow> ret (Inl e)
          | Inr ps \<Rightarrow> do {
              r \<leftarrow> waitPollables H ps;
              ret (case r of Inl e \<Rightarrow> Inl e | Inr ready \<Rightarrow> Inr [VList (map VU32 ready)]) } } }
    | _ \<Rightarrow> ret (Inl (OtherError ''wasi:io/poll.poll: expected list'')))"

section \<open>Command line, errors, randomness, networks\<close>

definition getArgs :: "string list \<Rightarrow> val list \<Rightarrow> ('w p2, hostResult) state" where
  "getArgs cfgArgs args = ret (Inr [VList (map VStr cfgArgs)])"

definition getEnv :: "string list \<Rightarrow> val list \<Rightarrow> ('w p2, hostResult) state" where
  "getEnv env args = ret (Inr [VList (concat (map (\<lambda>item. case cut item (CHR ''='') of
     (k, v, found) \<Rightarrow> if found then [VList [VStr k, VStr v]] else []) env))])"

text \<open>\<^verbatim>\<open>value.err.Error()\<close> is the text of an error, which is not modelled: \<open>describe\<close> stands for it.\<close>

definition errorDebug :: "(goerr \<Rightarrow> string) \<Rightarrow> val list \<Rightarrow> ('w p2, hostResult) state" where
  "errorDebug describe args = (case repArg args of
      Inl e \<Rightarrow> ret (Inl e)
    | Inr rep \<Rightarrow> do {
        h \<leftarrow> gets p_host;
        ret (case map_of (h_errors h) rep of
            None \<Rightarrow> Inl (OtherError ''wasi:io/error: unknown error rep'')
          | Some e \<Rightarrow> Inr [VStr (describe e)]) })"

definition dropError :: "u32 \<Rightarrow> ('w p2, unit) state" where
  "dropError rep = onHost (\<lambda>h. h\<lparr>h_errors := AList.delete rep (h_errors h)\<rparr>)"

text \<open>\<^verbatim>\<open>&ExitError{Code: c}\<close>.\<close>

definition exitError :: "u32 \<Rightarrow> goerr" where
  "exitError c = OtherError (if c = 0 then ''exit 0'' else ''exit 1'')"

definition exit :: "val list \<Rightarrow> ('w p2, hostResult) state" where
  "exit args = ret (case args of
      [VResult isErr v] \<Rightarrow> Inl (exitError (if isErr then 1 else 0))
    | _ \<Rightarrow> Inl (OtherError ''wasi:cli/exit.exit: expected result''))"

text \<open>\<^verbatim>\<open>io.ReadFull(random, b)\<close> fills the buffer or fails.\<close>

definition readFull :: "'w p2host \<Rightarrow> nat \<Rightarrow> ('w p2, goerr + bytes) state" where
  "readFull H n = do {
     r \<leftarrow> p2Call H (Random n);
     ret (case asRead r of (b, None) \<Rightarrow> if length b = n then Inr b else Inl badReply | (b, Some e) \<Rightarrow> Inl (Wrapped e)) }"

definition getRandom :: "'w p2host \<Rightarrow> val list \<Rightarrow> ('w p2, hostResult) state" where
  "getRandom H args = (case args of
      [VU64 n] \<Rightarrow> do {
        h \<leftarrow> gets p_host;
        if n > ioLimit (h_limits h) then ret (Inl (OtherError ''length exceeds limit''))
        else do {
          b \<leftarrow> readFull H (unat n);
          ret (case b of Inl e \<Rightarrow> Inl e | Inr b \<Rightarrow> Inr [VBytes b]) } }
    | _ \<Rightarrow> ret (Inl (OtherError ''expected len'')))"

definition randU64 :: "'w p2host \<Rightarrow> val list \<Rightarrow> ('w p2, hostResult) state" where
  "randU64 H args = do {
     b \<leftarrow> readFull H 8;
     ret (case b of Inl e \<Rightarrow> Inl e | Inr b \<Rightarrow> Inr [VU64 (le_word b)]) }"

definition seed :: "'w p2host \<Rightarrow> val list \<Rightarrow> ('w p2, hostResult) state" where
  "seed H args = do {
     a \<leftarrow> randU64 H args;
     case a of
       Inl e \<Rightarrow> ret (Inl e)
     | Inr a \<Rightarrow> do {
         b \<leftarrow> randU64 H args;
         ret (case b of Inl e \<Rightarrow> Inl e | Inr b \<Rightarrow> Inr [VList [a ! 0, b ! 0]]) } }"

definition acquireNetwork :: "('w p2, hostResult) state" where
  "acquireNetwork = do {
     h \<leftarrow> gets p_host;
     if h_networks h \<ge> MaxNetworkHandles (h_limits h) then ret (Inl (OtherError ''network handle quota exceeded''))
     else do {
       onHost (\<lambda>h. h\<lparr>h_networks := h_networks h + 1\<rparr>);
       ret (Inr [VU32 1]) } }"

definition releaseNetwork :: "u32 \<Rightarrow> ('w p2, unit) state" where
  "releaseNetwork rep =
     (if rep \<noteq> 1 then ret ()
      else onHost (\<lambda>h. if h_networks h \<noteq> 0 then h\<lparr>h_networks := h_networks h - 1\<rparr> else h))"

definition socketAccessDenied :: u32 where "socketAccessDenied = 1"

text \<open>Every socket operation answers \<^verbatim>\<open>access-denied\<close> without a call to the outside.\<close>

definition denied :: "val list \<Rightarrow> ('w p2, hostResult) state" where
  "denied args = ret (errResult (VU32 socketAccessDenied))"


section \<open>The invariant\<close>

lemma keeps_monoNow [p2vcg]: "keeps A b F (monoNow H) (\<lambda>_. True)"
  unfolding monoNow_def by (rule p2vcg | simp)+

lemma keeps_addPollable [p2vcg]: "keeps A b F (addPollable v) (\<lambda>_. True)"
proof -
  have "hostOk A (h\<lparr>h_nextPollable := n, h_pollables := AList.update rep v (h_pollables h)\<rparr>)"
    if "hostOk A h" "\<not> MaxPollables (h_limits h) \<le> of_nat (length (h_pollables h))" for h n rep
  proof -
    have "length (h_pollables h) < unat (MaxPollables (h_limits h))"
      using that of_nat_below [of "length (h_pollables h)" "MaxPollables (h_limits h)"] by (auto simp: hostOk_def not_le)
    with that(1) show ?thesis using AList_update_bound [of rep v "h_pollables h"] by (simp add: hostOk_def)
  qed
  then show ?thesis by (auto simp: triple_def wp_simps addPollable_def Inv2_def Let_def)
qed

lemma keeps_newPollable [p2vcg]: "keeps A b F (newPollable v) (\<lambda>_. True)"
  unfolding newPollable_def by (rule p2vcg | simp)+

lemma keeps_drops [p2vcg]:
  "keeps A b F (dropPollable rep) (\<lambda>_. True)" "keeps A b F (dropError rep) (\<lambda>_. True)"
  unfolding dropPollable_def dropError_def
  by (rule p2vcg; auto simp: hostOk_def intro: order.trans [OF AList.length_delete_le])+

lemma keeps_subscribe [p2vcg]:
  "keeps A b F (subscribeTimer H instant args) (\<lambda>_. True)" "keeps A b F (subscribeInput args) (\<lambda>_. True)"
  "keeps A b F (subscribeOutput args) (\<lambda>_. True)"
  unfolding subscribeTimer_def subscribeInput_def subscribeOutput_def by (rule keeps_ret | rule p2vcg | simp)+

lemma keeps_outPollReady [p2vcg]: "keeps A b F (outPollReady H d) (\<lambda>_. True)"
proof -
  have "keeps A b F (viaSafe d (pollReady (rawStream H d))) (\<lambda>_. True)"
    by (rule viaSafe_keeps) (auto simp: pollReady_def Let_def split: prod.splits dest: rawStream_keeps(1) [of A b F _ H d])
  then show ?thesis unfolding outPollReady_def by - (assumption | rule p2vcg | simp)+
qed

lemma hostOk_setWrapper [simp]: "hostOk A (setWrapper d w h) = hostOk A h"
  by (simp add: setWrapper_def hostOk_def)

lemma keeps_outPollWait [p2vcg]: "keeps A b F (outPollWait H d) (\<lambda>_. True)"
  unfolding outPollWait_def by (rule keeps_ret | rule p2vcg | simp)+

lemma keeps_waitMonotonic [p2vcg]: "keeps A b F (waitMonotonic k H t :: ('w p2, goerr option) state) (\<lambda>_. True)"
proof (induction k)
  case 0
  show ?case by (simp, (rule p2vcg | simp)+)
next
  case (Suc k)
  show ?case unfolding waitMonotonic.simps by (rule Suc.IH | rule p2vcg | simp)+
qed

lemma triple_case_pollable [p2vcg]:
  "(\<And>t. x = TimerPoll t \<Longrightarrow> triple P (f t) Q R) \<Longrightarrow> (x = StdinPoll \<Longrightarrow> triple P m Q R) \<Longrightarrow> (x = FilePoll \<Longrightarrow> triple P n Q R) \<Longrightarrow>
   (\<And>r d. x = OutputPoll r d \<Longrightarrow> triple P (g r d) Q R) \<Longrightarrow>
   triple P (case x of TimerPoll t \<Rightarrow> f t | StdinPoll \<Rightarrow> m | FilePoll \<Rightarrow> n | OutputPoll r d \<Rightarrow> g r d) Q R"
  by (cases x) auto

lemma keeps_pollable [p2vcg]:
  "keeps A b F (pollableReady H p) (\<lambda>_. True)" "keeps A b F (pollableWait H p) (\<lambda>_. True)"
  unfolding pollableReady_def pollableWait_def by (rule keeps_ret | rule p2vcg | simp)+

lemma keeps_readyIndexes [p2vcg]: "keeps A b F (readyIndexes H i ps :: ('w p2, u32 list) state) (\<lambda>_. True)"
  by (induction ps arbitrary: i) ((simp; (rule p2vcg | assumption | simp)+), (simp; (rule p2vcg | assumption | simp)+))

lemma keeps_waitPollRetry [p2vcg]: "keeps A b F (waitPollRetry H d) (\<lambda>_. True)"
  unfolding waitPollRetry_def by (rule p2vcg | simp)+

lemma keeps_blockLoop [p2vcg]: "keeps A b F (blockLoop k H d p :: ('w p2, goerr option) state) (\<lambda>_. True)"
proof (induction k arbitrary: d)
  case 0
  show ?case by (simp, (rule p2vcg | simp)+)
next
  case (Suc k)
  show ?case unfolding blockLoop.simps by (rule Suc.IH keeps_ret | rule p2vcg | simp)+
qed

lemma keeps_pollRounds [p2vcg]: "keeps A b F (pollRounds k H ps :: ('w p2, goerr + u32 list) state) (\<lambda>_. True)"
proof (induction k)
  case 0
  show ?case by (simp, (rule p2vcg | simp)+)
next
  case (Suc k)
  show ?case unfolding pollRounds.simps by (rule Suc.IH keeps_ret | rule p2vcg | simp)+
qed

lemma keeps_lookupAll [p2vcg]: "keeps A b F (lookupAll H xs :: ('w p2, goerr + pollable list) state) (\<lambda>_. True)"
proof (induction xs)
  case Nil
  show ?case by (simp, (rule p2vcg | simp)+)
next
  case (Cons x xs)
  show ?case unfolding lookupAll.simps by (rule Cons.IH keeps_ret | rule p2vcg | simp)+
qed

lemma keeps_polling [p2vcg]:
  "keeps A b F (block H args) (\<lambda>_. True)" "keeps A b F (readyMethod H args) (\<lambda>_. True)" "keeps A b F (poll H args) (\<lambda>_. True)"
  unfolding block_def readyMethod_def poll_def blockPollable_def waitPollables_def by (rule keeps_ret | rule p2vcg | simp)+

lemma keeps_readFull [p2vcg]: "keeps A b F (readFull H n) (\<lambda>_. True)"
  unfolding readFull_def by (rule keeps_ret | rule p2vcg | simp)+

lemma keeps_random [p2vcg]:
  "keeps A b F (getRandom H args) (\<lambda>_. True)" "keeps A b F (randU64 H args) (\<lambda>_. True)" "keeps A b F (seed H args) (\<lambda>_. True)"
  unfolding getRandom_def randU64_def seed_def by (rule keeps_ret | rule p2vcg | simp)+

lemma keeps_plain [p2vcg]:
  "keeps A b F (mono H args) (\<lambda>_. True)" "keeps A b F (resolution args) (\<lambda>_. True)" "keeps A b F (wall H args) (\<lambda>_. True)"
  "keeps A b F (wallRes args) (\<lambda>_. True)" "keeps A b F (getArgs as args) (\<lambda>_. True)" "keeps A b F (getEnv as args) (\<lambda>_. True)"
  "keeps A b F (errorDebug describe args) (\<lambda>_. True)" "keeps A b F (exit args) (\<lambda>_. True)" "keeps A b F (denied args) (\<lambda>_. True)"
  unfolding mono_def resolution_def wall_def wallRes_def getArgs_def getEnv_def errorDebug_def exit_def denied_def
  by (rule keeps_ret | rule p2vcg | simp)+

lemma keeps_network [p2vcg]:
  "keeps A b F acquireNetwork (\<lambda>_. True)" "keeps A b F (releaseNetwork rep) (\<lambda>_. True)"
proof -
  have "hostOk A (h\<lparr>h_networks := h_networks h + 1\<rparr>)" if "hostOk A h" "\<not> MaxNetworkHandles (h_limits h) \<le> h_networks h" for h
    using that by (auto simp: hostOk_def not_le inc_le)
  then show "keeps A b F acquireNetwork (\<lambda>_. True)"
    by (auto simp: triple_def wp_simps acquireNetwork_def Inv2_def)
  have "hostOk A (h\<lparr>h_networks := h_networks h - 1\<rparr>)" if "hostOk A h" "h_networks h \<noteq> 0" for h
  proof -
    have "h_networks h - 1 \<le> h_networks h" using that(2) by (simp add: word_le_nat_alt unat_minus_one)
    with that(1) show ?thesis by (auto simp: hostOk_def)
  qed
  then show "keeps A b F (releaseNetwork rep) (\<lambda>_. True)"
    unfolding releaseNetwork_def by - (rule keeps_ret | rule p2vcg | simp)+
qed

section \<open>Properties\<close>

text \<open>the target of a relative timer is the sum of the current time and the duration, or the largest
  representable time when the sum does not fit; it is never in the past.\<close>

theorem timerTarget_saturates:
  "unat (timerTarget now n) = min (unat now + unat n) (2 ^ 64 - 1) \<and> now \<le> timerTarget now n"
proof -
  have m: "unat (0xFFFFFFFFFFFFFFFF - now) = 2 ^ 64 - 1 - unat now"
    using unat_u64_bound [of now] by (subst unat_sub) (simp_all add: word_le_nat_alt less_Suc_eq_le [symmetric] del: unat_u64_bound)
  have "unat (now + n) = unat now + unat n" if "\<not> 0xFFFFFFFFFFFFFFFF - now < n"
    using that m unat_u64_bound [of now] by (simp add: unat_word_ariths word_less_nat_alt del: unat_u64_bound)
  then show ?thesis
    using m unat_u64_bound [of now] unat_u64_bound [of n]
    by (auto simp: timerTarget_def word_less_nat_alt word_le_nat_alt min_def simp del: unat_u64_bound)
qed

text \<open>\<^verbatim>\<open>uint64(time.Since(base))\<close> and the timers of Go: the clock counts up to \<open>2 ^ 63 - 1\<close> nanoseconds, the largest
  \<^verbatim>\<open>time.Duration\<close>, and stays there; a timer that is not cancelled fires no earlier than it was told to.\<close>

definition steadyClock :: "'w p2host \<Rightarrow> ('w \<Rightarrow> nat) \<Rightarrow> bool" where
  "steadyClock H time \<longleftrightarrow> (\<forall>x. time x < 2 ^ 63) \<and>
     (\<forall>x. \<exists>y. H MonoNow x = (RNum (of_nat (time x)), y) \<and> time x \<le> time y) \<and>
     (\<forall>x d. \<exists>y. H (Sleep d) x = (RErrOpt None, y) \<and> min (time x + unat d) (2 ^ 63 - 1) \<le> time y)"

lemma waitMonotonic_round:
  assumes "steadyClock H time"
  shows "\<exists>t. p_stuck t = p_stuck s \<and>
     (if unat target \<le> time (p_world s) then time (p_world s) \<le> time (p_world t) \<and> (\<forall>k. run_state (waitMonotonic (Suc k) H target) s = (None, t))
      else (\<forall>k. run_state (waitMonotonic (Suc k) H target) s = run_state (waitMonotonic k H target) t) \<and>
        min (unat target) (2 ^ 63 - 1) \<le> time (p_world t))"
proof -
  obtain y where y: "H MonoNow (p_world s) = (RNum (of_nat (time (p_world s))), y)" "time (p_world s) \<le> time y" "time (p_world s) < 2 ^ 63"
    using assms unfolding steadyClock_def by meson
  let ?n = "of_nat (time (p_world s)) :: u64"
  let ?u = "s\<lparr>p_world := y, p_log := p_log s @ [MonoNow]\<rparr>"
  have n: "unat ?n = time (p_world s)" using y(3) by (simp add: unat_of_nat)
  show ?thesis
  proof (cases "unat target \<le> time (p_world s)")
    case True
    then have "target \<le> ?n" by (simp add: word_le_nat_alt n)
    with True y show ?thesis by (intro exI [of _ ?u]) (simp add: monoNow_def)
  next
    case False
    then have lt: "\<not> target \<le> ?n" by (simp add: word_le_nat_alt n)
    define d :: u64 where "d = (if target - ?n > 0x7FFFFFFFFFFFFFFF then 0x7FFFFFFFFFFFFFFF else target - ?n)"
    have "unat (target - ?n) = unat target - time (p_world s)" using False n by (simp add: unat_sub word_le_nat_alt)
    then have d: "unat d = min (unat target - time (p_world s)) (2 ^ 63 - 1)" by (auto simp: d_def word_less_nat_alt min_def)
    obtain z where z: "H (Sleep d) y = (RErrOpt None, z)" "min (time y + unat d) (2 ^ 63 - 1) \<le> time z"
      using assms unfolding steadyClock_def by meson
    have "min (unat target) (2 ^ 63 - 1) \<le> time z"
      using z(2) y(2,3) d False by (auto simp: min_def split: if_splits)
    moreover have "run_state (waitMonotonic (Suc k) H target) s =
        run_state (waitMonotonic k H target) (?u\<lparr>p_world := z, p_log := p_log ?u @ [Sleep d]\<rparr>)" for k
      using y(1) z(1) lt by (simp add: monoNow_def osDo_def Let_def d_def [symmetric])
    ultimately show ?thesis using False by (intro exI [of _ "?u\<lparr>p_world := z, p_log := p_log ?u @ [Sleep d]\<rparr>"]) simp
  qed
qed

lemma waitMonotonic_stuck:
  assumes "steadyClock H time" and "2 ^ 63 \<le> unat target"
  shows "p_stuck (snd (run_state (waitMonotonic k H target) s))"
proof (induction k arbitrary: s)
  case 0
  show ?case by (simp add: outOfFuel_def)
next
  case (Suc k)
  have "time (p_world s) < 2 ^ 63" using assms(1) by (simp add: steadyClock_def)
  with assms(2) have "\<not> unat target \<le> time (p_world s)" by simp
  with waitMonotonic_round [OF assms(1), of s target] Suc.IH show ?case by (auto simp del: waitMonotonic.simps)
qed

text \<open>C26: with a clock and timers as Go's, and a context that is not cancelled, the wait for a target that the clock can reach ends
  after at most one timer of the host, and not before the target; a target of \<open>2 ^ 63\<close> nanoseconds or more, which the
  interface admits, is waited for without end.\<close>

theorem waitMonotonic_ends:
  assumes "steadyClock H time"
  shows "if unat target < 2 ^ 63
    then \<exists>t. (\<forall>k\<ge>2. run_state (waitMonotonic k H target) s = (None, t)) \<and> unat target \<le> time (p_world t) \<and> p_stuck t = p_stuck s
    else (\<forall>k. p_stuck (snd (run_state (waitMonotonic k H target) s)))"
proof (cases "unat target < 2 ^ 63")
  case True
  obtain t where t: "p_stuck t = p_stuck s"
     "if unat target \<le> time (p_world s) then time (p_world s) \<le> time (p_world t) \<and> (\<forall>k. run_state (waitMonotonic (Suc k) H target) s = (None, t))
      else (\<forall>k. run_state (waitMonotonic (Suc k) H target) s = run_state (waitMonotonic k H target) t) \<and>
        min (unat target) (2 ^ 63 - 1) \<le> time (p_world t)" using waitMonotonic_round [OF assms, of s target] by blast
  obtain u where u: "p_stuck u = p_stuck t"
     "if unat target \<le> time (p_world t) then time (p_world t) \<le> time (p_world u) \<and> (\<forall>k. run_state (waitMonotonic (Suc k) H target) t = (None, u))
      else (\<forall>k. run_state (waitMonotonic (Suc k) H target) t = run_state (waitMonotonic k H target) u) \<and>
        min (unat target) (2 ^ 63 - 1) \<le> time (p_world u)" using waitMonotonic_round [OF assms, of t target] by blast
  have k: "\<exists>j. k = Suc (Suc j)" if "k \<ge> 2" for k :: nat using that by (intro exI [of _ "k - 2"]) simp
  show ?thesis
  proof (cases "unat target \<le> time (p_world s)")
    case True
    with t \<open>unat target < 2 ^ 63\<close> k show ?thesis by (auto simp del: waitMonotonic.simps intro!: exI [of _ t] dest!: k)
  next
    case False
    with t(2) True have "unat target \<le> time (p_world t)" by (simp add: min_def)
    with False t u True k show ?thesis by (auto simp del: waitMonotonic.simps intro!: exI [of _ u] dest!: k)
  qed
next
  case False
  then show ?thesis using waitMonotonic_stuck [OF assms] by simp
qed

definition tickingHost :: "nat p2host" where
  "tickingHost c x = (case c of
      MonoNow \<Rightarrow> (RNum (of_nat (min x (2 ^ 63 - 1))), x)
    | Sleep d \<Rightarrow> (RErrOpt None, x + unat d)
    | _ \<Rightarrow> (RErrOpt None, x))"

definition atTime :: "nat \<Rightarrow> nat p2" where
  "atTime n = \<lparr>p_host = newHostState (normalized zeroLimits),
     p_fs = \<lparr>f_mounts = [], f_descs = [], f_streams = [], f_stdStreams = 0, f_dirs = [], f_nextDesc = 1,
       f_nextStream = fileStreamRepMin, f_nextDir = 1, f_limits = normalized zeroLimits\<rparr>,
     p_world = n, p_log = [], p_live = {}, p_next = 0, p_fuel = 10, p_stuck = False\<rparr>"

theorem waitMonotonic_ends_witness:
  "steadyClock tickingHost (\<lambda>x. min x (2 ^ 63 - 1)) \<and>
   (\<exists>t. run_state (waitMonotonic 2 tickingHost 9) (atTime 7) = (None, t) \<and> 9 \<le> p_world t)"
proof -
  have c: "steadyClock tickingHost (\<lambda>x. min x (2 ^ 63 - 1))"
    by (auto simp: steadyClock_def tickingHost_def min_def)
  from waitMonotonic_ends [OF c, of 9 "atTime 7"] c show ?thesis by auto
qed

text \<open>What a pass over the pollables reports: the increasing list of the positions that were found ready.\<close>

lemma readyIndexes_found:
  assumes "run_state (readyIndexes H i ps) s = (ready, t)" and "i + length ps \<le> 2 ^ 32"
  shows "sorted_wrt (<) ready \<and> (\<forall>k\<in>set ready. i \<le> unat k \<and> unat k < i + length ps) \<and>
    (\<exists>us. length us = Suc (length ps) \<and> us ! 0 = s \<and> us ! length ps = t \<and>
      (\<forall>k<length ps. run_state (pollableReady H (ps ! k)) (us ! k) = (of_nat (i + k) \<in> set ready, us ! Suc k)))"
  using assms
proof (induction ps arbitrary: i s ready t)
  case Nil
  then show ?case by (auto intro!: exI [of _ "[s]"])
next
  case (Cons p ps)
  obtain r u where r: "run_state (pollableReady H p) s = (r, u)" by fastforce
  obtain rest v where rest: "run_state (readyIndexes H (Suc i) ps) u = (rest, v)" by fastforce
  have ready: "ready = (if r then of_nat i # rest else rest)" "v = t" using Cons.prems(1) r rest by simp_all
  obtain us where IH: "sorted_wrt (<) rest" "\<forall>k\<in>set rest. Suc i \<le> unat k \<and> unat k < Suc i + length ps"
    "length us = Suc (length ps)" "us ! 0 = u" "us ! length ps = v"
    "\<forall>k<length ps. run_state (pollableReady H (ps ! k)) (us ! k) = (of_nat (Suc i + k) \<in> set rest, us ! Suc k)"
    using Cons.IH [OF rest] Cons.prems(2) by auto
  have i: "unat (of_nat i :: u32) = i" using Cons.prems(2) by (simp add: unat_of_nat)
  then have no: "(of_nat i :: u32) \<notin> set rest" using IH(2) by fastforce
  have ne: "of_nat (i + Suc k) \<noteq> (of_nat i :: u32)" if "k < length ps" for k
  proof
    assume "of_nat (i + Suc k) = (of_nat i :: u32)"
    then have "unat (of_nat (i + Suc k) :: u32) = i" using i by (simp only:)
    moreover have "i + Suc k < 2 ^ 32" using that Cons.prems(2) by simp
    ultimately show False by (simp add: unat_of_nat del: of_nat_Suc of_nat_add)
  qed
  have found: "run_state (pollableReady H ((p # ps) ! k)) ((s # us) ! k) = (of_nat (i + k) \<in> set ready, (s # us) ! Suc k)" if "k < Suc (length ps)" for k
  proof (cases k)
    case 0
    then show ?thesis using r no ready IH(4) by simp
  next
    case (Suc j)
    have "j < length ps" using that Suc by simp
    with IH(6) have "run_state (pollableReady H (ps ! j)) (us ! j) = (of_nat (i + Suc j) \<in> set rest, us ! Suc j)"
      by (simp only: add_Suc add_Suc_right)
    then show ?thesis using Suc ne [of j] that ready(1) by (simp del: of_nat_Suc of_nat_add)
  qed
  have "sorted_wrt (<) ready" using IH(1,2) ready(1) i by (auto simp: word_less_nat_alt Suc_le_eq)
  moreover have "\<forall>k\<in>set ready. i \<le> unat k \<and> unat k < i + length (p # ps)" using IH(2) ready(1) i by auto
  moreover have "length (s # us) = Suc (length (p # ps))" "(s # us) ! 0 = s" "(s # us) ! length (p # ps) = t" using IH(3,5) ready(2) by simp_all
  ultimately show ?case using found by (metis length_Cons)
qed

text \<open>When the rounds of a poll end with an answer, it is that of a pass which ends in the same state.\<close>

lemma pollRounds_found:
  "run_state (pollRounds k H ps) s = (Inr ready, t) \<Longrightarrow> ready \<noteq> [] \<and> (\<exists>u. run_state (readyIndexes H 0 ps) u = (ready, t))"
proof (induction k arbitrary: s)
  case (Suc k)
  then show ?case by (auto simp: Let_def split: prod.splits option.splits if_splits)
qed (simp split: prod.splits)

text \<open>C25: a poll of at most 2^32 pollables that returns reports a nonempty, strictly increasing list of positions in
  range. It is what one pass over the pollables found, the last thing the poll did: the states \<open>us\<close> of the pass lead to
  the state in which the poll returns, and in each the pollable is asked once and reported exactly if it is ready.\<close>

theorem waitPollables_exact:
  assumes "run_state (waitPollables H ps) s = (Inr ready, t)" and "length ps \<le> 2 ^ 32"
  shows "ready \<noteq> [] \<and> sorted_wrt (<) ready \<and> (\<forall>k\<in>set ready. unat k < length ps) \<and>
    (\<exists>us. length us = Suc (length ps) \<and> last us = t \<and>
      (\<forall>k<length ps. run_state (pollableReady H (ps ! k)) (us ! k) = (of_nat k \<in> set ready, us ! Suc k)))"
proof -
  obtain u where u: "ready \<noteq> []" "run_state (readyIndexes H 0 ps) u = (ready, t)"
    using assms(1) by (auto simp: waitPollables_def split: prod.splits if_splits dest: pollRounds_found)
  then obtain us where us: "sorted_wrt (<) ready" "\<forall>k\<in>set ready. unat k < length ps" "length us = Suc (length ps)" "us ! length ps = t"
    "\<forall>k<length ps. run_state (pollableReady H (ps ! k)) (us ! k) = (of_nat k \<in> set ready, us ! Suc k)"
    using readyIndexes_found [OF u(2)] assms(2) by auto
  moreover have "last us = t" using us(3,4) by (cases us rule: rev_cases) (auto simp: nth_append)
  ultimately show ?thesis using u(1) by blast
qed

theorem waitPollables_exact_witness:
  "\<exists>t us. run_state (waitPollables tickingHost [TimerPoll 9, FilePoll, TimerPoll 5]) (atTime 7) = (Inr [1, 2], t) \<and>
     length us = 4 \<and> last us = t \<and> fst (run_state (pollableReady tickingHost (TimerPoll 9)) (us ! 0)) = False"
proof -
  obtain t where r: "run_state (waitPollables tickingHost [TimerPoll 9, FilePoll, TimerPoll 5]) (atTime 7) = (Inr [1, 2], t)"
    by (simp add: waitPollables_def pollableReady_def monoNow_def tickingHost_def atTime_def)
  let ?ps = "[TimerPoll 9, FilePoll, TimerPoll 5]"
  from waitPollables_exact [OF r] obtain us where us: "length us = Suc (length ?ps)" "last us = t"
    "\<forall>k<length ?ps. run_state (pollableReady tickingHost (?ps ! k)) (us ! k) = (of_nat k \<in> set [1, 2 :: u32], us ! Suc k)"
    by auto
  have "fst (run_state (pollableReady tickingHost (TimerPoll 9)) (us ! 0)) = False" using us(3) [rule_format, of 0] by simp
  moreover have "length us = 4" using us(1) by simp
  ultimately show ?thesis using r us(2) by blast
qed

end
