(* ===== verification/P2_Paths.thy ===== *)
theory P2_Paths
  imports P2_Clocks
begin

text \<open>
  Resolution of guest paths beneath a descriptor in the Linux build of package \<^verbatim>\<open>p2\<close>: \<^verbatim>\<open>path.go\<close>, \<^verbatim>\<open>path_linux.go\<close>,
  \<^verbatim>\<open>path_unix.go\<close>, \<^verbatim>\<open>mutation_leaf_unix.go\<close>, \<^verbatim>\<open>platform_unix.go\<close>, \<^verbatim>\<open>stat_path_handle.go\<close>, \<^verbatim>\<open>set_times_linux.go\<close> and the path functions
  of \<^verbatim>\<open>filesystem.go\<close>. An open asks the kernel for a resolution beneath the directory and falls back to a walk
  that opens one component at a time without following links, expanding links itself. The names of
  \<^verbatim>\<open>os.NewFile\<close> serve error texts only and are left out.
\<close>

section \<open>Paths as strings\<close>

definition join :: "string list \<Rightarrow> string" where
  "join parts = concat (case parts of [] \<Rightarrow> [] | p # ps \<Rightarrow> p # map ((#) (CHR ''/'')) ps)"

text \<open>\<^verbatim>\<open>path.Dir\<close>: everything up to the last slash, cleaned.\<close>

definition pathDir :: "string \<Rightarrow> string" where
  "pathDir p = clean (case lastIndexByte p (CHR ''/'') of None \<Rightarrow> [] | Some i \<Rightarrow> take (Suc i) p)"

definition isAbs :: "string \<Rightarrow> bool" where
  "isAbs p = hasPrefix p ''/''"

text \<open>\<^verbatim>\<open>O_PATH\<close>, a handle for metadata only.\<close>

definition metadataHandleFlag :: u64 where "metadataHandleFlag = 0x200000"

definition splitRelative :: "string \<Rightarrow> goerr + string list" where
  "splitRelative name =
     (if CHR 0x00 \<in> set name \<or> isAbs name then Inl (Errno EPERM)
      else (let c = clean name in
        if c = ''.'' then Inr []
        else if c = ''..'' \<or> hasPrefix c ''../'' then Inl (Errno EPERM)
        else Inr (split_on (CHR ''/'') c)))"

section \<open>Opening one name\<close>

definition dupFile :: "'w p2host \<Rightarrow> fileid \<Rightarrow> ('w p2, goerr + fileid) state" where
  "dupFile H f = osOpen H (fst f) (HDup f)"

abbreviation (input) openFlagBits :: u64 where "openFlagBits \<equiv> O_NOFOLLOW OR O_CLOEXEC"

definition osOpenat :: "'w p2host \<Rightarrow> fileid \<Rightarrow> string \<Rightarrow> u64 \<Rightarrow> u64 \<Rightarrow> ('w p2, goerr + fileid) state" where
  "osOpenat H d name flags mode = osOpen H (fst d) (HOpenat d name (flags OR openFlagBits) mode)"

fun openParts :: "'w p2host \<Rightarrow> u64 \<Rightarrow> u64 \<Rightarrow> fileid \<Rightarrow> string list \<Rightarrow> ('w p2, goerr + fileid) state" where
  "openParts H flags mode cur [] = ret (Inr cur)"
| "openParts H flags mode cur [part] = do {
     r \<leftarrow> osOpenat H cur part flags mode;
     _ \<leftarrow> osClose H cur;
     ret r }"
| "openParts H flags mode cur (part # parts) = do {
     r \<leftarrow> osOpenat H cur part O_DIRECTORY 0;
     _ \<leftarrow> osClose H cur;
     case r of Inl e \<Rightarrow> ret (Inl e) | Inr f \<Rightarrow> openParts H flags mode f parts }"

definition openUnder :: "'w p2host \<Rightarrow> fileid \<Rightarrow> string \<Rightarrow> u64 \<Rightarrow> u64 \<Rightarrow> ('w p2, goerr + fileid) state" where
  "openUnder H dir name flags mode = (case splitRelative name of
      Inl e \<Rightarrow> ret (Inl e)
    | Inr [] \<Rightarrow> osOpenat H dir ''.'' flags mode
    | Inr parts \<Rightarrow> do {
        cur \<leftarrow> dupFile H dir;
        case cur of Inl e \<Rightarrow> ret (Inl e) | Inr cur \<Rightarrow> openParts H flags mode cur parts })"

section \<open>The walk\<close>

text \<open>A finished walk has the opened file or, with a function \<^verbatim>\<open>statLeaf\<close>, the information about the leaf.\<close>

datatype pathWalkResult = WalkFile fileid | WalkInfo finfo

datatype walkStep = WalkDone "goerr + pathWalkResult" | Restart string nat

type_synonym 'w statLeaf = "(fileid \<Rightarrow> string \<Rightarrow> ('w p2, goerr + finfo) state) option"

definition normalizeSymlinkPath :: "string \<Rightarrow> goerr + string" where
  "normalizeSymlinkPath target = (if isAbs target then Inl (Errno EPERM) else Inr target)"

text \<open>\<^verbatim>\<open>readlinkTargetAt\<close> with a buffer of \<open>n\<close> bytes.\<close>

definition readlinkTargetAt :: "'w p2host \<Rightarrow> fileid \<Rightarrow> string \<Rightarrow> nat \<Rightarrow> ('w p2, goerr + string) state" where
  "readlinkTargetAt H d name n = do {
     r \<leftarrow> p2Call H (Os (HReadlinkat d name n));
     ret (case asStr (asHost r) of Inl e \<Rightarrow> Inl e | Inr t \<Rightarrow> Inr (take n t)) }"

text \<open>The opening of one component, with the error \<open>ELOOP\<close> for a link that the caller wants followed.\<close>

definition openComponent :: "'w p2host \<Rightarrow> 'w statLeaf \<Rightarrow> u64 \<Rightarrow> u64 \<Rightarrow> bool \<Rightarrow> bool \<Rightarrow> fileid \<Rightarrow> string \<Rightarrow>
    ('w p2, goerr + (pathWalkResult + goerr)) state" where
  "openComponent H statLeaf flags mode follow isLast cur part =
     (case (if isLast then statLeaf else None) of
        Some sl \<Rightarrow> do {
          info \<leftarrow> sl cur part;
          ret (case info of
              Inl e \<Rightarrow> Inl e
            | Inr info \<Rightarrow>
                if \<not> follow \<or> fi_mode info AND modeSymlink = 0 then Inr (Inl (WalkInfo info)) else Inr (Inr (Errno ELOOP))) }
      | None \<Rightarrow> do {
          f \<leftarrow> osOpenat H cur part (if isLast then flags else O_DIRECTORY) (if isLast then mode else 0);
          case f of
            Inl e \<Rightarrow> ret (Inr (Inr e))
          | Inr f \<Rightarrow>
              if isLast \<and> follow \<and> flags AND metadataHandleFlag \<noteq> 0 then do {
                info \<leftarrow> osStat H f;
                case info of
                  Inl e \<Rightarrow> do { _ \<leftarrow> osClose H f; ret (Inl e) }
                | Inr info \<Rightarrow>
                    if fi_mode info AND modeSymlink \<noteq> 0 then do { _ \<leftarrow> osClose H f; ret (Inr (Inr (Errno ELOOP))) }
                    else ret (Inr (Inl (WalkFile f))) }
              else ret (Inr (Inl (WalkFile f))) })"

text \<open>The expansion of a link at position \<open>part\<close>, after \<open>before\<close> and before \<open>rest\<close>.\<close>

definition expandLink :: "nat \<Rightarrow> string list \<Rightarrow> string list \<Rightarrow> string \<Rightarrow> walkStep" where
  "expandLink symlinks before rest link =
     (if length link = 4096 then WalkDone (Inl (Errno ENAMETOOLONG))
      else (case normalizeSymlinkPath link of
          Inl e \<Rightarrow> WalkDone (Inl e)
        | Inr target \<Rightarrow>
            if target = [] then WalkDone (Inl (Errno ENOENT))
            else if Suc symlinks > 40 then WalkDone (Inl (Errno ELOOP))
            else Restart (clean (join before) @ ''/'' @ target @ (if rest = [] then [] else CHR ''/'' # join rest)) (Suc symlinks)))"

fun walkParts :: "'w p2host \<Rightarrow> 'w statLeaf \<Rightarrow> u64 \<Rightarrow> u64 \<Rightarrow> bool \<Rightarrow> nat \<Rightarrow> string list \<Rightarrow> string list \<Rightarrow> fileid \<Rightarrow>
    ('w p2, walkStep) state" where
  "walkParts H statLeaf flags mode follow symlinks before [] cur = (case statLeaf of
      Some sl \<Rightarrow> do {
        info \<leftarrow> sl cur ''.'';
        _ \<leftarrow> osClose H cur;
        ret (WalkDone (map_sum id WalkInfo info)) }
    | None \<Rightarrow> do {
        f \<leftarrow> osOpenat H cur ''.'' flags mode;
        _ \<leftarrow> osClose H cur;
        ret (WalkDone (map_sum id WalkFile f)) })"
| "walkParts H statLeaf flags mode follow symlinks before (part # rest) cur =
     (if part = [] \<or> part = ''.'' then walkParts H statLeaf flags mode follow symlinks (before @ [part]) rest cur
      else if part = ''..'' then do {
        let prefix = clean (join before);
        _ \<leftarrow> osClose H cur;
        ret (if prefix = ''.'' then WalkDone (Inl (Errno EPERM)) else Restart (pathDir prefix @ ''/'' @ join rest) symlinks) }
      else do {
        r \<leftarrow> openComponent H statLeaf flags mode follow (rest = []) cur part;
        case r of
          Inl e \<Rightarrow> do { _ \<leftarrow> osClose H cur; ret (WalkDone (Inl e)) }
        | Inr (Inl (WalkInfo info)) \<Rightarrow> do { _ \<leftarrow> osClose H cur; ret (WalkDone (Inr (WalkInfo info))) }
        | Inr (Inl (WalkFile f)) \<Rightarrow> do {
            _ \<leftarrow> osClose H cur;
            if rest = [] then ret (WalkDone (Inr (WalkFile f)))
            else walkParts H statLeaf flags mode follow symlinks (before @ [part]) rest f }
        | Inr (Inr openErr) \<Rightarrow>
            if rest = [] \<and> (\<not> follow \<or> flags AND (O_CREAT OR O_EXCL) = O_CREAT OR O_EXCL) then do {
              _ \<leftarrow> osClose H cur;
              ret (WalkDone (Inl openErr)) }
            else do {
              link \<leftarrow> readlinkTargetAt H cur part 4096;
              _ \<leftarrow> osClose H cur;
              ret (case link of
                  Inl linkErr \<Rightarrow> WalkDone (Inl (if errorsIs linkErr (Errno EPERM) then linkErr else openErr))
                | Inr link \<Rightarrow> expandLink symlinks before rest link) } })"

fun walkUnder :: "nat \<Rightarrow> 'w p2host \<Rightarrow> fileid \<Rightarrow> u64 \<Rightarrow> u64 \<Rightarrow> bool \<Rightarrow> 'w statLeaf \<Rightarrow> string \<Rightarrow> nat \<Rightarrow>
    ('w p2, goerr + pathWalkResult) state" where
  "walkUnder 0 H dir flags mode follow statLeaf name symlinks = do { outOfFuel; ret (Inl badReply) }"
| "walkUnder (Suc k) H dir flags mode follow statLeaf name symlinks = do {
     cur \<leftarrow> dupFile H dir;
     case cur of
       Inl e \<Rightarrow> ret (Inl e)
     | Inr cur \<Rightarrow> do {
         r \<leftarrow> walkParts H statLeaf flags mode follow symlinks [] (split_on (CHR ''/'') name) cur;
         case r of
           WalkDone x \<Rightarrow> ret x
         | Restart name' symlinks' \<Rightarrow> walkUnder k H dir flags mode follow statLeaf name' symlinks' } }"

definition openUnderWalk :: "'w p2host \<Rightarrow> fileid \<Rightarrow> string \<Rightarrow> u64 \<Rightarrow> u64 \<Rightarrow> bool \<Rightarrow> ('w p2, goerr + fileid) state" where
  "openUnderWalk H dir name flags mode follow = do {
     k \<leftarrow> gets p_fuel;
     r \<leftarrow> walkUnder k H dir flags mode follow None name 0;
     ret (case r of Inl e \<Rightarrow> Inl e | Inr (WalkFile f) \<Rightarrow> Inr f | Inr (WalkInfo i) \<Rightarrow> Inl badReply) }"

definition platformOpenUnderPathFlags :: "'w p2host \<Rightarrow> fileid \<Rightarrow> string \<Rightarrow> u64 \<Rightarrow> u64 \<Rightarrow> bool \<Rightarrow> ('w p2, goerr + fileid) state" where
  "platformOpenUnderPathFlags H dir name flags mode follow = do {
     let flags = (if \<not> follow then flags OR O_NOFOLLOW else flags);
     let mode = (if flags AND O_CREAT = 0 then 0 else mode);
     r \<leftarrow> osOpen H (fst dir) (HOpenat2 dir name (flags OR O_CLOEXEC) mode secureResolve);
     case r of
       Inl e \<Rightarrow>
         if errorsIs e (Errno ENOSYS) \<or> errorsIs e (Errno EINVAL) \<or> errorsIs e (Errno E2BIG) \<or> errorsIs e (Errno EPERM)
         then openUnderWalk H dir name flags mode follow
         else if errorsIs e (Errno EXDEV) then ret (Inl (Errno EPERM))
         else ret (Inl e)
     | Inr f \<Rightarrow> ret (Inr f) }"

text \<open>The checks that the three functions with path flags make first.\<close>

definition checkPath :: "string \<Rightarrow> u32 \<Rightarrow> goerr + string" where
  "checkPath name pathFlags =
     (if pathFlags AND NOT 1 \<noteq> 0 then Inl (Errno EINVAL)
      else if CHR 0x00 \<in> set name \<or> isAbs name then Inl (Errno EPERM)
      else Inr (if name = [] then ''.'' else name))"

definition openUnderPathFlags :: "'w p2host \<Rightarrow> fileid \<Rightarrow> string \<Rightarrow> u64 \<Rightarrow> u64 \<Rightarrow> u32 \<Rightarrow> ('w p2, goerr + fileid) state" where
  "openUnderPathFlags H dir name flags mode pathFlags = (case checkPath name pathFlags of
      Inl e \<Rightarrow> ret (Inl e)
    | Inr name \<Rightarrow> platformOpenUnderPathFlags H dir name flags mode (pathFlags AND 1 \<noteq> 0))"

section \<open>Parents and leaves\<close>

text \<open>The number of raw components before the leaf: trailing empty and \<^verbatim>\<open>.\<close> components belong to the leaf.\<close>

fun leafIndex :: "string list \<Rightarrow> nat option" where
  "leafIndex [] = None"
| "leafIndex (p # ps) = (case leafIndex ps of
      Some i \<Rightarrow> Some (Suc i)
    | None \<Rightarrow> if p = [] \<or> p = ''.'' then None else Some 0)"

definition splitLeaf :: "string \<Rightarrow> goerr + (string \<times> string)" where
  "splitLeaf name =
     (if name = [] \<or> CHR 0x00 \<in> set name \<or> isAbs name then Inl (Errno EPERM)
      else (let rawParts = split_on (CHR ''/'') name in
        case leafIndex rawParts of
          None \<Rightarrow> Inl (Errno EPERM)
        | Some i \<Rightarrow>
            if rawParts ! i = ''..'' then Inl (Errno EPERM)
            else (let parent = join (take i rawParts) in
              Inr (if parent = [] then ''.'' else parent, join (drop i rawParts)))))"

definition parentUnderRaw :: "'w p2host \<Rightarrow> fileid \<Rightarrow> string \<Rightarrow> ('w p2, goerr + (fileid \<times> string)) state" where
  "parentUnderRaw H dir name = (case splitLeaf name of
      Inl e \<Rightarrow> ret (Inl e)
    | Inr (parent, leaf) \<Rightarrow> do {
        f \<leftarrow> openUnderPathFlags H dir parent O_DIRECTORY 0 1;
        ret (case f of Inl e \<Rightarrow> Inl e | Inr f \<Rightarrow> Inr (f, leaf)) })"

text \<open>\<^verbatim>\<open>platformMutationLeaf\<close> returns its leaf on Linux.\<close>

definition parentUnder :: "'w p2host \<Rightarrow> fileid \<Rightarrow> string \<Rightarrow> ('w p2, goerr + (fileid \<times> string)) state" where
  "parentUnder H dir name = parentUnderRaw H dir name"

section \<open>Metadata\<close>

definition statFile :: "'w p2host \<Rightarrow> fileid \<Rightarrow> ('w p2, goerr + finfo) state" where
  "statFile H f = osStat H f"

definition platformStatUnderPathFlags :: "'w p2host \<Rightarrow> fileid \<Rightarrow> string \<Rightarrow> bool \<Rightarrow> ('w p2, goerr + finfo) state" where
  "platformStatUnderPathFlags H dir name follow = do {
     f \<leftarrow> platformOpenUnderPathFlags H dir name metadataHandleFlag 0 follow;
     case f of
       Inl e \<Rightarrow> ret (Inl e)
     | Inr f \<Rightarrow> do { r \<leftarrow> statFile H f; _ \<leftarrow> osClose H f; ret r } }"

definition statUnderPathFlags :: "'w p2host \<Rightarrow> fileid \<Rightarrow> string \<Rightarrow> u32 \<Rightarrow> ('w p2, goerr + finfo) state" where
  "statUnderPathFlags H dir name pathFlags = (case checkPath name pathFlags of
      Inl e \<Rightarrow> ret (Inl e)
    | Inr name \<Rightarrow> platformStatUnderPathFlags H dir name (pathFlags AND 1 \<noteq> 0))"

definition statMetadataLeaf :: "'w p2host \<Rightarrow> fileid \<Rightarrow> string \<Rightarrow> ('w p2, goerr + finfo) state" where
  "statMetadataLeaf H dir name = do {
     f \<leftarrow> osOpenat H dir name metadataHandleFlag 0;
     case f of
       Inl e \<Rightarrow> ret (Inl e)
     | Inr f \<Rightarrow> do { r \<leftarrow> statFile H f; _ \<leftarrow> osClose H f; ret r } }"

text \<open>\<^verbatim>\<open>readlinkUnder\<close>: the buffer has \<open>2 ^ i\<close> bytes, from 4 KiB to 16 MiB.\<close>

function readlinkLoop :: "'w p2host \<Rightarrow> fileid \<Rightarrow> string \<Rightarrow> nat \<Rightarrow> ('w p2, goerr + string) state" where
  "readlinkLoop H p name i = do {
     r \<leftarrow> readlinkTargetAt H p name (2 ^ i);
     case r of
       Inl e \<Rightarrow> ret (Inl e)
     | Inr target \<Rightarrow>
         if length target < 2 ^ i then ret (if isAbs target then Inl (Errno EPERM) else Inr target)
         else if i \<ge> 24 then ret (Inl (Errno ENAMETOOLONG))
         else readlinkLoop H p name (Suc i) }"
  by pat_completeness auto
termination readlinkLoop
  by (relation "measure (\<lambda>(H, p, name, i). 24 - i)") auto

declare readlinkLoop.simps [simp del]

definition readlinkUnder :: "'w p2host \<Rightarrow> fileid \<Rightarrow> string \<Rightarrow> ('w p2, goerr + string) state" where
  "readlinkUnder H dir path = do {
     r \<leftarrow> parentUnder H dir path;
     case r of
       Inl e \<Rightarrow> ret (Inl e)
     | Inr (p, name) \<Rightarrow> do {
         t \<leftarrow> readlinkLoop H p name 12;
         _ \<leftarrow> osClose H p;
         ret t } }"

definition symlinkUnder :: "'w p2host \<Rightarrow> fileid \<Rightarrow> string \<Rightarrow> string \<Rightarrow> ('w p2, goerr option) state" where
  "symlinkUnder H dir oldPath newPath =
     (if isAbs oldPath then ret (Some (Errno EPERM))
      else do {
        r \<leftarrow> parentUnder H dir newPath;
        case r of
          Inl e \<Rightarrow> ret (Some e)
        | Inr (p, name) \<Rightarrow> do {
            e \<leftarrow> osDo H (Os (HSymlinkat oldPath p name));
            _ \<leftarrow> osClose H p;
            ret e } })"

section \<open>Times\<close>

text \<open>\<^verbatim>\<open>hostStat\<close>: link count, access, modification and change time, device, inode.\<close>

definition statTime :: "u64 \<Rightarrow> u64 \<Rightarrow> time" where
  "statTime sec nsec = sint sec * 1000000000 + sint nsec"

definition hostStat2 :: "finfo \<Rightarrow> u64 \<times> time \<times> time \<times> time \<times> u64 \<times> u64" where
  "hostStat2 info = (case fi_sys info of
      Some st \<Rightarrow> (st_nlink st, statTime (st_atim_sec st) (st_atim_nsec st), fi_mtime info,
        statTime (st_ctim_sec st) (st_ctim_nsec st), st_dev st, st_ino st)
    | None \<Rightarrow> (1, fi_mtime info, fi_mtime info, fi_mtime info, 0, 0))"

definition parseTime :: "'w p2host \<Rightarrow> val \<Rightarrow> time \<Rightarrow> ('w p2, goerr + (time \<times> bool)) state" where
  "parseTime H v current = (case v of
      VVariant disc payload \<Rightarrow>
        if disc = 0 then ret (Inr (current, False))
        else if disc = 1 then do { r \<leftarrow> p2Call H Wall; ret (Inr (asTime r, True)) }
        else if disc = 2 then ret (case payload of
            VList [x, y] \<Rightarrow> (case (x, y) of
                (VU64 seconds, VU32 nanos) \<Rightarrow>
                  if seconds > 0x7FFFFFFFFFFFFFFF \<or> nanos \<ge> 1000000000 then Inl (Errno EOVERFLOW)
                  else Inr (int (unat seconds) * 1000000000 + int (unat nanos), True)
              | _ \<Rightarrow> Inl (Errno EOVERFLOW))
          | _ \<Rightarrow> Inl (Errno EINVAL))
        else ret (Inl (Errno EINVAL))
    | _ \<Rightarrow> ret (Inl (OtherError ''new-timestamp'')))"

definition requestedTimes2 :: "'w p2host \<Rightarrow> val \<Rightarrow> val \<Rightarrow> finfo \<Rightarrow> ('w p2, goerr + (time \<times> time \<times> bool)) state" where
  "requestedTimes2 H access modification info = (case hostStat2 info of (nlink, currentAccess, currentModification, r) \<Rightarrow> do {
     a \<leftarrow> parseTime H access currentAccess;
     case a of
       Inl e \<Rightarrow> ret (Inl e)
     | Inr (at, ac) \<Rightarrow> do {
         m \<leftarrow> parseTime H modification currentModification;
         ret (case m of Inl e \<Rightarrow> Inl e | Inr (mt, mc) \<Rightarrow> Inr (at, mt, ac \<or> mc)) } })"

text \<open>\<^verbatim>\<open>TimeToTimespec\<close> fails when the seconds do not fit.\<close>

definition timespecOk :: "time \<Rightarrow> bool" where
  "timespecOk t \<longleftrightarrow> - (2 ^ 63) \<le> secondsOf t \<and> secondsOf t < 2 ^ 63"

definition setTimes :: "'w p2host \<Rightarrow> fileid \<Rightarrow> string \<Rightarrow> bool \<Rightarrow> time \<Rightarrow> time \<Rightarrow> ('w p2, goerr option) state" where
  "setTimes H f name nofollow at mt =
     (if \<not> timespecOk at \<or> \<not> timespecOk mt then ret (Some (Errno EOVERFLOW))
      else osDo H (Os (HUtimes f name at mt nofollow)))"

definition setFileTimes2 :: "'w p2host \<Rightarrow> fileid \<Rightarrow> time \<Rightarrow> time \<Rightarrow> ('w p2, goerr option) state" where
  "setFileTimes2 H f at mt = setTimes H f [] False at mt"

definition setMetadataTimes :: "'w p2host \<Rightarrow> fileid \<Rightarrow> time \<Rightarrow> time \<Rightarrow> ('w p2, goerr option) state" where
  "setMetadataTimes H f at mt = setTimes H f [] True at mt"

definition setDescriptorTimes :: "'w p2host \<Rightarrow> fileid \<Rightarrow> val \<Rightarrow> val \<Rightarrow> ('w p2, goerr option) state" where
  "setDescriptorTimes H f access modification = do {
     info \<leftarrow> osStat H f;
     case info of
       Inl e \<Rightarrow> ret (Some e)
     | Inr info \<Rightarrow> do {
         r \<leftarrow> requestedTimes2 H access modification info;
         case r of
           Inl e \<Rightarrow> ret (Some e)
         | Inr (at, mt, changed) \<Rightarrow> if \<not> changed then ret None else setFileTimes2 H f at mt } }"

definition fallbackLeaf :: "'w p2host \<Rightarrow> bool \<Rightarrow> time \<Rightarrow> time \<Rightarrow> fileid \<Rightarrow> string \<Rightarrow> ('w p2, goerr + finfo) state" where
  "fallbackLeaf H follow at mt parent leaf = do {
     info \<leftarrow> statMetadataLeaf H parent leaf;
     case info of
       Inl e \<Rightarrow> ret (Inl e)
     | Inr i \<Rightarrow>
         if follow \<and> fi_mode i AND modeSymlink \<noteq> 0 then ret (Inr i)
         else do {
           e \<leftarrow> osDo H (Os (HUtimes parent leaf at mt True));
           ret (case e of Some e \<Rightarrow> Inl e | None \<Rightarrow> Inr i) } }"

definition setTimesFallback :: "'w p2host \<Rightarrow> fileid \<Rightarrow> string \<Rightarrow> bool \<Rightarrow> time \<Rightarrow> time \<Rightarrow> ('w p2, goerr option) state" where
  "setTimesFallback H dir name follow at mt =
     (if \<not> timespecOk at \<or> \<not> timespecOk mt then ret (Some (Errno EOVERFLOW))
      else do {
        k \<leftarrow> gets p_fuel;
        r \<leftarrow> walkUnder k H dir 0 0 follow (Some (fallbackLeaf H follow at mt)) name 0;
        ret (case r of Inl e \<Rightarrow> Some e | Inr x \<Rightarrow> None) })"

definition setTimesUnderPathFlagsLinux :: "'w p2host \<Rightarrow> fileid \<Rightarrow> string \<Rightarrow> bool \<Rightarrow> val \<Rightarrow> val \<Rightarrow> ('w p2, goerr option) state" where
  "setTimesUnderPathFlagsLinux H dir name follow access modification = do {
     f \<leftarrow> platformOpenUnderPathFlags H dir name metadataHandleFlag 0 follow;
     case f of
       Inl e \<Rightarrow> ret (Some e)
     | Inr f \<Rightarrow> do {
         info \<leftarrow> osStat H f;
         e \<leftarrow> (case info of
             Inl e \<Rightarrow> ret (Some e)
           | Inr info \<Rightarrow> do {
               r \<leftarrow> requestedTimes2 H access modification info;
               case r of
                 Inl e \<Rightarrow> ret (Some e)
               | Inr (at, mt, changed) \<Rightarrow>
                   if \<not> changed then ret None
                   else do {
                     err \<leftarrow> setMetadataTimes H f at mt;
                     case err of
                       None \<Rightarrow> ret None
                     | Some e \<Rightarrow>
                         if errorsIs e (Errno EINVAL) \<or> errorsIs e (Errno ENOENT) \<or> errorsIs e (Errno ENOSYS)
                         then setTimesFallback H dir name follow at mt
                         else ret (Some e) } });
         _ \<leftarrow> osClose H f;
         ret e } }"

definition setTimesUnderPathFlags :: "'w p2host \<Rightarrow> fileid \<Rightarrow> string \<Rightarrow> u32 \<Rightarrow> val \<Rightarrow> val \<Rightarrow> ('w p2, goerr option) state" where
  "setTimesUnderPathFlags H dir name pathFlags access modification = (case checkPath name pathFlags of
      Inl e \<Rightarrow> ret (Some e)
    | Inr name \<Rightarrow> setTimesUnderPathFlagsLinux H dir name (pathFlags AND 1 \<noteq> 0) access modification)"

section \<open>Names\<close>

lemma join_Cons: "join (p # ps) = p @ (if ps = [] then [] else CHR ''/'' # join ps)"
  by (cases ps) (simp_all add: join_def)

lemma split_on_join:
  "ps \<noteq> [] \<Longrightarrow> \<forall>p\<in>set ps. CHR ''/'' \<notin> set p \<Longrightarrow> split_on (CHR ''/'') (join ps) = ps"
proof (induction ps)
  case (Cons p ps)
  then show ?case
    by (cases "ps = []") (simp_all add: join_Cons split_on_no_sep_id split_on_append_sep)
qed simp

lemma leafIndex_Some:
  "leafIndex ps = Some i \<Longrightarrow> i < length ps \<and> ps ! i \<noteq> [] \<and> ps ! i \<noteq> ''.'' \<and> (\<forall>d\<in>set (drop (Suc i) ps). d = [] \<or> d = ''.'')"
proof (induction ps arbitrary: i)
  case (Cons p ps)
  have "\<forall>d\<in>set ps. d = [] \<or> d = ''.''" if "leafIndex ps = None"
    using that by (induction ps) (auto split: option.splits if_splits)
  with Cons show ?case by (fastforce split: option.splits if_splits)
qed simp

lemma splitLeaf_dotted: "splitLeaf name = Inr (parent, leaf) \<Longrightarrow> dotted leaf"
proof -
  assume l: "splitLeaf name = Inr (parent, leaf)"
  let ?ps = "split_on (CHR ''/'') name"
  from l obtain i where i: "leafIndex ?ps = Some i" "?ps ! i \<noteq> ''..''" "leaf = join (drop i ?ps)"
    by (auto simp: splitLeaf_def Let_def split: if_splits option.splits)
  note li = leafIndex_Some [OF i(1)]
  have noslash: "CHR ''/'' \<notin> set p" if "p \<in> set ?ps" for p using that by (rule split_on_no_sep)
  have d: "drop i ?ps = ?ps ! i # drop (Suc i) ?ps" using li by (simp add: Cons_nth_drop_Suc)
  have "split_on (CHR ''/'') leaf = drop i ?ps"
    unfolding i(3) using noslash li by (intro split_on_join) (auto dest: in_set_dropD)
  then show ?thesis
    using li i(2) noslash [of "?ps ! i"] by (auto simp: dotted_def d component_def)
qed

lemma dotted_component: "component c \<Longrightarrow> c \<noteq> ''.'' \<Longrightarrow> dotted c"
  by (simp add: dotted_def component_def split_on_no_sep_id)

section \<open>Opens stay beneath the mount and leave no file behind\<close>

fun atRoot :: "nat \<Rightarrow> goerr + fileid \<Rightarrow> bool" where
  "atRoot k (Inl e) = True"
| "atRoot k (Inr f) = (fst f = k)"

text \<open>The files to close after an open with result \<open>r\<close>.\<close>

fun held :: "goerr + fileid \<Rightarrow> fileid set \<Rightarrow> fileid set" where
  "held (Inl e) F = F"
| "held (Inr f) F = insert f F"

lemma held_drop: "held r (insert c F) - {c} \<subseteq> held r F"
  by (cases r) auto

abbreviation opens :: "authority2 \<Rightarrow> nat \<Rightarrow> fileid set \<Rightarrow> nat \<Rightarrow> ('w p2, goerr + fileid) state \<Rightarrow> bool" where
  "opens A b F k m \<equiv> triple (Inv2 A b F) m (\<lambda>r. Inv2 A b (held r F)) (atRoot k)"

lemma Inv2_grow: "Inv2 A b F s \<Longrightarrow> F \<subseteq> F' \<Longrightarrow> Inv2 A b F' s"
  unfolding Inv2_def by blast

lemma triple_pre2: "triple (Inv2 A b F') m Q R \<Longrightarrow> F \<subseteq> F' \<Longrightarrow> triple (Inv2 A b F) m Q R"
  unfolding triple_def by (blast intro: Inv2_grow)

lemma openOk2_extra [simp]:
  "openOk2 A d (flags OR O_NOFOLLOW) = openOk2 A d flags" "openOk2 A d (flags OR O_CLOEXEC) = openOk2 A d flags"
  "openOk2 A d (flags OR 0xA0000) = openOk2 A d flags"
  "openOk2 A d O_DIRECTORY" "openOk2 A d metadataHandleFlag" "openOk2 A d 0"
  by (simp_all add: openOk2_def metadataHandleFlag_def bit.conj_disj_distrib2)

lemma openOk2_fst: "openOk2 A d flags \<Longrightarrow> fst e = fst d \<Longrightarrow> openOk2 A e flags"
  by (simp add: openOk2_def grants_def)

lemma openFlagBits_nofollow [simp]: "(flags OR 0xA0000) AND O_NOFOLLOW \<noteq> (0 :: u64)"
proof -
  have "(flags OR 0xA0000) AND O_NOFOLLOW = (flags AND O_NOFOLLOW) OR O_NOFOLLOW"
    by (simp add: bit.conj_disj_distrib2)
  then show ?thesis by (simp add: or_eq_0_iff)
qed

lemma opens_osOpen: "(\<And>n. allowedOs A (mk (root, n))) \<Longrightarrow> opens A b F root (osOpen H root mk)"
  by (auto simp: triple_def wp_simps Inv2_def osOpen_def split: prod.splits option.splits)

lemma opens_dupFile [p2vcg]: "opens A b F (fst f) (dupFile H f)"
  unfolding dupFile_def by (rule opens_osOpen) simp

lemma opens_osOpenat [p2vcg]:
  "component name \<Longrightarrow> openOk2 A d flags \<Longrightarrow> opens A b F (fst d) (osOpenat H d name flags mode)"
  unfolding osOpenat_def by (rule opens_osOpen) (simp add: openOk2_fst)

lemma component_dot [simp]: "component ''.''" by (simp add: component_def)

lemma opens_openParts:
  "\<forall>p\<in>set parts. component p \<Longrightarrow> openOk2 A cur flags \<Longrightarrow> fst cur = k \<Longrightarrow>
     triple (Inv2 A b (insert cur F)) (openParts H flags mode cur parts :: ('w p2, goerr + fileid) state)
       (\<lambda>r. Inv2 A b (held r F)) (atRoot k)"
proof (induction parts arbitrary: cur rule: induct_list012)
  case 1
  then show ?case by (simp add: triple_return2)
next
  case (2 part)
  then show ?case
    apply simp
    apply (rule p2vcg | simp add: held_drop)+
    done
next
  case (3 part q parts)
  show ?case
    using "3.prems" unfolding openParts.simps
    apply -
    apply (rule p2vcg | rule triple_pre2 [OF "3.IH"(2)] | simp add: openOk2_fst [of A cur] | blast)+
    done
qed

lemma dirname_split: "splitRelative name = Inr parts \<Longrightarrow> \<forall>p\<in>set parts. CHR ''/'' \<notin> set p"
  by (auto simp: splitRelative_def Let_def split: if_splits dest: split_on_no_sep)

text \<open>A walk keeps the file it returns, or none.\<close>

fun heldWalk :: "goerr + pathWalkResult \<Rightarrow> fileid set \<Rightarrow> fileid set" where
  "heldWalk (Inr (WalkFile f)) F = insert f F"
| "heldWalk _ F = F"

fun walkRoot :: "bool \<Rightarrow> nat \<Rightarrow> goerr + pathWalkResult \<Rightarrow> bool" where
  "walkRoot w k (Inr (WalkFile f)) = (w \<and> fst f = k)"
| "walkRoot w k _ = True"

fun heldStep :: "walkStep \<Rightarrow> fileid set \<Rightarrow> fileid set" where
  "heldStep (WalkDone r) F = heldWalk r F"
| "heldStep (Restart n k) F = F"

fun stepRoot :: "bool \<Rightarrow> nat \<Rightarrow> walkStep \<Rightarrow> bool" where
  "stepRoot w k (WalkDone r) = walkRoot w k r"
| "stepRoot w k (Restart n i) = True"

definition leafOk :: "authority2 \<Rightarrow> nat \<Rightarrow> nat \<Rightarrow> 'w statLeaf \<Rightarrow> bool" where
  "leafOk A b k statLeaf \<longleftrightarrow> (\<forall>sl cur part F. statLeaf = Some sl \<longrightarrow> fst cur = k \<longrightarrow> component part \<longrightarrow> keeps A b F (sl cur part) (\<lambda>_. True))"

lemma leafOk_None [simp]: "leafOk A b k None" by (simp add: leafOk_def)

fun heldOpen :: "goerr + (pathWalkResult + goerr) \<Rightarrow> fileid set \<Rightarrow> fileid set" where
  "heldOpen (Inr (Inl w)) F = heldWalk (Inr w) F"
| "heldOpen _ F = F"

fun openRoot :: "bool \<Rightarrow> nat \<Rightarrow> goerr + (pathWalkResult + goerr) \<Rightarrow> bool" where
  "openRoot w k (Inr (Inl x)) = walkRoot w k (Inr x)"
| "openRoot w k _ = True"

lemma opens_openComponent:
  assumes "component part" and "openOk2 A cur flags" and "leafOk A b k statLeaf" and "fst cur = k"
  shows "triple (Inv2 A b F) (openComponent H statLeaf flags mode follow isLast cur part) (\<lambda>r. Inv2 A b (heldOpen r F)) (openRoot (isLast \<longrightarrow> statLeaf = None) k)"
proof -
  have sl: "keeps A b F (sl cur part) (\<lambda>_. True)" if "(if isLast then statLeaf else None) = Some sl" for sl
    using that assms unfolding leafOk_def by (metis option.distinct(1))
  show ?thesis
    using assms unfolding openComponent_def
    apply -
    apply (rule p2vcg sl | assumption | simp split: sum.split | (auto; fail))+
    done
qed

lemma keeps_readlinkTargetAt [p2vcg]: "dotted name \<Longrightarrow> keeps A b F (readlinkTargetAt H d name n) (\<lambda>_. True)"
  unfolding readlinkTargetAt_def by (rule p2vcg | simp)+

lemma heldStep_expandLink [simp]: "heldStep (expandLink i before rest l) F = F" "stepRoot w k (expandLink i before rest l)"
  by (auto simp: expandLink_def split: sum.splits)

lemma triple_case_walkResult [p2vcg]:
  "(\<And>f. x = WalkFile f \<Longrightarrow> triple P (m f) Q R) \<Longrightarrow> (\<And>i. x = WalkInfo i \<Longrightarrow> triple P (n i) Q R) \<Longrightarrow>
     triple P (case x of WalkFile f \<Rightarrow> m f | WalkInfo i \<Rightarrow> n i) Q R"
  by (cases x) auto

lemma triple_case_walkStep [p2vcg]:
  "(\<And>r. x = WalkDone r \<Longrightarrow> triple P (m r) Q R) \<Longrightarrow> (\<And>n i. x = Restart n i \<Longrightarrow> triple P (h n i) Q R) \<Longrightarrow>
     triple P (case x of WalkDone r \<Rightarrow> m r | Restart n i \<Rightarrow> h n i) Q R"
  by (cases x) auto

lemma opens_walkParts:
  "\<forall>p\<in>set parts. CHR ''/'' \<notin> set p \<Longrightarrow> openOk2 A cur flags \<Longrightarrow> leafOk A b k statLeaf \<Longrightarrow> fst cur = k \<Longrightarrow>
     triple (Inv2 A b (insert cur F)) (walkParts H statLeaf flags mode follow symlinks before parts cur :: ('w p2, walkStep) state)
       (\<lambda>r. Inv2 A b (heldStep r F)) (stepRoot (statLeaf = None) k)"
proof (induction parts arbitrary: before cur)
  case Nil
  have sl: "keeps A b (insert cur F) (sl cur ''.'') (\<lambda>_. True)" if "statLeaf = Some sl" for sl
    using Nil.prems that component_dot unfolding leafOk_def by blast
  have drop: "heldWalk (map_sum id WalkFile r) F = held r F" "walkRoot True k (map_sum id WalkFile r) = atRoot k r"
    "heldWalk (map_sum id WalkInfo i) F = F" "walkRoot w k (map_sum id WalkInfo i)" for r i w
    by (cases r; cases i; simp)+
  show ?case
    using Nil unfolding walkParts.simps
    apply -
    apply (rule p2vcg sl | assumption | simp add: drop held_drop | blast)+
    done
next
  case (Cons part rest)
  have IH: "triple (Inv2 A b F') (walkParts H statLeaf flags mode follow symlinks before' rest f :: ('w p2, walkStep) state)
       (\<lambda>r. Inv2 A b (heldStep r F)) (stepRoot (statLeaf = None) k)" if "fst f = k" "F' \<subseteq> insert f F" for f F' before'
    using Cons.prems that by (intro triple_pre2 [OF Cons.IH]) (auto intro: openOk2_fst)
  have comp: "component part" "dotted part" if "part \<noteq> []" "part \<noteq> ''.''" "part \<noteq> ''..''"
    using Cons.prems(1) that dotted_component [of part] by (simp_all add: component_def)
  show ?case
    using Cons.prems unfolding walkParts.simps
    apply -
    apply (rule opens_openComponent IH p2vcg | assumption | simp add: comp split: sum.split | blast)+
    done
qed


lemma opens_walkUnder:
  "openOk2 A dir flags \<Longrightarrow> leafOk A b (fst dir) statLeaf \<Longrightarrow>
     triple (Inv2 A b F) (walkUnder n H dir flags mode follow statLeaf name symlinks :: ('w p2, goerr + pathWalkResult) state)
       (\<lambda>r. Inv2 A b (heldWalk r F)) (walkRoot (statLeaf = None) (fst dir))"
proof (induction n arbitrary: name symlinks)
  case 0
  show ?case unfolding walkUnder.simps by (rule p2vcg | simp)+
next
  case (Suc n)
  have parts: "\<forall>p\<in>set (split_on (CHR ''/'') name). CHR ''/'' \<notin> set p" by (auto dest: split_on_no_sep)
  show ?case
    using Suc.prems unfolding walkUnder.simps
    apply -
    apply (rule opens_walkParts [OF parts] Suc.IH p2vcg | assumption | simp add: openOk2_fst [of A dir] | (auto; fail))+
    done
qed

lemma walkFile_held:
  "held (case r of Inl e \<Rightarrow> Inl e | Inr (WalkFile f) \<Rightarrow> Inr f | Inr (WalkInfo i) \<Rightarrow> Inl badReply) F = heldWalk r F"
  "atRoot k (case r of Inl e \<Rightarrow> Inl e | Inr (WalkFile f) \<Rightarrow> Inr f | Inr (WalkInfo i) \<Rightarrow> Inl badReply) = walkRoot True k r"
  by (cases r; simp split: pathWalkResult.split)+

lemma opens_openUnderWalk [p2vcg]:
  "openOk2 A dir flags \<Longrightarrow> opens A b F (fst dir) (openUnderWalk H dir name flags mode follow)"
  unfolding openUnderWalk_def
  by (rule opens_walkUnder p2vcg | assumption | simp add: walkFile_held)+

lemma openOk2_nofollow: "openOk2 A dir flags \<Longrightarrow> openOk2 A dir (if \<not> follow then flags OR O_NOFOLLOW else flags)"
  by simp

lemma opens_platformOpenUnderPathFlags [p2vcg]:
  "openOk2 A dir flags \<Longrightarrow> opens A b F (fst dir) (platformOpenUnderPathFlags H dir name flags mode follow)"
  unfolding platformOpenUnderPathFlags_def
  apply (rule opens_osOpen p2vcg | assumption | simp add: openOk2_fst [of A dir] openOk2_nofollow split del: if_split)+
  done

lemma opens_openUnderPathFlags [p2vcg]:
  "openOk2 A dir flags \<Longrightarrow> opens A b F (fst dir) (openUnderPathFlags H dir name flags mode pathFlags)"
  unfolding openUnderPathFlags_def by (rule p2vcg | assumption | simp)+

text \<open>\<^verbatim>\<open>parentUnder\<close> returns a directory of the same mount, which the caller closes, and a dotted name.\<close>

fun heldLeaf :: "goerr + (fileid \<times> string) \<Rightarrow> fileid set \<Rightarrow> fileid set" where
  "heldLeaf (Inl e) F = F"
| "heldLeaf (Inr p) F = insert (fst p) F"

fun leafRoot :: "nat \<Rightarrow> goerr + (fileid \<times> string) \<Rightarrow> bool" where
  "leafRoot k (Inl e) = True"
| "leafRoot k (Inr p) = (fst (fst p) = k \<and> dotted (snd p))"

lemma leafPair_held:
  "heldLeaf (case r of Inl e \<Rightarrow> Inl e | Inr f \<Rightarrow> Inr (f, leaf)) F = held r F"
  "leafRoot k (case r of Inl e \<Rightarrow> Inl e | Inr f \<Rightarrow> Inr (f, leaf)) \<longleftrightarrow> atRoot k r \<and> (\<not> dotted leaf \<longrightarrow> isl r)"
  by (cases r; simp)+

lemma opens_parentUnder [p2vcg]:
  "triple (Inv2 A b F) (parentUnder H dir name) (\<lambda>r. Inv2 A b (heldLeaf r F)) (leafRoot (fst dir))"
  unfolding parentUnder_def parentUnderRaw_def
  apply (rule p2vcg | assumption | simp add: leafPair_held splitLeaf_dotted)+
  done

lemma keeps_statFile [p2vcg]: "keeps A b F (statFile H f) (\<lambda>_. True)"
  unfolding statFile_def by (rule p2vcg)


lemma keeps_statUnderPathFlags [p2vcg]: "keeps A b F (statUnderPathFlags H dir name pathFlags) (\<lambda>_. True)"
  unfolding statUnderPathFlags_def platformStatUnderPathFlags_def by (rule p2vcg | simp | blast)+

lemma keeps_statMetadataLeaf [p2vcg]: "component name \<Longrightarrow> keeps A b F (statMetadataLeaf H dir name) (\<lambda>_. True)"
  unfolding statMetadataLeaf_def by (rule p2vcg | simp | blast)+

lemma keeps_readlinkLoop [p2vcg]: "dotted name \<Longrightarrow> keeps A b F (readlinkLoop H p name i) (\<lambda>_. True)"
proof (induction H p name i rule: readlinkLoop.induct)
  case (1 H p name i)
  have IH: "keeps A b F (readlinkLoop H p name (Suc i)) (\<lambda>_. True)"
    if "\<not> length t < 2 ^ i" "\<not> 24 \<le> i" for t :: string
    using "1.IH" [of "Inr t" t] that "1.prems" by simp
  show ?case
    using "1.prems" by (subst readlinkLoop.simps) (rule p2vcg IH | assumption | simp | blast)+
qed

lemma keeps_readlinkUnder [p2vcg]: "keeps A b F (readlinkUnder H dir path) (\<lambda>_. True)"
  unfolding readlinkUnder_def by (rule p2vcg | simp | blast)+

lemma keeps_symlinkUnder [p2vcg]: "grants A dir 32 \<Longrightarrow> keeps A b F (symlinkUnder H dir oldPath newPath) (\<lambda>_. True)"
  unfolding symlinkUnder_def by (rule p2vcg | simp add: isAbs_def grants_def | blast)+

lemma keeps_parseTime [p2vcg]: "keeps A b F (parseTime H v t) (\<lambda>_. True)"
  unfolding parseTime_def by (rule p2vcg | simp)+

lemma keeps_requestedTimes2 [p2vcg]: "keeps A b F (requestedTimes2 H access modification info) (\<lambda>_. True)"
  unfolding requestedTimes2_def by (rule p2vcg | simp)+

lemma keeps_setTimes [p2vcg]: "allowedOs A (HUtimes f name at mt nofollow) \<Longrightarrow> keeps A b F (setTimes H f name nofollow at mt) (\<lambda>_. True)"
  unfolding setTimes_def by (rule p2vcg | simp)+

lemma keeps_setDescriptorTimes [p2vcg]:
  "grants A f 2 \<or> grants A f 32 \<Longrightarrow> keeps A b F (setDescriptorTimes H f access modification) (\<lambda>_. True)"
  unfolding setDescriptorTimes_def setFileTimes2_def by (rule p2vcg | simp)+

lemma heldWalk_none: "walkRoot False k r \<Longrightarrow> heldWalk r F = F"
  by (cases "(False, k, r)" rule: walkRoot.cases) auto

lemma leafOk_fallback: "grants A dir 32 \<Longrightarrow> leafOk A b (fst dir) (Some (fallbackLeaf H follow at mt))"
  unfolding leafOk_def fallbackLeaf_def
  apply clarify
  apply (rule p2vcg | simp add: component_def grants_def)+
  done

lemma keeps_setTimesFallback [p2vcg]:
  "grants A dir 32 \<Longrightarrow> keeps A b F (setTimesFallback H dir name follow at mt) (\<lambda>_. True)"
  unfolding setTimesFallback_def
  by (rule opens_walkUnder leafOk_fallback p2vcg | assumption | simp add: heldWalk_none)+

lemma keeps_setTimesUnderPathFlags [p2vcg]:
  "grants A dir 32 \<Longrightarrow> keeps A b F (setTimesUnderPathFlags H dir name pathFlags access modification) (\<lambda>_. True)"
  unfolding setTimesUnderPathFlags_def setTimesUnderPathFlagsLinux_def setMetadataTimes_def
  apply (rule keeps_ret p2vcg | simp add: grants_def)+
  done

end
