(* ===== verification/Path_Walk.thy ===== *)
theory Path_Walk
  imports P2_Paths
begin

text \<open>
  Termination of the component walk of \<^verbatim>\<open>walkUnder\<close>. The walk restarts from the base directory whenever it meets a
  parent step or expands a link, so the loop has no structural bound. Every restart decreases the number of
  links that may still be expanded, or keeps it and removes one parent step; an expanded link brings in fewer
  than 4096 new ones. Cleaning a prefix without parent steps creates none, which is the lexical fact that the
  argument rests on.
\<close>

section \<open>Parent steps of a path\<close>

definition parentSteps :: "string \<Rightarrow> nat" where
  "parentSteps s = length (filter ((=) ''..'') (split_on (CHR ''/'') s))"

lemma split_on_append: "split_on c (a @ c # b) = split_on c a @ split_on c b"
proof (induction a)
  case (Cons x a)
  then show ?case by (cases "split_on c a") auto
qed simp

lemma parentSteps_append [simp]: "parentSteps (a @ CHR ''/'' # b) = parentSteps a + parentSteps b"
  by (simp add: parentSteps_def split_on_append)

lemma parentSteps_slash [simp]: "parentSteps (CHR ''/'' # b) = parentSteps b" "parentSteps [] = 0" "parentSteps ''.'' = 0"
  by (simp_all add: parentSteps_def)

lemma parentSteps_name: "CHR ''/'' \<notin> set c \<Longrightarrow> parentSteps c = (if c = ''..'' then 1 else 0)"
  by (auto simp: parentSteps_def split_on_no_sep_id)

lemma parentSteps_join: "\<forall>p\<in>set ps. CHR ''/'' \<notin> set p \<Longrightarrow> parentSteps (join ps) = length (filter ((=) ''..'') ps)"
  by (cases "ps = []") (simp_all add: parentSteps_def split_on_join, simp add: join_def)

lemma length_split_on: "length (concat (split_on c s)) \<le> length s"
proof (induction s)
  case (Cons x s)
  then show ?case by (cases "split_on c s") auto
qed simp

lemma parentSteps_le: "parentSteps s \<le> length s"
proof -
  have "length (filter ((=) ''..'') xs) \<le> length (concat xs)" for xs by (induction xs) auto
  then show ?thesis using length_split_on [of "CHR ''/''" s] unfolding parentSteps_def by (meson le_trans)
qed

lemma parentSteps_span:
  "parentSteps s = (if takeWhile (\<lambda>c. c \<noteq> CHR ''/'') s = ''..'' then 1 else 0) + parentSteps (dropWhile (\<lambda>c. c \<noteq> CHR ''/'') s)"
proof (cases "dropWhile (\<lambda>c. c \<noteq> CHR ''/'') s")
  case Nil
  then have "CHR ''/'' \<notin> set s" by (simp add: dropWhile_eq_Nil_conv) blast
  moreover have "takeWhile (\<lambda>c. c \<noteq> CHR ''/'') s = s"
    using takeWhile_dropWhile_id [of "\<lambda>c. c \<noteq> CHR ''/''" s] Nil by simp
  ultimately show ?thesis unfolding Nil by (simp only: parentSteps_slash parentSteps_name add_0_right not_False_eq_True)
next
  case (Cons x r)
  let ?c = "takeWhile (\<lambda>c. c \<noteq> CHR ''/'') s"
  have x: "x = CHR ''/''" using Cons hd_dropWhile [of "\<lambda>c. c \<noteq> CHR ''/''" s] by simp
  have s: "s = ?c @ CHR ''/'' # r" using takeWhile_dropWhile_id [of "\<lambda>c. c \<noteq> CHR ''/''" s] Cons x by simp
  have "CHR ''/'' \<notin> set ?c" by (auto dest: set_takeWhileD)
  then have "parentSteps ?c = (if ?c = ''..'' then 1 else 0)" by (rule parentSteps_name)
  then show ?thesis using Cons x parentSteps_append [of ?c r] s by simp
qed

section \<open>Cleaning creates no parent steps\<close>

lemma parent_first:
  assumes "take 2 s = ''..''" and "atEnd (drop 2 s)"
  shows "parentSteps s \<noteq> 0"
proof -
  have s: "s = ''..'' @ drop 2 s" using assms(1) append_take_drop_id [of 2 s] by simp
  have "takeWhile (\<lambda>c. c \<noteq> CHR ''/'') (drop 2 s) = []"
    using assms(2) unfolding atEnd_def by (cases "drop 2 s") auto
  then have "takeWhile (\<lambda>c. c \<noteq> CHR ''/'') s = ''..''" by (subst s) simp
  then show ?thesis using parentSteps_span [of s] by simp
qed

lemma parentSteps_cleanLoop:
  "parentSteps s = 0 \<Longrightarrow> parentSteps out = 0 \<Longrightarrow> (rooted \<Longrightarrow> out \<noteq> [] \<and> hd out = CHR ''/'') \<Longrightarrow>
     parentSteps (cleanLoop rooted s out d) = 0"
proof (induction s arbitrary: out rule: measure_induct_rule [of length])
  case (less s)
  let ?c = "takeWhile (\<lambda>c. c \<noteq> CHR ''/'') s" and ?r = "dropWhile (\<lambda>c. c \<noteq> CHR ''/'') s"
  show ?case
  proof (cases "s = [] \<or> hd s = CHR ''/'' \<or> hd s = CHR ''.'' \<and> atEnd (tl s)")
    case True
    show ?thesis
    proof (cases "s = []")
      case True
      then show ?thesis using less.prems(2) by (simp add: cleanLoop.simps)
    next
      case False
      then obtain x t where s: "s = x # t" by (cases s) auto
      have "parentSteps t = 0"
        using True less.prems(1) s parentSteps_span [of s] unfolding atEnd_def by (cases t) auto
      then have "parentSteps (cleanLoop rooted t out d) = 0" using less.IH less.prems s by simp
      moreover have "cleanLoop rooted s out d = cleanLoop rooted t out d" using True s by (subst cleanLoop.simps) auto
      ultimately show ?thesis by simp
    qed
  next
    case False
    then have conds: "s \<noteq> []" "hd s \<noteq> CHR ''/''" "\<not> (hd s = CHR ''.'' \<and> atEnd (tl s))" by simp_all
    from False have no: "\<not> (take 2 s = ''..'' \<and> atEnd (drop 2 s))" using parent_first less.prems(1) by blast
    define out' where "out' = (if rooted \<and> length out \<noteq> 1 \<or> \<not> rooted \<and> length out \<noteq> 0 then out @ ''/'' else out) @ ?c"
    have c: "?c \<noteq> ''..''" "parentSteps ?r = 0" using parentSteps_span [of s] less.prems(1) by (auto split: if_splits)
    have "CHR ''/'' \<notin> set ?c" by (auto dest: set_takeWhileD)
    then have pc: "parentSteps ?c = 0" using c(1) by (simp add: parentSteps_name)
    have "out = []  \<or> out = ''/''" if "\<not> (rooted \<and> length out \<noteq> 1 \<or> \<not> rooted \<and> length out \<noteq> 0)"
      using that less.prems(3) by (cases out) auto
    then have "parentSteps out' = 0" using less.prems(2) pc by (auto simp: out'_def)
    moreover have "rooted \<Longrightarrow> out' \<noteq> [] \<and> hd out' = CHR ''/''" using less.prems(3) by (auto simp: out'_def)
    moreover have "length ?r < length s" using False by (intro dropWhile_shorter) auto
    ultimately have "parentSteps (cleanLoop rooted ?r out' d) = 0" using less.IH c(2) by blast
    moreover have "cleanLoop rooted s out d = cleanLoop rooted ?r out' d"
      by (subst cleanLoop.simps) (simp only: conds no if_False out'_def)
    ultimately show ?thesis by simp
  qed
qed

lemma parentSteps_clean: "parentSteps p = 0 \<Longrightarrow> parentSteps (clean p) = 0"
  using parentSteps_cleanLoop [of p "[]" False 0] parentSteps_cleanLoop [of "tl p" "''/''" True 1]
  by (cases p) (auto simp: clean_def Let_def)

lemma parentSteps_pathDir: "parentSteps p = 0 \<Longrightarrow> parentSteps (pathDir p) = 0"
proof (cases "lastIndexByte p (CHR ''/'')")
  case (Some i)
  assume "parentSteps p = 0"
  from Some have i: "i < length p" "p ! i = CHR ''/''" by (auto dest: lastIndexByte_Some)
  then have "p = take i p @ CHR ''/'' # drop (Suc i) p" using id_take_nth_drop [of i p] by simp
  then have "parentSteps (take i p) = 0" using \<open>parentSteps p = 0\<close> parentSteps_append by (metis add_eq_0_iff_both_eq_0)
  then have "parentSteps (take (Suc i) p) = 0" using i by (simp add: take_Suc_conv_app_nth)
  then show ?thesis using Some by (simp add: pathDir_def parentSteps_clean)
next
  case None
  then show ?thesis unfolding pathDir_def by (simp only: option.case) (simp add: clean_def)
qed

section \<open>Restarts decrease the budget\<close>

definition walkBudget :: "nat \<Rightarrow> string \<Rightarrow> nat" where
  "walkBudget symlinks name = (40 - symlinks) * 4096 + parentSteps name"

definition shrinks :: "nat \<Rightarrow> nat \<Rightarrow> walkStep \<Rightarrow> bool" where
  "shrinks symlinks steps r = (case r of WalkDone x \<Rightarrow> True | Restart name i \<Rightarrow> walkBudget i name < (40 - symlinks) * 4096 + steps)"

lemma shrinks_Done [simp]: "shrinks i d (WalkDone x)" by (simp add: shrinks_def)

lemma shrinks_expandLink:
  assumes "length link < 4096" and "\<forall>p\<in>set (before @ rest). CHR ''/'' \<notin> set p" and "''..'' \<notin> set before"
  shows "shrinks i (length (filter ((=) ''..'') rest)) (expandLink i before rest link)"
proof -
  have "filter ((=) ''..'') before = []" using assms(3) by (auto simp: filter_empty_conv)
  then have b: "parentSteps (clean (join before)) = 0"
    using assms(2) by (intro parentSteps_clean) (simp add: parentSteps_join)
  have l: "parentSteps link < 4096" using parentSteps_le [of link] assms(1) by simp
  have r: "parentSteps (join rest) = length (filter ((=) ''..'') rest)" using assms(2) by (simp add: parentSteps_join)
  have e: "(40 - Suc i) * 4096 + 4096 = (40 - i) * 4096" if "Suc i \<le> 40" using that by (simp add: diff_mult_distrib)
  show ?thesis
    using b l r e by (auto simp: expandLink_def shrinks_def walkBudget_def normalizeSymlinkPath_def split: sum.splits if_splits)
qed

lemma shrinks_parent:
  assumes "\<forall>p\<in>set (before @ rest). CHR ''/'' \<notin> set p" and "''..'' \<notin> set before"
  shows "shrinks i (Suc (length (filter ((=) ''..'') rest))) (Restart (pathDir (clean (join before)) @ ''/'' @ join rest) i)"
proof -
  have "filter ((=) ''..'') before = []" using assms(2) by (auto simp: filter_empty_conv)
  then have "parentSteps (pathDir (clean (join before))) = 0"
    using assms(1) by (intro parentSteps_pathDir parentSteps_clean) (simp add: parentSteps_join)
  then show ?thesis using assms(1) by (simp add: shrinks_def walkBudget_def parentSteps_join)
qed

section \<open>The walk ends\<close>

text \<open>\<open>calm\<close>: the fuel of the state is not found exhausted during \<open>m\<close>.\<close>

abbreviation calm :: "bool \<Rightarrow> ('w p2, 'a) state \<Rightarrow> ('a \<Rightarrow> bool) \<Rightarrow> bool" where
  "calm v m R \<equiv> triple (\<lambda>s. p_stuck s = v) m (\<lambda>_ s. p_stuck s = v) R"

named_theorems steady \<open>triples of computations that use no fuel\<close>

lemmas [steady] = triple_bind triple_if triple_let triple_case_option triple_case_sum triple_case_prod triple_case_walkResult

lemma calm_ret [steady]: "R a \<Longrightarrow> calm v (ret a) R"
  by (simp add: triple_def wp_simps)

lemma calm_p2Call [steady]: "calm v (p2Call H c) (\<lambda>_. True)"
  by (auto simp: triple_def wp_simps split: prod.splits)

lemma calm_osOpen [steady]: "calm v (osOpen H root mk) (\<lambda>_. True)"
  by (auto simp: triple_def wp_simps osOpen_def split: prod.splits option.splits)

lemma calm_osClose [steady]: "calm v (osClose H f) (\<lambda>_. True)"
  by (auto simp: triple_def wp_simps osClose_def split: prod.splits)

lemma calm_osStat [steady]: "calm v (osStat H f) (\<lambda>_. True)"
  unfolding osStat_def by (rule steady | simp)+

lemma calm_osOpenat [steady]: "calm v (osOpenat H d name flags mode) (\<lambda>_. True)"
  unfolding osOpenat_def by (rule steady)

lemma calm_readlinkTargetAt [steady]: "calm v (readlinkTargetAt H d name n) (\<lambda>r. \<forall>t. r = Inr t \<longrightarrow> length t \<le> n)"
  unfolding readlinkTargetAt_def by (rule steady | simp split: sum.splits)+

lemma calm_openComponent:
  assumes "\<And>sl. statLeaf = Some sl \<Longrightarrow> calm v (sl cur part) (\<lambda>_. True)"
  shows "calm v (openComponent H statLeaf flags mode follow isLast cur part) (\<lambda>_. True)"
proof -
  have "calm v (sl cur part) (\<lambda>_. True)" if "(if isLast then statLeaf else None) = Some sl" for sl
    using that assms by (simp split: if_splits)
  then show ?thesis unfolding openComponent_def by - (rule steady | assumption | simp)+
qed

lemma calm_walkParts:
  assumes leaf: "\<And>sl cur part. statLeaf = Some sl \<Longrightarrow> calm v (sl cur part) (\<lambda>_. True)"
  shows "\<forall>p\<in>set (before @ parts). CHR ''/'' \<notin> set p \<Longrightarrow> ''..'' \<notin> set before \<Longrightarrow>
    calm v (walkParts H statLeaf flags mode follow i before parts cur :: ('w p2, walkStep) state)
      (shrinks i (length (filter ((=) ''..'') parts)))"
proof (induction parts arbitrary: before cur)
  case Nil
  show ?case unfolding walkParts.simps by (rule steady leaf | assumption | simp)+
next
  case (Cons part rest)
  define d where "d = length (filter ((=) ''..'') (part # rest))"
  have IH: "calm v (walkParts H statLeaf flags mode follow i (before @ [part]) rest f :: ('w p2, walkStep) state)
     (shrinks i d)" if "part \<noteq> ''..''" for f
    using Cons.IH [of "before @ [part]" f] Cons.prems that by (simp add: d_def)
  have link: "shrinks i d (expandLink i before rest l)"
    if "part \<noteq> ''..''" "length l \<le> 4096" for l
  proof (cases "length l = 4096")
    case True
    then show ?thesis by (simp add: expandLink_def)
  next
    case False
    then show ?thesis using shrinks_expandLink [of l before rest i] Cons.prems that by (simp add: d_def)
  qed
  have up: "shrinks i d (Restart (pathDir (clean (join before)) @ CHR ''/'' # join rest) i)"
    if "part = ''..''" using shrinks_parent [of before rest i] Cons.prems that by (simp add: d_def)
  show ?case
    unfolding walkParts.simps d_def [symmetric]
    apply -
    apply (rule calm_openComponent leaf IH link up steady | assumption | simp add: link up split: sum.split | force)+
    done
qed

lemma calm_walkUnder:
  assumes leaf: "\<And>sl cur part. statLeaf = Some sl \<Longrightarrow> calm v (sl cur part) (\<lambda>_. True)"
  shows "walkBudget i name < n \<Longrightarrow> calm v (walkUnder n H dir flags mode follow statLeaf name i :: ('w p2, goerr + pathWalkResult) state) (\<lambda>_. True)"
proof (induction n arbitrary: name i)
  case (Suc n)
  have parts: "\<forall>p\<in>set ([] @ split_on (CHR ''/'') name). CHR ''/'' \<notin> set p" by (auto dest: split_on_no_sep)
  have w: "calm v (walkParts H statLeaf flags mode follow i [] (split_on (CHR ''/'') name) cur :: ('w p2, walkStep) state)
      (shrinks i (parentSteps name))" for cur
    unfolding parentSteps_def using parts by (intro calm_walkParts leaf) simp_all
  have IH: "calm v (walkUnder n H dir flags mode follow statLeaf name' i' :: ('w p2, goerr + pathWalkResult) state) (\<lambda>_. True)"
    if "shrinks i (parentSteps name) (Restart name' i')" for name' i'
    using that Suc by (simp add: shrinks_def walkBudget_def)
  show ?case
    unfolding walkUnder.simps dupFile_def
    apply -
    apply (rule w IH steady triple_case_walkStep | assumption | simp)+
    done
qed simp


lemma calm_dupFile: "calm v (dupFile H f) (\<lambda>_. True)"
  unfolding dupFile_def by (rule steady)

lemma bind_cong_calm:
  "(\<And>v. calm v m R) \<Longrightarrow> (\<And>a. R a \<Longrightarrow> f a = g a) \<Longrightarrow> m \<bind> f = m \<bind> g"
proof -
  assume c: "\<And>v. calm v m R" and e: "\<And>a. R a \<Longrightarrow> f a = g a"
  have "f (fst (run_state m s)) = g (fst (run_state m s))" for s
    using triple_runD [OF c [of "p_stuck s"]] by (intro e) simp
  then have "run_state (m \<bind> f) = run_state (m \<bind> g)" by (simp add: fun_eq_iff split_beta)
  then show ?thesis by (metis state.expand)
qed

lemma walkUnder_more:
  "walkBudget i name < n \<Longrightarrow> n \<le> n' \<Longrightarrow>
     walkUnder n' H dir flags mode follow None name i = (walkUnder n H dir flags mode follow None name i :: ('w p2, goerr + pathWalkResult) state)"
proof (induction n arbitrary: name i n')
  case (Suc n)
  then obtain m where m: "n' = Suc m" "n \<le> m" by (cases n') auto
  have parts: "\<forall>p\<in>set ([] @ split_on (CHR ''/'') name). CHR ''/'' \<notin> set p" by (auto dest: split_on_no_sep)
  have w: "calm v (walkParts H None flags mode follow i [] (split_on (CHR ''/'') name) cur :: ('w p2, walkStep) state)
      (shrinks i (parentSteps name))" for cur v
    unfolding parentSteps_def using parts by (intro calm_walkParts) simp_all
  have "(case r of WalkDone x \<Rightarrow> ret x | Restart name' i' \<Rightarrow> walkUnder m H dir flags mode follow None name' i') =
        (case r of WalkDone x \<Rightarrow> ret x | Restart name' i' \<Rightarrow> (walkUnder n H dir flags mode follow None name' i' :: ('w p2, goerr + pathWalkResult) state))"
    if "shrinks i (parentSteps name) r" for r
    using that Suc.IH [OF _ m(2)] Suc.prems(1) by (cases r) (simp_all add: shrinks_def walkBudget_def)
  then show ?case
    unfolding m(1) walkUnder.simps by (auto intro!: bind_cong_calm [OF calm_dupFile] bind_cong_calm [OF w] split: sum.split)
qed simp

text \<open>C9: the component walk of a path ends, whatever the host answers: with fuel for 40 links and the parent steps of
  the name the walk never runs out of it, and more fuel does not change what it does.\<close>

theorem walk_terminates:
  assumes "163840 + length name < n" and "n \<le> n'"
  shows "p_stuck (snd (run_state (walkUnder n H dir flags mode follow None name 0) s)) = p_stuck s \<and>
    run_state (walkUnder n' H dir flags mode follow None name 0) s = run_state (walkUnder n H dir flags mode follow None name 0) s"
proof -
  have w: "walkBudget 0 name < n" using assms(1) parentSteps_le [of name] by (simp add: walkBudget_def)
  have "calm (p_stuck s) (walkUnder n H dir flags mode follow None name 0) (\<lambda>_. True)" by (rule calm_walkUnder) (simp_all add: w)
  from triple_runD [OF this refl] walkUnder_more [OF w assms(2), of H dir flags mode follow] show ?thesis by simp
qed

theorem walk_terminates_witness:
  "p_stuck (snd (run_state (walkUnder 163850 tickingHost (1, 0) 0 0 True None ''a/../b'' 0) (atTime 0))) = p_stuck (atTime 0) \<and>
   run_state (walkUnder 163860 tickingHost (1, 0) 0 0 True None ''a/../b'' 0) (atTime 0) =
   run_state (walkUnder 163850 tickingHost (1, 0) 0 0 True None ''a/../b'' 0) (atTime 0)"
  by (rule walk_terminates) simp_all

end
