(* ===== verification/Fs_Values.thy ===== *)
theory Fs_Values
  imports Path_Walk
begin

text \<open>
  The pure part of \<^verbatim>\<open>filesystem.go\<close> of package \<^verbatim>\<open>p2\<close>: the error codes and the mapping of errors to them, descriptor
  types, the values of \<^verbatim>\<open>stat\<close> and \<^verbatim>\<open>metadata-hash\<close>, the narrowing of descriptor flags and the choice of the lock
  that serializes appends. The mapping of errors is total on the range of the WIT enumeration, the finalizer
  of the hash is a bijection, and the flag check hands a child only rights its parent has.
\<close>

unbundle bit_operations_syntax

section \<open>Error codes and descriptor types\<close>

definition fsErrAccess :: u32 where "fsErrAccess = 0"
definition fsErrWouldBlock :: u32 where "fsErrWouldBlock = 1"
definition fsErrAlready :: u32 where "fsErrAlready = 2"
definition fsErrBadDescriptor :: u32 where "fsErrBadDescriptor = 3"
definition fsErrBusy :: u32 where "fsErrBusy = 4"
definition fsErrDeadlock :: u32 where "fsErrDeadlock = 5"
definition fsErrQuota :: u32 where "fsErrQuota = 6"
definition fsErrExist :: u32 where "fsErrExist = 7"
definition fsErrFileTooLarge :: u32 where "fsErrFileTooLarge = 8"
definition fsErrIllegalByteSequence :: u32 where "fsErrIllegalByteSequence = 9"
definition fsErrInProgress :: u32 where "fsErrInProgress = 10"
definition fsErrInterrupted :: u32 where "fsErrInterrupted = 11"
definition fsErrInvalid :: u32 where "fsErrInvalid = 12"
definition fsErrIO :: u32 where "fsErrIO = 13"
definition fsErrIsDirectory :: u32 where "fsErrIsDirectory = 14"
definition fsErrLoop :: u32 where "fsErrLoop = 15"
definition fsErrTooManyLinks :: u32 where "fsErrTooManyLinks = 16"
definition fsErrMessageSize :: u32 where "fsErrMessageSize = 17"
definition fsErrNameTooLong :: u32 where "fsErrNameTooLong = 18"
definition fsErrNoDevice :: u32 where "fsErrNoDevice = 19"
definition fsErrNoEntry :: u32 where "fsErrNoEntry = 20"
definition fsErrNoLock :: u32 where "fsErrNoLock = 21"
definition fsErrInsufficientMemory :: u32 where "fsErrInsufficientMemory = 22"
definition fsErrInsufficientSpace :: u32 where "fsErrInsufficientSpace = 23"
definition fsErrNotDirectory :: u32 where "fsErrNotDirectory = 24"
definition fsErrNotEmpty :: u32 where "fsErrNotEmpty = 25"
definition fsErrNotRecoverable :: u32 where "fsErrNotRecoverable = 26"
definition fsErrUnsupported :: u32 where "fsErrUnsupported = 27"
definition fsErrNoTTY :: u32 where "fsErrNoTTY = 28"
definition fsErrNoSuchDevice :: u32 where "fsErrNoSuchDevice = 29"
definition fsErrOverflow :: u32 where "fsErrOverflow = 30"
definition fsErrNotPermitted :: u32 where "fsErrNotPermitted = 31"
definition fsErrPipe :: u32 where "fsErrPipe = 32"
definition fsErrReadOnly :: u32 where "fsErrReadOnly = 33"
definition fsErrInvalidSeek :: u32 where "fsErrInvalidSeek = 34"
definition fsErrTextFileBusy :: u32 where "fsErrTextFileBusy = 35"
definition fsErrCrossDevice :: u32 where "fsErrCrossDevice = 36"

definition descriptorUnknown :: u32 where "descriptorUnknown = 0"
definition descriptorBlockDevice :: u32 where "descriptorBlockDevice = 1"
definition descriptorCharacterDevice :: u32 where "descriptorCharacterDevice = 2"
definition descriptorDirectory :: u32 where "descriptorDirectory = 3"
definition descriptorFIFO :: u32 where "descriptorFIFO = 4"
definition descriptorSymbolicLink :: u32 where "descriptorSymbolicLink = 5"
definition descriptorRegularFile :: u32 where "descriptorRegularFile = 6"
definition descriptorSocket :: u32 where "descriptorSocket = 7"

lemmas fsErr_defs = fsErrAccess_def fsErrWouldBlock_def fsErrAlready_def fsErrBadDescriptor_def fsErrBusy_def fsErrDeadlock_def fsErrQuota_def fsErrExist_def fsErrFileTooLarge_def fsErrIllegalByteSequence_def fsErrInProgress_def fsErrInterrupted_def fsErrInvalid_def fsErrIO_def fsErrIsDirectory_def fsErrLoop_def fsErrTooManyLinks_def fsErrMessageSize_def fsErrNameTooLong_def fsErrNoDevice_def fsErrNoEntry_def fsErrNoLock_def fsErrInsufficientMemory_def fsErrInsufficientSpace_def fsErrNotDirectory_def fsErrNotEmpty_def fsErrNotRecoverable_def fsErrUnsupported_def fsErrNoTTY_def fsErrNoSuchDevice_def fsErrOverflow_def fsErrNotPermitted_def fsErrPipe_def fsErrReadOnly_def fsErrInvalidSeek_def fsErrTextFileBusy_def fsErrCrossDevice_def

text \<open>\<^verbatim>\<open>platformFilesystemError\<close> maps nothing on Linux.\<close>

definition fsError :: "goerr \<Rightarrow> u32" where
  "fsError err =
     (if errorsIs err ErrNotExist \<or> errorsIs err (Errno ENOENT) then fsErrNoEntry
      else if errorsIs err (Errno EPERM) then fsErrNotPermitted
      else if errorsIs err ErrPermission \<or> errorsIs err (Errno EACCES) then fsErrAccess
      else if errorsIs err (Errno EAGAIN) then fsErrWouldBlock
      else if errorsIs err (Errno EALREADY) then fsErrAlready
      else if errorsIs err (Errno EBADF) then fsErrBadDescriptor
      else if errorsIs err (Errno EBUSY) then fsErrBusy
      else if errorsIs err (Errno EDEADLK) then fsErrDeadlock
      else if errorsIs err (Errno EDQUOT) then fsErrQuota
      else if errorsIs err (Errno EEXIST) then fsErrExist
      else if errorsIs err (Errno EFBIG) then fsErrFileTooLarge
      else if errorsIs err (Errno EILSEQ) then fsErrIllegalByteSequence
      else if errorsIs err (Errno EINPROGRESS) then fsErrInProgress
      else if errorsIs err (Errno EINTR) then fsErrInterrupted
      else if errorsIs err (Errno EISDIR) then fsErrIsDirectory
      else if errorsIs err (Errno ENOTDIR) then fsErrNotDirectory
      else if errorsIs err (Errno ENOTEMPTY) then fsErrNotEmpty
      else if errorsIs err (Errno ELOOP) then fsErrLoop
      else if errorsIs err (Errno ENAMETOOLONG) then fsErrNameTooLong
      else if errorsIs err (Errno ENODEV) then fsErrNoDevice
      else if errorsIs err (Errno ENOLCK) then fsErrNoLock
      else if errorsIs err (Errno ENOMEM) then fsErrInsufficientMemory
      else if errorsIs err (Errno ENOSPC) then fsErrInsufficientSpace
      else if errorsIs err (Errno ENOTRECOVERABLE) then fsErrNotRecoverable
      else if errorsIs err (Errno ENOTSUP) \<or> errorsIs err (Errno ENOSYS) then fsErrUnsupported
      else if errorsIs err (Errno ENOTTY) then fsErrNoTTY
      else if errorsIs err (Errno ENXIO) then fsErrNoSuchDevice
      else if errorsIs err (Errno EROFS) then fsErrReadOnly
      else if errorsIs err (Errno EXDEV) then fsErrCrossDevice
      else if errorsIs err (Errno EPIPE) then fsErrPipe
      else if errorsIs err (Errno ESPIPE) then fsErrInvalidSeek
      else if errorsIs err (Errno ETXTBSY) then fsErrTextFileBusy
      else if errorsIs err (Errno EINVAL) then fsErrInvalid
      else if errorsIs err (Errno EOVERFLOW) then fsErrOverflow
      else if errorsIs err (Errno EMFILE) \<or> errorsIs err (Errno ENFILE) then fsErrQuota
      else fsErrIO)"

definition okValue :: "val \<Rightarrow> hostResult" where
  "okValue v = okResult v"

definition fsFailure :: "goerr \<Rightarrow> hostResult" where
  "fsFailure err = errResult (VU32 (fsError err))"

definition descriptorModeKind :: "u32 \<Rightarrow> u32" where
  "descriptorModeKind m =
     (if m AND modeDir \<noteq> 0 then descriptorDirectory
      else if m AND modeSymlink \<noteq> 0 then descriptorSymbolicLink
      else if m AND modeNamedPipe \<noteq> 0 then descriptorFIFO
      else if m AND modeDevice \<noteq> 0 \<and> m AND modeCharDevice \<noteq> 0 then descriptorCharacterDevice
      else if m AND modeDevice \<noteq> 0 then descriptorBlockDevice
      else if m AND modeSocket \<noteq> 0 then descriptorSocket
      else descriptorRegularFile)"

definition descriptorKind :: "finfo \<Rightarrow> u32" where
  "descriptorKind info = descriptorModeKind (fi_mode info)"

section \<open>Metadata\<close>

definition datetime :: "time \<Rightarrow> val" where
  "datetime t = (if secondsOf t < 0 then VNil else VList [VU64 (of_int (secondsOf t)), VU32 (of_int (nanosOf t))])"

definition statValue :: "finfo \<Rightarrow> val" where
  "statValue info = (case hostStat2 info of (nlink, atime, mtime, ctime, dev, ino) \<Rightarrow>
     VList [VU32 (descriptorKind info), VU64 nlink, VU64 (fi_size info), datetime atime, datetime mtime, datetime ctime])"

definition mixMetadataHash :: "u64 \<Rightarrow> u64" where
  "mixMetadataHash v =
     (let v = v XOR drop_bit 30 v;
          v = v * 0xbf58476d1ce4e5b9;
          v = v XOR drop_bit 27 v;
          v = v * 0x94d049bb133111eb
      in v XOR drop_bit 31 v)"

definition metadataHash :: "finfo \<Rightarrow> val" where
  "metadataHash info = (case hostStat2 info of (nlink, atime, mtime, ctime, dev, ino) \<Rightarrow>
     let sz = fi_size info in
     VList [VU64 (mixMetadataHash (mixMetadataHash (ino XOR of_int (secondsOf (fi_mtime info))) XOR sz)),
            VU64 (mixMetadataHash (mixMetadataHash (dev XOR of_int (nanosOf (fi_mtime info))) XOR sz))])"

text \<open>\<^verbatim>\<open>os.SameFile\<close> compares device and inode of two results of \<^verbatim>\<open>Stat\<close>.\<close>

definition sameFile :: "finfo \<Rightarrow> finfo \<Rightarrow> bool" where
  "sameFile a b = (case (fi_sys a, fi_sys b) of
      (Some x, Some y) \<Rightarrow> st_dev x = st_dev y \<and> st_ino x = st_ino y
    | _ \<Rightarrow> False)"

section \<open>Flags, offsets, append locks\<close>

definition requireDirectoryMutation :: "descriptorNode \<Rightarrow> goerr option" where
  "requireDirectoryMutation n = (if d_flags n AND 32 = 0 then Some (Errno EROFS) else None)"

definition validateChildFlags :: "descriptorNode \<Rightarrow> u32 \<Rightarrow> u32 \<Rightarrow> goerr option" where
  "validateChildFlags base requested openFlags =
     (if requested AND NOT 0x3f \<noteq> 0 then Some (Errno EINVAL)
      else if requested AND 1 \<noteq> 0 \<and> d_flags base AND 1 = 0 \<or> requested AND 2 \<noteq> 0 \<and> d_flags base AND 2 = 0 \<or>
         requested AND 32 \<noteq> 0 \<and> d_flags base AND 32 = 0 then Some (Errno EROFS)
      else if requested AND 0x1c \<noteq> 0 \<and> d_flags base AND 2 = 0 then Some (Errno EROFS)
      else if openFlags AND 8 \<noteq> 0 \<and> requested AND 2 = 0 then Some (Errno EINVAL)
      else if openFlags AND (1 OR 8) \<noteq> 0 \<or> requested AND 2 \<noteq> 0 then requireDirectoryMutation base
      else None)"

definition checkedOffset :: "u64 \<Rightarrow> goerr + u64" where
  "checkedOffset offset = (if offset > 0x7FFFFFFFFFFFFFFF then Inl (Errno EOVERFLOW) else Inr offset)"

definition appendTargetForIdentity :: "u64 \<Rightarrow> u64 \<Rightarrow> u8" where
  "appendTargetForIdentity dev ino =
     (let key = dev * 0x9e3779b97f4a7c15 XOR ino * 0xbf58476d1ce4e5b9 in ucast (key XOR drop_bit 32 key))"

definition appendTargetForFile :: "finfo \<Rightarrow> u8" where
  "appendTargetForFile info = (case hostStat2 info of (nlink, atime, mtime, ctime, dev, ino) \<Rightarrow> appendTargetForIdentity dev ino)"

section \<open>Properties\<close>

lemma xorshift_inverse:
  "(\<forall>u :: u64. u = v XOR drop_bit 30 v \<longrightarrow> u XOR drop_bit 30 u XOR drop_bit 60 u = v) \<and>
   (\<forall>u :: u64. u = v XOR drop_bit 27 v \<longrightarrow> u XOR drop_bit 27 u XOR drop_bit 54 u = v) \<and>
   (\<forall>u :: u64. u = v XOR drop_bit 31 v \<longrightarrow> u XOR drop_bit 31 u XOR drop_bit 62 u = v)"
  by (auto intro!: bit_word_eqI simp: bit_simps dest: bit_imp_le_length)

definition unmixMetadataHash :: "u64 \<Rightarrow> u64" where
  "unmixMetadataHash u =
     (let u = u XOR drop_bit 31 u XOR drop_bit 62 u;
          u = u * 0x319642b2d24d8ec3;
          u = u XOR drop_bit 27 u XOR drop_bit 54 u;
          u = u * 0x96de1b173f119089
      in u XOR drop_bit 30 u XOR drop_bit 60 u)"

text \<open>The finalizer of the metadata hash loses nothing: it has an inverse, so that two files of one size agree
  in the first half of their hash exactly when their inode numbers combined with their modification seconds do.\<close>

theorem mixMetadataHash_roundtrip: "unmixMetadataHash (mixMetadataHash v) = v"
proof -
  have one: "0x94d049bb133111eb * 0x319642b2d24d8ec3 = (1 :: u64)" "0xbf58476d1ce4e5b9 * 0x96de1b173f119089 = (1 :: u64)"
    by code_simp+
  have m: "x * 0x94d049bb133111eb * 0x319642b2d24d8ec3 = x" "x * 0xbf58476d1ce4e5b9 * 0x96de1b173f119089 = x" for x :: u64
    by (simp_all only: mult.assoc one mult_1_right)
  show ?thesis
    using xorshift_inverse unfolding mixMetadataHash_def unmixMetadataHash_def Let_def by (simp only: m)
qed

text \<open>Every error of a filesystem operation is reported as a code of the WIT enumeration.\<close>

lemma fsError_range: "fsError err \<le> fsErrCrossDevice"
  unfolding fsError_def by (simp add: fsErr_defs)

text \<open>A child descriptor that passes the check has only rights of its parent, and a child that can create,
  truncate or write has a parent that may mutate the directory.\<close>

lemma childFlags_narrow:
  assumes "validateChildFlags base requested openFlags = None"
  shows "(requested AND 0x23) AND NOT (d_flags base) = 0 \<and>
    (d_flags base AND 32 = 0 \<longrightarrow> openFlags AND (1 OR 8) = 0 \<and> requested AND 2 = 0)"
proof -
  have bits: "x AND 1 = 0 \<longleftrightarrow> \<not> bit x 0" "x AND 2 = 0 \<longleftrightarrow> \<not> bit x 1" "x AND 32 = 0 \<longleftrightarrow> \<not> bit x 5" for x :: u32
    using and_exp_eq_0_iff_not_bit [of x 0] and_exp_eq_0_iff_not_bit [of x 1] and_exp_eq_0_iff_not_bit [of x 5] by simp_all
  have mask: "bit (0x23 :: u32) n \<longleftrightarrow> n = 0 \<or> n = 1 \<or> n = 5" if "n < 32" for n
  proof -
    have split: "(0x23 :: u32) = 2 ^ 0 OR 2 ^ 1 OR 2 ^ 5" by code_simp
    show ?thesis unfolding split using that by (simp only: bit_or_iff bit_exp_iff possible_bit_word) auto
  qed
  have "bit (d_flags base) n" if "bit requested n" "n \<in> {0, 1, 5}" for n
    using assms that by (auto simp: validateChildFlags_def bits split: if_splits)
  then have "\<not> bit ((requested AND 0x23) AND NOT (d_flags base)) n" if "n < 32" for n
    using that unfolding bit_and_iff bit_not_iff mask [OF that] by blast
  then have "(requested AND 0x23) AND NOT (d_flags base) = 0" by (intro bit_word_eqI) simp
  then show ?thesis using assms by (auto simp: validateChildFlags_def requireDirectoryMutation_def split: if_splits)
qed

end
