(* ===== verification/Fs_Tables.thy ===== *)
theory Fs_Tables
  imports Fs_Values
begin

text \<open>
  The tables of \<^verbatim>\<open>filesystemState\<close>: mounts and their preparation, descriptors, file streams, the reservation of the
  standard streams, the destructors of the resources, and \<^verbatim>\<open>get-directories\<close> with its rollback. Every operation
  is shown to keep the invariant of \<^verbatim>\<open>P2_Authority\<close>: no table exceeds its limit, every entry holds rights of its
  mount only, and no file object is open that no table owns.
\<close>

section \<open>Mounts\<close>

definition mountFlags :: "preopen \<Rightarrow> u32" where
  "mountFlags mount =
     (let flags = (0 :: u32);
          flags = (if Read mount then flags OR 1 else flags);
          flags = (if Write mount then flags OR 2 else flags)
      in if MutateDirectory mount then flags OR 32 else flags)"

definition newFilesystem :: "preopen list \<Rightarrow> limits \<Rightarrow> filesystemState" where
  "newFilesystem configured limits =
     \<lparr>f_mounts = sort_key m_guest
        (map (\<lambda>mount. \<lparr>m_guest = GuestPath mount, m_host = HostPath mount, m_flags = mountFlags mount, m_base = None\<rparr>) configured),
      f_descs = [], f_streams = [], f_stdStreams = 0, f_dirs = [], f_nextDesc = 1, f_nextStream = fileStreamRepMin,
      f_nextDir = 1, f_limits = normalized limits\<rparr>"

definition setBase :: "nat \<Rightarrow> fileid option \<Rightarrow> ('w p2, unit) state" where
  "setBase i f = onFs (\<lambda>fs. fs\<lparr>f_mounts := (f_mounts fs)[i := (f_mounts fs ! i)\<lparr>m_base := f\<rparr>]\<rparr>)"

fun closeMountsLoop :: "'w p2host \<Rightarrow> nat \<Rightarrow> nat \<Rightarrow> ('w p2, unit) state" where
  "closeMountsLoop H i 0 = ret ()"
| "closeMountsLoop H i (Suc n) = do {
     fs \<leftarrow> gets p_fs;
     (case m_base (f_mounts fs ! i) of
        None \<Rightarrow> ret ()
      | Some f \<Rightarrow> do { _ \<leftarrow> osClose H f; setBase i None });
     closeMountsLoop H (Suc i) n }"

definition closeMounts :: "'w p2host \<Rightarrow> ('w p2, unit) state" where
  "closeMounts H = do { fs \<leftarrow> gets p_fs; closeMountsLoop H 0 (length (f_mounts fs)) }"

text \<open>\<^verbatim>\<open>openPreopenDirectory\<close> on Linux; the files of the mount with index \<open>i\<close> have the root \<open>Suc i\<close>.\<close>

definition openPreopenDirectory :: "'w p2host \<Rightarrow> nat \<Rightarrow> string \<Rightarrow> ('w p2, goerr + fileid) state" where
  "openPreopenDirectory H i path = osOpen H (Suc i) (HOsOpen path)"

fun prepareMounts :: "'w p2host \<Rightarrow> nat \<Rightarrow> nat \<Rightarrow> ('w p2, goerr option) state" where
  "prepareMounts H i 0 = ret None"
| "prepareMounts H i (Suc n) = do {
     fs \<leftarrow> gets p_fs;
     f \<leftarrow> openPreopenDirectory H i (m_host (f_mounts fs ! i));
     case f of
       Inl e \<Rightarrow> do { closeMounts H; ret (Some (Wrapped e)) }
     | Inr f \<Rightarrow> do {
         info \<leftarrow> osStat H f;
         case info of
           Inl e \<Rightarrow> do { _ \<leftarrow> osClose H f; closeMounts H; ret (Some (Wrapped e)) }
         | Inr info \<Rightarrow>
             if \<not> isDir info then do {
               _ \<leftarrow> osClose H f;
               closeMounts H;
               ret (Some (OtherError ''host path is not a directory'')) }
             else do { setBase i (Some f); prepareMounts H (Suc i) n } } }"

definition prepareFilesystem :: "'w p2host \<Rightarrow> preopen list \<Rightarrow> limits \<Rightarrow> ('w p2, goerr option) state" where
  "prepareFilesystem H configured limits = do {
     onFs (\<lambda>_. newFilesystem configured limits);
     prepareMounts H 0 (length configured) }"

section \<open>Descriptors and streams\<close>

definition addDesc :: "'w p2host \<Rightarrow> descriptorNode \<Rightarrow> ('w p2, goerr + u32) state" where
  "addDesc H n = do {
     fs \<leftarrow> gets p_fs;
     if of_nat (length (f_descs fs)) \<ge> MaxDescriptors (f_limits fs) then ret (Inl (Errno EMFILE))
     else do {
       a \<leftarrow> (if \<not> d_isDir n \<and> d_append n = None then do {
           info \<leftarrow> osStat H (d_file n);
           ret (case info of Inl e \<Rightarrow> Inl e | Inr info \<Rightarrow> Inr (Some (appendTargetForFile info))) }
         else ret (Inr (d_append n)));
       case a of
         Inl e \<Rightarrow> ret (Inl e)
       | Inr target \<Rightarrow> do {
           rep \<leftarrow> gets (\<lambda>s. f_nextDesc (p_fs s));
           onFs (\<lambda>fs. fs\<lparr>f_nextDesc := f_nextDesc fs + 1, f_descs := AList.update (f_nextDesc fs) (n\<lparr>d_append := target\<rparr>) (f_descs fs)\<rparr>);
           ret (Inr rep) } } }"

definition desc :: "u32 \<Rightarrow> ('w p2, goerr + descriptorNode) state" where
  "desc rep = gets (\<lambda>s. case map_of (f_descs (p_fs s)) rep of
     None \<Rightarrow> Inl (OtherError ''unknown descriptor rep'') | Some n \<Rightarrow> Inr n)"

definition addStream :: "fileStream \<Rightarrow> ('w p2, goerr + u32) state" where
  "addStream n = do {
     fs \<leftarrow> gets p_fs;
     if of_nat (length (f_streams fs)) + f_stdStreams fs \<ge> MaxStreams (f_limits fs) then ret (Inl (Errno EMFILE))
     else do {
       onFs (\<lambda>fs. fs\<lparr>f_nextStream := f_nextStream fs + 1, f_streams := AList.update (f_nextStream fs) n (f_streams fs)\<rparr>);
       ret (Inr (f_nextStream fs)) } }"

definition reserveStandardStream :: "('w p2, goerr option) state" where
  "reserveStandardStream = do {
     fs \<leftarrow> gets p_fs;
     if of_nat (length (f_streams fs)) + f_stdStreams fs \<ge> MaxStreams (f_limits fs) then ret (Some (Errno EMFILE))
     else do { onFs (\<lambda>fs. fs\<lparr>f_stdStreams := f_stdStreams fs + 1\<rparr>); ret None } }"

definition releaseStandardStream :: "('w p2, unit) state" where
  "releaseStandardStream = onFs (\<lambda>fs. fs\<lparr>f_stdStreams := f_stdStreams fs - 1\<rparr>)"

definition getOutput :: "u32 \<Rightarrow> ('w p2, hostResult) state" where
  "getOutput rep = do {
     e \<leftarrow> reserveStandardStream;
     ret (case e of Some e \<Rightarrow> Inl (Wrapped e) | None \<Rightarrow> Inr [VU32 rep]) }"

definition getStdin :: "('w p2, hostResult) state" where
  "getStdin = do {
     e \<leftarrow> reserveStandardStream;
     ret (case e of Some e \<Rightarrow> Inl (Wrapped e) | None \<Rightarrow> Inr [VU32 stdinRep]) }"

text \<open>\<^verbatim>\<open>fileStream.Write\<close>, which the adapter of a file stream calls: the number of bytes, the error and the changed stream.\<close>

definition fileStreamWrite :: "'w p2host \<Rightarrow> fileStream \<Rightarrow> bytes \<Rightarrow> ('w p2, (int \<times> goerr option) \<times> fileStream) state" where
  "fileStreamWrite H st p =
     (if st_append st \<noteq> None then do {
        info \<leftarrow> osStat H (st_file st);
        case info of
          Inl e \<Rightarrow> ret ((0, Some e), st)
        | Inr info \<Rightarrow> do {
            r \<leftarrow> p2Call H (WriteAt (st_file st) p (fi_size info));
            ret (case asIO (asHost r) of (b, n, err) \<Rightarrow> ((n, err), st)) } }
      else do {
        r \<leftarrow> p2Call H (WriteAt (st_file st) p (st_pos st));
        ret (case asIO (asHost r) of (b, n, err) \<Rightarrow> ((n, err), st\<lparr>st_pos := st_pos st + of_int n\<rparr>)) })"

section \<open>Destructors\<close>

definition dropDescriptor :: "'w p2host \<Rightarrow> u32 \<Rightarrow> ('w p2, goerr option) state" where
  "dropDescriptor H rep = do {
     fs \<leftarrow> gets p_fs;
     onFs (\<lambda>fs. fs\<lparr>f_descs := AList.delete rep (f_descs fs)\<rparr>);
     case map_of (f_descs fs) rep of None \<Rightarrow> ret None | Some n \<Rightarrow> osClose H (d_file n) }"

definition dropStream :: "'w p2host \<Rightarrow> u32 \<Rightarrow> ('w p2, goerr option) state" where
  "dropStream H rep = do {
     fs \<leftarrow> gets p_fs;
     onFs (\<lambda>fs. fs\<lparr>f_streams := AList.delete rep (f_streams fs)\<rparr>);
     onHost (\<lambda>h. h\<lparr>h_outputs := AList.delete rep (h_outputs h), h_permits := AList.delete rep (h_permits h),
       h_outputFailed := AList.delete rep (h_outputFailed h)\<rparr>);
     case map_of (f_streams fs) rep of None \<Rightarrow> ret None | Some n \<Rightarrow> osClose H (st_file n) }"

definition dropInput :: "'w p2host \<Rightarrow> u32 \<Rightarrow> ('w p2, goerr option) state" where
  "dropInput H rep = (if rep = stdinRep then do { releaseStandardStream; ret None } else dropStream H rep)"

definition dropOutput :: "'w p2host \<Rightarrow> u32 \<Rightarrow> ('w p2, goerr option) state" where
  "dropOutput H rep = (if rep = stdoutRep \<or> rep = stderrRep then do { releaseStandardStream; ret None } else dropStream H rep)"

text \<open>The destructor of a directory stream; \<^verbatim>\<open>closeDirectoryStream\<close> gives its buffer back and closes the file.\<close>

definition dropDirectory :: "'w p2host \<Rightarrow> u32 \<Rightarrow> ('w p2, goerr option) state" where
  "dropDirectory H rep = do {
     fs \<leftarrow> gets p_fs;
     onFs (\<lambda>fs. fs\<lparr>f_dirs := AList.delete rep (f_dirs fs)\<rparr>);
     case map_of (f_dirs fs) rep of None \<Rightarrow> ret None | Some d \<Rightarrow> osClose H (ds_file d) }"

section \<open>Preopens\<close>

fun rollbackDirectories :: "'w p2host \<Rightarrow> (u32 \<times> string) list \<Rightarrow> ('w p2, unit) state" where
  "rollbackDirectories H [] = ret ()"
| "rollbackDirectories H ((handle, guest) # vs) = do {
     r \<leftarrow> p2Call H (TakeOwn descriptorResource handle);
     (case asRep r of
        Inl e \<Rightarrow> ret None
      | Inr rep \<Rightarrow> dropDescriptor H rep);
     rollbackDirectories H vs }"

fun getDirectoriesLoop :: "'w p2host \<Rightarrow> nat \<Rightarrow> (u32 \<times> string) list \<Rightarrow> filesystemMount list \<Rightarrow> ('w p2, goerr + (u32 \<times> string) list) state" where
  "getDirectoriesLoop H i acc [] = ret (Inr acc)"
| "getDirectoriesLoop H i acc (mount # ms) = do {
     f \<leftarrow> (case m_base mount of
         Some base \<Rightarrow> dupFile H base
       | None \<Rightarrow> openPreopenDirectory H i (m_host mount));
     case f of
       Inl e \<Rightarrow> do { rollbackDirectories H acc; ret (Inl (Wrapped e)) }
     | Inr f \<Rightarrow> do {
         info \<leftarrow> osStat H f;
         if (case info of Inl e \<Rightarrow> True | Inr info \<Rightarrow> \<not> isDir info) then do {
           _ \<leftarrow> osClose H f;
           rollbackDirectories H acc;
           ret (Inl (OtherError ''preopen is not a directory'')) }
         else do {
           rep \<leftarrow> addDesc H \<lparr>d_file = f, d_mount = i, d_flags = m_flags mount, d_isDir = True, d_append = None\<rparr>;
           case rep of
             Inl e \<Rightarrow> do { _ \<leftarrow> osClose H f; rollbackDirectories H acc; ret (Inl e) }
           | Inr rep \<Rightarrow> do {
               h \<leftarrow> p2Call H (NewOwn descriptorResource rep);
               getDirectoriesLoop H (Suc i) (acc @ [(asHandle h, m_guest mount)]) ms } } } }"

definition getDirectories :: "'w p2host \<Rightarrow> ('w p2, hostResult) state" where
  "getDirectories H = do {
     fs \<leftarrow> gets p_fs;
     r \<leftarrow> getDirectoriesLoop H 0 [] (f_mounts fs);
     ret (case r of Inl e \<Rightarrow> Inl e | Inr out \<Rightarrow> Inr [VList (map (\<lambda>(h, g). VList [VU32 h, VStr g]) out)]) }"

section \<open>The invariant\<close>

lemma Inv2_Suc: "Inv2 A b F s \<Longrightarrow> Suc b < 2 ^ 32 \<Longrightarrow> Inv2 A (Suc b) F s"
  by (erule Inv2_mono) simp_all

lemma Inv2_onFs:
  "Inv2 A b F s \<Longrightarrow> fsOk A b' (f (p_fs s)) \<Longrightarrow> owned2 (p_fs s) \<subseteq> owned2 (f (p_fs s)) \<union> F' \<Longrightarrow> F \<subseteq> owned2 (f (p_fs s)) \<union> F' \<Longrightarrow>
     Inv2 A b' F' (s\<lparr>p_fs := f (p_fs s)\<rparr>)"
  by (auto simp: Inv2_def)

lemma Inv2_fsOk: "Inv2 A b F s \<Longrightarrow> fsOk A b (p_fs s)"
  by (simp add: Inv2_def)

lemma snd_delete:
  "distinct (map fst al) \<Longrightarrow> snd ` set al \<subseteq> snd ` set (AList.delete k al) \<union> set_option (map_of al k)"
proof
  fix v assume d: "distinct (map fst al)" and "v \<in> snd ` set al"
  then obtain k' where "(k', v) \<in> set al" by force
  then show "v \<in> snd ` set (AList.delete k al) \<union> set_option (map_of al k)"
    using d by (cases "k' = k") (force simp: set_AList_delete)+
qed

lemma snd_update: "distinct (map fst al) \<Longrightarrow> k \<notin> fst ` set al \<Longrightarrow> snd ` set (AList.update k v al) = insert v (snd ` set al)"
  by (force simp: set_AList_update)

lemma keyed_distinct: "keyed n al \<Longrightarrow> distinct (map fst al)"
  by (simp add: keyed_def)

text \<open>Removing an entry hands its file to the operation that removes it.\<close>

lemma fsOk_delete:
  assumes "fsOk A b fs"
  shows "fsOk A b (fs\<lparr>f_descs := AList.delete rep (f_descs fs)\<rparr>)"
    "fsOk A b (fs\<lparr>f_streams := AList.delete rep (f_streams fs)\<rparr>)"
    "fsOk A b (fs\<lparr>f_dirs := AList.delete rep (f_dirs fs)\<rparr>)"
  using assms length_delete_le [of rep "f_descs fs"] length_delete_le [of rep "f_streams fs"] length_delete_le [of rep "f_dirs fs"]
  by (auto simp: fsOk_def keyed_delete set_AList_delete)

lemma image_cover: "X \<subseteq> Y \<union> Z \<Longrightarrow> f ` X \<subseteq> f ` Y \<union> f ` Z"
  by auto

lemma union_cover:
  "X \<subseteq> X' \<union> Z \<Longrightarrow> X \<union> B \<union> C \<union> D \<subseteq> X' \<union> B \<union> C \<union> D \<union> Z"
  "X \<subseteq> X' \<union> Z \<Longrightarrow> B \<union> X \<union> C \<union> D \<subseteq> B \<union> X' \<union> C \<union> D \<union> Z"
  "X \<subseteq> X' \<union> Z \<Longrightarrow> B \<union> C \<union> X \<union> D \<subseteq> B \<union> C \<union> X' \<union> D \<union> Z"
  by auto

lemma owned2_tables:
  "owned2 (fs\<lparr>f_descs := ds\<rparr>) = d_file ` snd ` set ds \<union> st_file ` snd ` set (f_streams fs) \<union>
     ds_file ` snd ` set (f_dirs fs) \<union> (\<Union>m\<in>set (f_mounts fs). set_option (m_base m))"
  "owned2 (fs\<lparr>f_streams := ss\<rparr>) = d_file ` snd ` set (f_descs fs) \<union> st_file ` snd ` set ss \<union>
     ds_file ` snd ` set (f_dirs fs) \<union> (\<Union>m\<in>set (f_mounts fs). set_option (m_base m))"
  "owned2 (fs\<lparr>f_dirs := qs\<rparr>) = d_file ` snd ` set (f_descs fs) \<union> st_file ` snd ` set (f_streams fs) \<union>
     ds_file ` snd ` set qs \<union> (\<Union>m\<in>set (f_mounts fs). set_option (m_base m))"
  by (simp_all add: owned2_def)

lemma owned2_delete:
  assumes "fsOk A b fs"
  shows "owned2 fs \<subseteq> owned2 (fs\<lparr>f_descs := AList.delete rep (f_descs fs)\<rparr>) \<union> d_file ` set_option (map_of (f_descs fs) rep)"
    "owned2 fs \<subseteq> owned2 (fs\<lparr>f_streams := AList.delete rep (f_streams fs)\<rparr>) \<union> st_file ` set_option (map_of (f_streams fs) rep)"
    "owned2 fs \<subseteq> owned2 (fs\<lparr>f_dirs := AList.delete rep (f_dirs fs)\<rparr>) \<union> ds_file ` set_option (map_of (f_dirs fs) rep)"
proof -
  have k: "distinct (map fst (f_descs fs))" "distinct (map fst (f_streams fs))" "distinct (map fst (f_dirs fs))"
    using assms by (simp_all add: fsOk_def keyed_def)
  show "owned2 fs \<subseteq> owned2 (fs\<lparr>f_descs := AList.delete rep (f_descs fs)\<rparr>) \<union> d_file ` set_option (map_of (f_descs fs) rep)"
    unfolding owned2_tables owned2_def [of fs] by (intro union_cover(1) image_cover snd_delete k)
  show "owned2 fs \<subseteq> owned2 (fs\<lparr>f_streams := AList.delete rep (f_streams fs)\<rparr>) \<union> st_file ` set_option (map_of (f_streams fs) rep)"
    unfolding owned2_tables owned2_def [of fs] by (intro union_cover(2) image_cover snd_delete k)
  show "owned2 fs \<subseteq> owned2 (fs\<lparr>f_dirs := AList.delete rep (f_dirs fs)\<rparr>) \<union> ds_file ` set_option (map_of (f_dirs fs) rep)"
    unfolding owned2_tables owned2_def [of fs] by (intro union_cover(3) image_cover snd_delete k)
qed

lemma keeps_close:
  assumes "Inv2 A b (insert f F) s"
  shows "wp (osClose H f) (\<lambda>_ t. Inv2 A b F t) s"
proof -
  have "wp (osClose H f) (\<lambda>r t. Inv2 A b (insert f F - {f}) t \<and> True) s"
    using triple_osClose2 [of A b "insert f F" H f] assms unfolding triple_def by blast
  then show ?thesis by (rule wp_mono) (auto intro: Inv2_grow)
qed

lemma keeps_dropDescriptor [p2vcg]: "keeps A b F (dropDescriptor H rep) (\<lambda>_. True)"
proof -
  have "wp (dropDescriptor H rep) (\<lambda>_ t. Inv2 A b F t) s" if i: "Inv2 A b F s" for s :: "'a p2"
  proof -
    have "Inv2 A b (F \<union> d_file ` set_option (map_of (f_descs (p_fs s)) rep)) (s\<lparr>p_fs := (p_fs s)\<lparr>f_descs := AList.delete rep (f_descs (p_fs s))\<rparr>\<rparr>)"
      using fsOk_delete(1) owned2_delete(1) Inv2_fsOk [OF i] by (intro Inv2_onFs [OF i]) blast+
    then show ?thesis
      unfolding dropDescriptor_def wp_simps by (cases "map_of (f_descs (p_fs s)) rep") (simp_all add: wp_simps keeps_close)
  qed
  then show ?thesis by (simp add: triple_def)
qed

lemma keeps_dropStream [p2vcg]: "keeps A b F (dropStream H rep) (\<lambda>_. True)"
proof -
  have "wp (dropStream H rep) (\<lambda>_ t. Inv2 A b F t) s" if i: "Inv2 A b F s" for s :: "'a p2"
  proof -
    let ?h = "\<lambda>h. h\<lparr>h_outputs := AList.delete rep (h_outputs h), h_permits := AList.delete rep (h_permits h),
       h_outputFailed := AList.delete rep (h_outputFailed h)\<rparr>"
    have "Inv2 A b (F \<union> st_file ` set_option (map_of (f_streams (p_fs s)) rep)) (s\<lparr>p_fs := (p_fs s)\<lparr>f_streams := AList.delete rep (f_streams (p_fs s))\<rparr>\<rparr>)"
      using fsOk_delete(2) owned2_delete(2) Inv2_fsOk [OF i] by (intro Inv2_onFs [OF i]) blast+
    moreover have "hostOk A h \<Longrightarrow> hostOk A (?h h)" for h by (auto simp: hostOk_def set_AList_delete)
    ultimately have "Inv2 A b (F \<union> st_file ` set_option (map_of (f_streams (p_fs s)) rep))
        (s\<lparr>p_fs := (p_fs s)\<lparr>f_streams := AList.delete rep (f_streams (p_fs s))\<rparr>, p_host := ?h (p_host s)\<rparr>)"
      by (simp add: Inv2_def)
    then show ?thesis
      unfolding dropStream_def wp_simps by (cases "map_of (f_streams (p_fs s)) rep") (simp_all add: wp_simps keeps_close)
  qed
  then show ?thesis by (simp add: triple_def)
qed

lemma keeps_dropDirectory [p2vcg]: "keeps A b F (dropDirectory H rep) (\<lambda>_. True)"
proof -
  have "wp (dropDirectory H rep) (\<lambda>_ t. Inv2 A b F t) s" if i: "Inv2 A b F s" for s :: "'a p2"
  proof -
    have "Inv2 A b (F \<union> ds_file ` set_option (map_of (f_dirs (p_fs s)) rep)) (s\<lparr>p_fs := (p_fs s)\<lparr>f_dirs := AList.delete rep (f_dirs (p_fs s))\<rparr>\<rparr>)"
      using fsOk_delete(3) owned2_delete(3) Inv2_fsOk [OF i] by (intro Inv2_onFs [OF i]) blast+
    then show ?thesis
      unfolding dropDirectory_def wp_simps by (cases "map_of (f_dirs (p_fs s)) rep") (simp_all add: wp_simps keeps_close)
  qed
  then show ?thesis by (simp add: triple_def)
qed

lemma keeps_fsOk_same:
  "(\<And>fs. fsOk A b fs \<Longrightarrow> fsOk A b (f fs) \<and> owned2 (f fs) = owned2 fs) \<Longrightarrow> keeps A b F (onFs f) (\<lambda>_. True)"
  by (auto simp: triple_def wp_simps Inv2_def)

text \<open>Rules for the insertion into a table: the counter moves by one, and the file becomes owned.\<close>

lemma Inv2_addDesc:
  assumes "Inv2 A b (insert (d_file n) F) s" and "nodeOk A n" and "Suc b < 2 ^ 32"
    and "length (f_descs (p_fs s)) < unat (MaxDescriptors (a2_limits A))"
  shows "Inv2 A (Suc b) F (s\<lparr>p_fs := (p_fs s)\<lparr>f_nextDesc := f_nextDesc (p_fs s) + 1,
    f_descs := AList.update (f_nextDesc (p_fs s)) n (f_descs (p_fs s))\<rparr>\<rparr>)"
proof -
  let ?fs = "p_fs s"
  have ok: "fsOk A b ?fs" using assms(1) by (rule Inv2_fsOk)
  have k: "keyed (f_nextDesc ?fs) (f_descs ?fs)" "unat (f_nextDesc ?fs) \<le> b" using ok by (simp_all add: fsOk_def)
  have ins: "keyed (f_nextDesc ?fs + 1) (AList.update (f_nextDesc ?fs) n (f_descs ?fs))" "f_nextDesc ?fs \<notin> fst ` set (f_descs ?fs)"
    using keyed_insert [OF k(1), of n] k(2) assms(3) by simp_all
  have suc: "unat (f_nextDesc ?fs + 1) \<le> Suc b" using k(2) assms(3) by (simp add: unat_word_ariths)
  have snd: "snd ` set (AList.update (f_nextDesc ?fs) n (f_descs ?fs)) = insert n (snd ` set (f_descs ?fs))"
    using k(1) ins(2) by (intro snd_update) (simp_all add: keyed_def)
  have "fsOk A (Suc b) (?fs\<lparr>f_nextDesc := f_nextDesc ?fs + 1, f_descs := AList.update (f_nextDesc ?fs) n (f_descs ?fs)\<rparr>)"
    using ok ins suc assms(2-4) unfolding fsOk_def by (simp add: snd length_AList_update del: image_iff)
  then show ?thesis using assms(1) by (simp add: Inv2_def owned2_def snd)
qed

lemma Inv2_addStream:
  assumes "Inv2 A b (insert (st_file n) F) s" and "streamOk2 A n" and "Suc b < 2 ^ 32"
    and "length (f_streams (p_fs s)) + unat (f_stdStreams (p_fs s)) < unat (MaxStreams (a2_limits A))"
  shows "Inv2 A (Suc b) F (s\<lparr>p_fs := (p_fs s)\<lparr>f_nextStream := f_nextStream (p_fs s) + 1,
    f_streams := AList.update (f_nextStream (p_fs s)) n (f_streams (p_fs s))\<rparr>\<rparr>)"
proof -
  let ?fs = "p_fs s"
  have ok: "fsOk A b ?fs" using assms(1) by (rule Inv2_fsOk)
  have k: "keyed (f_nextStream ?fs) (f_streams ?fs)" "unat (f_nextStream ?fs) \<le> b" using ok by (simp_all add: fsOk_def)
  have ins: "keyed (f_nextStream ?fs + 1) (AList.update (f_nextStream ?fs) n (f_streams ?fs))" "f_nextStream ?fs \<notin> fst ` set (f_streams ?fs)"
    using keyed_insert [OF k(1), of n] k(2) assms(3) by simp_all
  have suc: "unat (f_nextStream ?fs + 1) \<le> Suc b" using k(2) assms(3) by (simp add: unat_word_ariths)
  have snd: "snd ` set (AList.update (f_nextStream ?fs) n (f_streams ?fs)) = insert n (snd ` set (f_streams ?fs))"
    using k(1) ins(2) by (intro snd_update) (simp_all add: keyed_def)
  have "fsOk A (Suc b) (?fs\<lparr>f_nextStream := f_nextStream ?fs + 1, f_streams := AList.update (f_nextStream ?fs) n (f_streams ?fs)\<rparr>)"
    using ok ins suc assms(2-4) unfolding fsOk_def by (simp add: snd length_AList_update del: image_iff)
  then show ?thesis using assms(1) by (simp add: Inv2_def owned2_def snd)
qed

section \<open>Triples\<close>

lemma of_nat_less_u32: "\<not> of_nat n \<ge> (m :: u32) \<Longrightarrow> n < 2 ^ 32 \<Longrightarrow> n < unat m"
  by (simp add: word_le_nat_alt unat_of_nat)

text \<open>The files to close after an insertion that may be refused.\<close>

fun refused :: "goerr + u32 \<Rightarrow> fileid \<Rightarrow> fileid set \<Rightarrow> fileid set" where
  "refused (Inl e) f F = insert f F"
| "refused (Inr rep) f F = F"

fun nodeRes :: "authority2 \<Rightarrow> goerr + descriptorNode \<Rightarrow> bool" where
  "nodeRes A (Inl e) = True"
| "nodeRes A (Inr n) = nodeOk A n"

lemma keeps_desc [p2vcg]: "keeps A b F (desc rep) (nodeRes A)"
  by (auto simp: triple_def wp_simps desc_def Inv2_def fsOk_def split: option.splits dest!: map_of_SomeD)

lemma fsOk_room:
  assumes "fsOk A b fs"
  shows "\<not> of_nat (length (f_descs fs)) \<ge> MaxDescriptors (f_limits fs) \<Longrightarrow> length (f_descs fs) < unat (MaxDescriptors (a2_limits A))"
    "\<not> of_nat (length (f_streams fs)) + f_stdStreams fs \<ge> MaxStreams (f_limits fs) \<Longrightarrow>
       length (f_streams fs) + unat (f_stdStreams fs) < unat (MaxStreams (a2_limits A))"
    "\<not> of_nat (length (f_dirs fs)) \<ge> MaxDirectoryStreams (f_limits fs) \<Longrightarrow> length (f_dirs fs) < unat (MaxDirectoryStreams (a2_limits A))"
proof -
  have l: "f_limits fs = a2_limits A" "length (f_descs fs) \<le> unat (MaxDescriptors (a2_limits A))"
    "length (f_streams fs) + unat (f_stdStreams fs) \<le> unat (MaxStreams (a2_limits A))"
    "length (f_dirs fs) \<le> unat (MaxDirectoryStreams (a2_limits A))" using assms by (simp_all add: fsOk_def)
  have u: "unat (w :: u32) < 2 ^ 32" for w by simp
  show "length (f_descs fs) < unat (MaxDescriptors (a2_limits A))" if "\<not> of_nat (length (f_descs fs)) \<ge> MaxDescriptors (f_limits fs)"
    using of_nat_less_u32 [OF that] l(1,2) u [of "MaxDescriptors (a2_limits A)"] by (simp del: unat_u32_bound)
  show "length (f_dirs fs) < unat (MaxDirectoryStreams (a2_limits A))" if "\<not> of_nat (length (f_dirs fs)) \<ge> MaxDirectoryStreams (f_limits fs)"
    using of_nat_less_u32 [OF that] l(1,4) u [of "MaxDirectoryStreams (a2_limits A)"] by (simp del: unat_u32_bound)
  have e: "of_nat (length (f_streams fs)) + f_stdStreams fs = of_nat (length (f_streams fs) + unat (f_stdStreams fs))" by simp
  show "length (f_streams fs) + unat (f_stdStreams fs) < unat (MaxStreams (a2_limits A))"
    if "\<not> of_nat (length (f_streams fs)) + f_stdStreams fs \<ge> MaxStreams (f_limits fs)"
    using of_nat_less_u32 [OF that [unfolded e]] l(1,3) u [of "MaxStreams (a2_limits A)"] by (simp del: unat_u32_bound)
qed

lemma triple_addDesc:
  assumes "nodeOk A n" and "Suc b < 2 ^ 32"
  shows "triple (Inv2 A b (insert (d_file n) F)) (addDesc H n) (\<lambda>r. Inv2 A (Suc b) (refused r (d_file n) F)) (\<lambda>_. True)"
proof -
  let ?P = "\<lambda>s. Inv2 A b (insert (d_file n) F) s \<and> length (f_descs (p_fs s)) < unat (MaxDescriptors (a2_limits A))"
  have "wp (addDesc H n) (\<lambda>r t. Inv2 A (Suc b) (refused r (d_file n) F) t) s" if i: "Inv2 A b (insert (d_file n) F) s" for s :: "'a p2"
  proof (cases "of_nat (length (f_descs (p_fs s))) \<ge> MaxDescriptors (f_limits (p_fs s))")
    case True
    then show ?thesis using Inv2_Suc [OF i assms(2)] by (simp add: addDesc_def wp_simps)
  next
    case False
    have room: "length (f_descs (p_fs s)) < unat (MaxDescriptors (a2_limits A))" using fsOk_room(1) [OF Inv2_fsOk [OF i] False] .
    have add: "Inv2 A (Suc b) F (t\<lparr>p_fs := (p_fs t)\<lparr>f_nextDesc := f_nextDesc (p_fs t) + 1,
        f_descs := AList.update (f_nextDesc (p_fs t)) (n\<lparr>d_append := a\<rparr>) (f_descs (p_fs t))\<rparr>\<rparr>)"
      if "Inv2 A b (insert (d_file n) F) t" "p_fs t = p_fs s" for t :: "'a p2" and a
      using Inv2_addDesc [of A b "n\<lparr>d_append := a\<rparr>" F t] that assms room by (simp add: nodeOk_def)
    have same: "n\<lparr>d_append := d_append n\<rparr> = n" by simp
    have call: "Inv2 A b (insert (d_file n) F) (s\<lparr>p_world := w, p_log := p_log s @ [Os (HStat (d_file n))]\<rparr>)" for w
      using i by (simp add: Inv2_def)
    show ?thesis
      unfolding addDesc_def osStat_def wp_simps
      using False add [OF i] add [OF i refl, of "d_append n", unfolded same] add [OF call] Inv2_Suc [OF call assms(2)]
      by (auto simp: wp_simps split: prod.splits sum.splits)
  qed
  then show ?thesis by (simp add: triple_def)
qed

lemma triple_addStream:
  assumes "streamOk2 A n" and "Suc b < 2 ^ 32"
  shows "triple (Inv2 A b (insert (st_file n) F)) (addStream n) (\<lambda>r. Inv2 A (Suc b) (refused r (st_file n) F)) (\<lambda>_. True)"
proof -
  have "wp (addStream n) (\<lambda>r t. Inv2 A (Suc b) (refused r (st_file n) F) t) s" if i: "Inv2 A b (insert (st_file n) F) s" for s :: "'a p2"
    using Inv2_Suc [OF i assms(2)] Inv2_addStream [OF i assms fsOk_room(2) [OF Inv2_fsOk [OF i]]]
    by (simp add: addStream_def wp_simps)
  then show ?thesis by (simp add: triple_def)
qed

lemma keeps_reserve [p2vcg]: "keeps A b F reserveStandardStream (\<lambda>_. True)"
proof -
  have "wp reserveStandardStream (\<lambda>r t. Inv2 A b F t) s" if i: "Inv2 A b F s" for s :: "'a p2"
  proof (cases "of_nat (length (f_streams (p_fs s))) + f_stdStreams (p_fs s) \<ge> MaxStreams (f_limits (p_fs s))")
    case True
    then show ?thesis using i by (simp add: reserveStandardStream_def wp_simps)
  next
    case False
    have ok: "fsOk A b (p_fs s)" using i by (rule Inv2_fsOk)
    from fsOk_room(2) [OF ok False] have r: "length (f_streams (p_fs s)) + unat (f_stdStreams (p_fs s)) < unat (MaxStreams (a2_limits A))" .
    then have "unat (f_stdStreams (p_fs s) + 1) = Suc (unat (f_stdStreams (p_fs s)))"
      using unat_u32_bound [of "MaxStreams (a2_limits A)"] by (simp add: unat_word_ariths del: unat_u32_bound)
    then have "fsOk A b ((p_fs s)\<lparr>f_stdStreams := f_stdStreams (p_fs s) + 1\<rparr>)" using ok r by (simp add: fsOk_def)
    then show ?thesis using i False by (simp add: reserveStandardStream_def wp_simps Inv2_def owned2_def)
  qed
  then show ?thesis by (simp add: triple_def)
qed

lemma keeps_getOutput [p2vcg]: "keeps A b F (getOutput rep) (\<lambda>_. True)"
  unfolding getOutput_def by (rule p2vcg | simp)+

lemma keeps_getStdin [p2vcg]: "keeps A b F getStdin (\<lambda>_. True)"
  unfolding getStdin_def by (rule p2vcg | simp)+


lemma mountOk_root: "fsOk A b fs \<Longrightarrow> i < length (f_mounts fs) \<Longrightarrow> mountOk2 A i (f_mounts fs ! i)"
  by (simp add: fsOk_def)

lemma keeps_rollbackDirectories [p2vcg]: "keeps A b F (rollbackDirectories H vs) (\<lambda>_. True)"
proof (induction H vs rule: rollbackDirectories.induct)
  case (2 H handle guest vs)
  then show ?case
    unfolding rollbackDirectories.simps by - (rule keeps_ret p2vcg | assumption | simp)+
qed (simp add: keeps_ret)

lemma opens_openPreopen: "a2_host A (Suc i) = Some host \<Longrightarrow> opens A b F (Suc i) (openPreopenDirectory H i host)"
  unfolding openPreopenDirectory_def by (rule opens_osOpen) simp

lemma opens_preopen:
  assumes "mountOk2 A i mount"
  shows "opens A b F (Suc i) (case m_base mount of Some base \<Rightarrow> dupFile H base | None \<Rightarrow> openPreopenDirectory H i (m_host mount))"
proof (cases "m_base mount")
  case None
  then show ?thesis using assms by (simp add: opens_openPreopen mountOk2_def)
next
  case (Some base)
  then have "fst base = Suc i" using assms by (simp add: mountOk2_def)
  then show ?thesis using opens_dupFile [where f = base and A = A and b = b and F = F and H = H] Some by simp
qed

lemma nodeOk_preopen:
  assumes "mountOk2 A i mount" and "fst f = Suc i"
  shows "nodeOk A \<lparr>d_file = f, d_mount = i, d_flags = m_flags mount, d_isDir = True, d_append = None\<rparr>"
proof -
  have "(w AND 0x23) AND NOT w = 0" for w :: u32 by (rule bit_word_eqI) (auto simp: bit_simps)
  then show ?thesis using assms by (simp add: nodeOk_def mountOk2_def)
qed

lemma triple_getDirectoriesLoop:
  "(\<And>j. j < length ms \<Longrightarrow> mountOk2 A (i + j) (ms ! j)) \<Longrightarrow> b + length ms < 2 ^ 32 \<Longrightarrow>
     triple (Inv2 A b F) (getDirectoriesLoop H i acc ms) (\<lambda>_. Inv2 A (b + length ms) F) (\<lambda>_. True)"
proof (induction ms arbitrary: i acc b)
  case Nil
  then show ?case by (simp add: keeps_ret)
next
  case (Cons mount ms)
  have m: "mountOk2 A i mount" using Cons.prems(1) [of 0] by simp
  have rest: "mountOk2 A (Suc i + j) (ms ! j)" if "j < length ms" for j using Cons.prems(1) [of "Suc j"] that by simp
  have IH: "triple (Inv2 A (Suc b) F) (getDirectoriesLoop H (Suc i) acc' ms) (\<lambda>_. Inv2 A (Suc (b + length ms)) F) (\<lambda>_. True)" for acc'
    using Cons.IH [OF rest, of "Suc b" acc'] Cons.prems(2) by simp
  have b: "Suc b < 2 ^ 32" using Cons.prems(2) by simp
  have add: "triple (Inv2 A b (insert f F)) (addDesc H \<lparr>d_file = f, d_mount = i, d_flags = m_flags mount, d_isDir = True, d_append = None\<rparr>)
      (\<lambda>r. Inv2 A (Suc b) (refused r f F)) (\<lambda>_. True)" if "fst f = Suc i" for f
    using triple_addDesc [OF nodeOk_preopen [OF m that] b] by simp
  show ?case
    using Cons.prems(2) unfolding getDirectoriesLoop.simps list.size add_Suc_right
    apply -
    apply (rule opens_preopen [OF m] add IH p2vcg | assumption | simp | (auto; fail))+
    done
qed

lemma triple_getDirectories:
  assumes "b + 64 < 2 ^ 32"
  shows "triple (Inv2 A b F) (getDirectories H) (\<lambda>_. Inv2 A (b + 64) F) (\<lambda>_. True)"
proof -
  have "triple (Inv2 A b F) (getDirectoriesLoop H 0 [] (f_mounts fs)) (\<lambda>_. Inv2 A (b + 64) F) (\<lambda>_. True)" if "fsOk A b fs" for fs
  proof -
    have "length (f_mounts fs) \<le> 64" using that by (simp add: fsOk_def)
    then show ?thesis
      using assms that by (intro triple_weaken [OF triple_getDirectoriesLoop [of "f_mounts fs" A 0 b F H "[]"]])
        (auto simp: fsOk_def intro: Inv2_mono)
  qed
  then show ?thesis
    unfolding getDirectories_def
    by - (rule p2vcg | assumption | simp)+
qed

section \<open>Preparation of the mounts\<close>

definition bases :: "filesystemMount list \<Rightarrow> fileid set" where
  "bases ms = (\<Union>m\<in>set ms. set_option (m_base m))"

lemma bases_nth: "bases ms = {f. \<exists>j<length ms. m_base (ms ! j) = Some f}"
  unfolding bases_def by (force simp: in_set_conv_nth)

definition unbased :: "filesystemMount \<Rightarrow> filesystemMount" where
  "unbased m = m\<lparr>m_base := None\<rparr>"

lemma closeMountsLoop_result:
  "i + n = length (f_mounts (p_fs s)) \<Longrightarrow>
     p_fs (snd (run_state (closeMountsLoop H i n) s)) = (p_fs s)\<lparr>f_mounts := take i (f_mounts (p_fs s)) @ map unbased (drop i (f_mounts (p_fs s)))\<rparr> \<and>
     p_live (snd (run_state (closeMountsLoop H i n) s)) = p_live s - bases (drop i (f_mounts (p_fs s)))"
proof (induction n arbitrary: i s)
  case 0
  then show ?case by (simp add: bases_def)
next
  case (Suc n)
  let ?ms = "f_mounts (p_fs s)"
  have i: "i < length ?ms" using Suc.prems by simp
  have d: "drop i ?ms = ?ms ! i # drop (Suc i) ?ms" using i by (simp add: Cons_nth_drop_Suc)
  define t where "t = snd (run_state (case m_base (?ms ! i) of None \<Rightarrow> ret () | Some f \<Rightarrow> do { _ \<leftarrow> osClose H f; setBase i None }) s)"
  have run: "snd (run_state (closeMountsLoop H i (Suc n)) s) = snd (run_state (closeMountsLoop H (Suc i) n) t)"
    by (simp add: t_def split: prod.split)
  have t: "p_fs t = (p_fs s)\<lparr>f_mounts := ?ms[i := unbased (?ms ! i)]\<rparr>" "p_live t = p_live s - set_option (m_base (?ms ! i))"
  proof -
    have none: "unbased m = m" if "m_base m = None" for m using that by (cases m) (simp add: unbased_def)
    show "p_fs t = (p_fs s)\<lparr>f_mounts := ?ms[i := unbased (?ms ! i)]\<rparr>"
      by (cases "m_base (?ms ! i)") (simp_all add: t_def none osClose_def setBase_def, simp add: unbased_def)
    show "p_live t = p_live s - set_option (m_base (?ms ! i))"
      by (cases "m_base (?ms ! i)") (simp_all add: t_def osClose_def setBase_def)
  qed
  have "take (Suc i) (?ms[i := unbased (?ms ! i)]) = take i ?ms @ [unbased (?ms ! i)]"
    using i by (simp add: take_Suc_conv_app_nth)
  then show ?case
    using Suc.IH [of "Suc i" t] Suc.prems unfolding run by (simp add: t d bases_def Diff_eq Int_assoc)
qed

lemma wp_closeMounts:
  assumes "p_live s \<subseteq> bases (f_mounts (p_fs s))"
  shows "wp (closeMounts H) (\<lambda>_ t. p_live t = {} \<and> bases (f_mounts (p_fs t)) = {}) s"
  using closeMountsLoop_result [of 0 "length (f_mounts (p_fs s))" s H] assms
  by (auto simp: wp_run closeMounts_def bases_def unbased_def)

text \<open>The first \<open>i\<close> mounts have their directory open, the others not, and nothing else is open.\<close>

definition prepared :: "nat \<Rightarrow> 'w p2 \<Rightarrow> bool" where
  "prepared i s \<longleftrightarrow> p_live s \<subseteq> bases (f_mounts (p_fs s)) \<and>
     (\<forall>j<length (f_mounts (p_fs s)). if j < i then (\<exists>f\<in>p_live s. m_base (f_mounts (p_fs s) ! j) = Some f \<and> fst f = Suc j)
        else m_base (f_mounts (p_fs s) ! j) = None)"

lemma prepared_live: "prepared i s \<Longrightarrow> p_live s \<subseteq> bases (f_mounts (p_fs s))"
  by (simp add: prepared_def)

lemma prepared_step:
  assumes "prepared i s" and "i < length (f_mounts (p_fs s))" and "fst f = Suc i"
  shows "prepared (Suc i) (s\<lparr>p_live := insert f (p_live s), p_next := n, p_world := w, p_log := l,
    p_fs := (p_fs s)\<lparr>f_mounts := (f_mounts (p_fs s))[i := (f_mounts (p_fs s) ! i)\<lparr>m_base := Some f\<rparr>]\<rparr>\<rparr>)"
proof -
  let ?ms = "f_mounts (p_fs s)"
  have "m_base (?ms ! i) = None" using assms(1,2) by (simp add: prepared_def)
  then have "bases ?ms \<subseteq> bases (?ms[i := (?ms ! i)\<lparr>m_base := Some f\<rparr>])"
    unfolding bases_nth by (auto simp: nth_list_update) (metis nth_list_update_neq option.distinct(1))
  moreover have "f \<in> bases (?ms[i := (?ms ! i)\<lparr>m_base := Some f\<rparr>])"
    unfolding bases_nth using assms(2) by force
  ultimately show ?thesis using assms by (auto simp: prepared_def nth_list_update less_Suc_eq)
qed

lemma wp_prepareMounts:
  "i + n = length (f_mounts (p_fs s)) \<Longrightarrow> prepared i s \<Longrightarrow>
     wp (prepareMounts H i n) (\<lambda>r t. if r = None then prepared (length (f_mounts (p_fs s))) t \<and> length (f_mounts (p_fs t)) = length (f_mounts (p_fs s))
       else p_live t = {} \<and> bases (f_mounts (p_fs t)) = {}) s"
proof (induction n arbitrary: i s)
  case 0
  then show ?case by (simp add: wp_simps)
next
  case (Suc n)
  define Q where "Q r t \<longleftrightarrow> (if r = None then prepared (length (f_mounts (p_fs s))) t \<and> length (f_mounts (p_fs t)) = length (f_mounts (p_fs s))
       else p_live t = {} \<and> bases (f_mounts (p_fs t)) = {})" for r :: "goerr option" and t :: "'a p2"
  have live: "p_live s \<subseteq> bases (f_mounts (p_fs s))" using Suc.prems(2) by (rule prepared_live)
  have close: "wp (closeMounts H) (\<lambda>_ t. Q (Some e) t) t" if "p_live t \<subseteq> bases (f_mounts (p_fs t))" for e t
    using wp_closeMounts [OF that] by (rule wp_mono) (simp add: Q_def)
  have IH: "wp (prepareMounts H (Suc i) n) Q t" if "prepared (Suc i) t" "length (f_mounts (p_fs t)) = length (f_mounts (p_fs s))" for t
    using Suc.IH [of "Suc i" t] Suc.prems(1) that unfolding Q_def that(2) by simp
  have go: "wp (prepareMounts H (Suc i) n) Q (s\<lparr>p_live := insert (Suc i, k) (p_live s), p_next := m, p_world := w, p_log := l,
      p_fs := (p_fs s)\<lparr>f_mounts := (f_mounts (p_fs s))[i := (f_mounts (p_fs s) ! i)\<lparr>m_base := Some (Suc i, k)\<rparr>]\<rparr>\<rparr>)" for k m w l
    using Suc.prems by (intro IH prepared_step) simp_all
  show ?case
    unfolding prepareMounts.simps openPreopenDirectory_def osOpen_def osStat_def osClose_def setBase_def wp_simps Q_def [symmetric]
    using live
    by (auto simp: wp_simps split: prod.splits sum.splits option.splits intro!: close go)
qed

text \<open>C21: \<^verbatim>\<open>prepareFilesystem\<close> opens one directory per mount, or none: when it fails at any mount, every directory
  it had opened before is closed again.\<close>

theorem prepareFilesystem_atomic:
  assumes "p_live s = {}" and "run_state (prepareFilesystem H configured limits) s = (r, t)"
  shows "if r = None
    then length (f_mounts (p_fs t)) = length configured \<and> p_live t = bases (f_mounts (p_fs t)) \<and>
      (\<forall>j<length configured. \<exists>f. m_base (f_mounts (p_fs t) ! j) = Some f \<and> fst f = Suc j)
    else p_live t = {} \<and> bases (f_mounts (p_fs t)) = {}"
proof -
  let ?s = "s\<lparr>p_fs := newFilesystem configured limits\<rparr>"
  have len: "length (f_mounts (p_fs ?s)) = length configured" by (simp add: newFilesystem_def)
  have "m_base m = None" if "m \<in> set (f_mounts (p_fs ?s))" for m using that by (auto simp: newFilesystem_def)
  then have "prepared 0 ?s" using assms(1) by (simp add: prepared_def)
  note start = wp_prepareMounts [of 0 "length configured" ?s H, unfolded len, OF add_0 this]
  have "run_state (prepareMounts H 0 (length configured)) ?s = (r, t)" using assms(2) by (simp add: prepareFilesystem_def)
  from wp_runI [OF start this]
  have w: "if r = None then prepared (length configured) t \<and> length (f_mounts (p_fs t)) = length configured
       else p_live t = {} \<and> bases (f_mounts (p_fs t)) = {}" .
  moreover have "bases (f_mounts (p_fs t)) \<subseteq> p_live t" if "prepared (length configured) t" "length (f_mounts (p_fs t)) = length configured"
    using that unfolding prepared_def bases_nth by fastforce
  ultimately show ?thesis by (auto simp: prepared_def split: if_splits)
qed


text \<open>A host on which only the first mount can be opened.\<close>

definition oneMountHost :: "nat p2host" where
  "oneMountHost c w = (case c of
      Os (HOsOpen name f) \<Rightarrow> (RErrOpt (if fst f = 1 then None else Some (Errno ENOENT)), w)
    | Os (HStat f) \<Rightarrow> (RHost (RInfo \<lparr>fi_mode = modeDir, fi_size = 0, fi_mtime = 0, fi_sys = None\<rparr>), w)
    | _ \<Rightarrow> (RErrOpt None, w))"

definition twoMounts :: "preopen list" where
  "twoMounts = [\<lparr>GuestPath = ''/a'', HostPath = ''/x'', Read = True, Write = False, MutateDirectory = False\<rparr>,
     \<lparr>GuestPath = ''/b'', HostPath = ''/y'', Read = True, Write = True, MutateDirectory = True\<rparr>]"

theorem prepareFilesystem_atomic_witness:
  "fst (run_state (prepareFilesystem oneMountHost twoMounts zeroLimits) (atTime 0)) \<noteq> None \<and>
   p_live (snd (run_state (prepareFilesystem oneMountHost twoMounts zeroLimits) (atTime 0))) = {}"
proof -
  let ?x = "run_state (prepareFilesystem oneMountHost twoMounts zeroLimits) (atTime 0)"
  have r: "fst ?x \<noteq> None"
    by (simp add: prepareFilesystem_def twoMounts_def newFilesystem_def openPreopenDirectory_def osOpen_def osStat_def
        oneMountHost_def setBase_def isDir_def split_beta)
  moreover have "p_live (atTime 0) = {}" by (simp add: atTime_def)
  ultimately show ?thesis using prepareFilesystem_atomic [of "atTime 0" oneMountHost twoMounts zeroLimits "fst ?x" "snd ?x"] by simp
qed

end
