(* ===== verification/Fs_Directory.thy ===== *)
theory Fs_Directory
  imports Fs_Tables
begin

text \<open>
  Directory streams of package \<^verbatim>\<open>p2\<close> on Linux: \<^verbatim>\<open>directory.go\<close>, \<^verbatim>\<open>directory_linux.go\<close>, \<^verbatim>\<open>directory_unix.go\<close> and \<^verbatim>\<open>directory_native.go\<close>. A
  stream reads blocks of native records with \<^verbatim>\<open>getdents\<close> and hands out one entry per call. The decoder of a record
  is a parser of bytes that the kernel wrote: it is shown never to index outside its input, and to read back
  every record that is laid out as the kernel lays it out.
\<close>

unbundle bit_operations_syntax

section \<open>Types of entries\<close>

definition directoryStatKind :: "u32 \<Rightarrow> u32" where
  "directoryStatKind mode =
     (let fmt = mode AND 0xF000 in
      if fmt = 0x6000 then descriptorBlockDevice
      else if fmt = 0x2000 then descriptorCharacterDevice
      else if fmt = 0x4000 then descriptorDirectory
      else if fmt = 0x1000 then descriptorFIFO
      else if fmt = 0xA000 then descriptorSymbolicLink
      else if fmt = 0x8000 then descriptorRegularFile
      else if fmt = 0xC000 then descriptorSocket
      else descriptorUnknown)"

definition nativeDirectoryType :: "u8 \<Rightarrow> u32 option" where
  "nativeDirectoryType typ =
     (if typ = 6 then Some descriptorBlockDevice
      else if typ = 2 then Some descriptorCharacterDevice
      else if typ = 4 then Some descriptorDirectory
      else if typ = 1 then Some descriptorFIFO
      else if typ = 10 then Some descriptorSymbolicLink
      else if typ = 8 then Some descriptorRegularFile
      else if typ = 12 then Some descriptorSocket
      else None)"

section \<open>Records\<close>

abbreviation EIO_errno :: sysErrno where "EIO_errno \<equiv> OtherErrno 5"

text \<open>The offsets of \<^verbatim>\<open>unix.Dirent\<close>: record length at 16, type at 18, name at 19. The result is the name without its
  terminator, the type and the number of bytes consumed.\<close>

definition linuxDirectoryRecord :: "bytes \<Rightarrow> goerr + (bytes \<times> u8 \<times> nat)" where
  "linuxDirectoryRecord record =
     (if length record \<le> 19 then Inl (Errno EIO_errno)
      else (let consumed = unat (le_word (take 2 (drop 16 record)) :: u16) in
        if consumed \<le> 19 \<or> consumed > length record then Inl (Errno EIO_errno)
        else (let name = drop 19 (take consumed record) in
          if 0 \<notin> set name then Inl (Errno EIO_errno)
          else Inr (takeWhile (\<lambda>c. c \<noteq> 0) name, record ! 18, consumed))))"

section \<open>Reading entries\<close>

definition putDir :: "u32 \<Rightarrow> directoryStream \<Rightarrow> ('w p2, unit) state" where
  "putDir rep d = onFs (\<lambda>fs. fs\<lparr>f_dirs := AList.update rep d (f_dirs fs)\<rparr>)"

text \<open>\<^verbatim>\<open>directoryReadState.releaseBuffer\<close>.\<close>

definition releaseBuffer :: "directoryStream \<Rightarrow> directoryStream" where
  "releaseBuffer d = d\<lparr>ds_buffer := None, ds_pos := 0, ds_end := 0\<rparr>"

text \<open>\<^verbatim>\<open>statDirectoryEntry\<close>: the mode of an entry, without following a link; interrupted calls are repeated.\<close>

fun statDirectoryEntry :: "nat \<Rightarrow> 'w p2host \<Rightarrow> fileid \<Rightarrow> string \<Rightarrow> ('w p2, goerr + u32) state" where
  "statDirectoryEntry 0 H f name = do { outOfFuel; ret (Inl badReply) }"
| "statDirectoryEntry (Suc k) H f name = do {
     r \<leftarrow> p2Call H (Fstatat f name);
     case asInt (asHost r) of
       Inl e \<Rightarrow> if e = Errno EINTR then statDirectoryEntry k H f name else ret (Inl e)
     | Inr mode \<Rightarrow> ret (Inr (ucast mode)) }"

text \<open>The refill at the head of the loop: the outcome tells whether the loop goes on, ends, or has data.\<close>

datatype refill = Again | Ended goerr | Filled

definition refillBuffer :: "'w p2host \<Rightarrow> directoryStream \<Rightarrow> ('w p2, refill \<times> directoryStream) state" where
  "refillBuffer H d =
     (if ds_pos d = ds_end d then do {
        let d = d\<lparr>ds_buffer := Some (case ds_buffer d of None \<Rightarrow> [] | Some b \<Rightarrow> b)\<rparr>;
        r \<leftarrow> p2Call H (ReadDirent (ds_file d) 8192);
        ret (case asIO (asHost r) of (b, n, err) \<Rightarrow>
          if err \<noteq> None \<and> errorsIs (the err) (Errno EINTR) then (Again, d)
          else if err \<noteq> None then (Ended (the err), d)
          else if n = 0 then (Ended EOF, releaseBuffer d)
          else if n < 0 \<or> n > 8192 then (Ended (Errno EIO_errno), d)
          else (let d = d\<lparr>ds_buffer := Some (take (nat n) (b @ replicate (nat n) 0)), ds_pos := 0, ds_end := nat n\<rparr> in (Filled, d))) }
      else ret (Filled, d))"

fun readDirectoryEntry :: "nat \<Rightarrow> 'w p2host \<Rightarrow> u32 \<Rightarrow> directoryStream \<Rightarrow> u64 \<Rightarrow> ('w p2, goerr + (string \<times> u32)) state" where
  "readDirectoryEntry 0 H rep d maxNameBytes = do { outOfFuel; ret (Inl badReply) }"
| "readDirectoryEntry (Suc k) H rep d maxNameBytes = do {
     (r, d) \<leftarrow> refillBuffer H d;
     putDir rep d;
     case r of
       Again \<Rightarrow> readDirectoryEntry k H rep d maxNameBytes
     | Ended e \<Rightarrow> ret (Inl e)
     | Filled \<Rightarrow>
         (case linuxDirectoryRecord (drop (ds_pos d) (take (ds_end d) (the (ds_buffer d)))) of
            Inl e \<Rightarrow> ret (Inl e)
          | Inr (nameBytes, typ, consumed) \<Rightarrow> do {
              let d = d\<lparr>ds_pos := ds_pos d + consumed\<rparr>;
              putDir rep d;
              let name = bytes_string nameBytes;
              if name = [] \<or> name = ''.'' \<or> name = ''..'' then readDirectoryEntry k H rep d maxNameBytes
              else if of_nat (length nameBytes) > maxNameBytes then ret (Inl (Errno ENAMETOOLONG))
              else (case nativeDirectoryType typ of
                  Some kind \<Rightarrow> ret (Inr (name, kind))
                | None \<Rightarrow> do {
                    st \<leftarrow> statDirectoryEntry k H (ds_file d) name;
                    case st of
                      Inl e \<Rightarrow> if errorsIs e (Errno ENOENT) then readDirectoryEntry k H rep d maxNameBytes else ret (Inl e)
                    | Inr mode \<Rightarrow> ret (Inr (name, directoryStatKind mode)) }) }) }"

function validUtf8 :: "string \<Rightarrow> bool" where
  "validUtf8 s = (if s = [] then True
     else if of_char (hd s) < (0x80 :: nat) then validUtf8 (tl s)
     else runeWidth s > 1 \<and> validUtf8 (drop (runeWidth s) s))"
  by pat_completeness auto
termination validUtf8
  by (relation "measure length") (use runeWidth_bounds in \<open>auto simp: Suc_le_eq\<close>)

declare validUtf8.simps [simp del]

definition readEntry :: "'w p2host \<Rightarrow> u32 \<Rightarrow> directoryStream \<Rightarrow> u64 \<Rightarrow> ('w p2, hostResult) state" where
  "readEntry H rep d maxNameBytes = do {
     k \<leftarrow> gets p_fuel;
     r \<leftarrow> readDirectoryEntry k H rep d maxNameBytes;
     ret (case r of
         Inl e \<Rightarrow> if errorsIs e EOF then okValue VNil else fsFailure e
       | Inr (name, kind) \<Rightarrow>
           if name = [] then okValue VNil
           else if of_nat (length name) > maxNameBytes then fsFailure (Errno ENAMETOOLONG)
           else if \<not> validUtf8 name then fsFailure (Errno EILSEQ)
           else okValue (VList [VU32 kind, VStr name])) }"

section \<open>Properties\<close>

lemma takeWhile_shorter: "x \<in> set xs \<Longrightarrow> \<not> P x \<Longrightarrow> length (takeWhile P xs) < length xs"
  by (induction xs) auto

text \<open>A record as \<^verbatim>\<open>getdents64\<close> lays it out: inode and offset, the length of the record, the type, the name with its
  terminator, and padding.\<close>

definition direntBytes :: "bytes \<Rightarrow> u8 \<Rightarrow> bytes \<Rightarrow> bytes \<Rightarrow> bytes" where
  "direntBytes header typ name pad =
     header @ le_bytes 2 (of_nat (20 + length name + length pad) :: u16) @ [typ] @ name @ [0] @ pad"

text \<open>C24: the decoder of directory records reads back every record that is laid out as the kernel does, with what
  follows it in the block left alone.\<close>

theorem directoryRecord_roundtrip:
  assumes "length header = 16" and "0 \<notin> set name" and "20 + length name + length pad < 2 ^ 16"
  shows "linuxDirectoryRecord (direntBytes header typ name pad @ rest) = Inr (name, typ, length (direntBytes header typ name pad))"
proof -
  define n where "n = 20 + length name + length pad"
  let ?r = "direntBytes header typ name pad"
  have len: "length ?r = n" using assms(1) by (simp add: direntBytes_def n_def)
  have "take 2 (drop 16 (?r @ rest)) = le_bytes 2 (of_nat n :: u16)"
    using assms(1) by (simp add: direntBytes_def n_def)
  then have c: "unat (le_word (take 2 (drop 16 (?r @ rest))) :: u16) = n"
    using assms(3) by (simp only:) (simp add: le_word_le_bytes unat_of_nat flip: n_def)
  have "drop 19 ?r = name @ [0] @ pad" using assms(1) by (simp add: direntBytes_def)
  then have nm: "drop 19 (take n (?r @ rest)) = name @ [0] @ pad" using len by simp
  have tw: "takeWhile (\<lambda>c. c \<noteq> 0) (name @ [0] @ pad) = name"
    using assms(2) by (subst takeWhile_append2) auto
  have ty: "(?r @ rest) ! 18 = typ" using assms(1) by (simp add: direntBytes_def nth_append)
  show ?thesis
    unfolding linuxDirectoryRecord_def Let_def c nm tw ty using len by (simp add: n_def)
qed

theorem directoryRecord_roundtrip_witness:
  "linuxDirectoryRecord (direntBytes (replicate 16 7) 8 [104, 105] [0, 0] @ [1, 2, 3]) =
     Inr ([104, 105], 8, length (direntBytes (replicate 16 7) 8 [104, 105] [0, 0]))"
  by (rule directoryRecord_roundtrip) simp_all

text \<open>whatever bytes it is given, the decoder of directory records either fails or consumes a record of at least
  20 bytes within its input and returns a name without terminator inside that record.\<close>

theorem directoryRecord_bounds:
  assumes "linuxDirectoryRecord record = Inr (name, typ, consumed)"
  shows "20 \<le> consumed \<and> consumed \<le> length record \<and> length name + 20 \<le> consumed \<and> 0 \<notin> set name \<and> typ = record ! 18"
proof -
  have c: "19 < consumed" "consumed \<le> length record" "0 \<in> set (drop 19 (take consumed record))"
    "name = takeWhile (\<lambda>c. c \<noteq> 0) (drop 19 (take consumed record))" "typ = record ! 18"
    using assms by (auto simp: linuxDirectoryRecord_def Let_def split: if_splits)
  have "length name < length (drop 19 (take consumed record))"
    unfolding c(4) by (rule takeWhile_shorter) (use c(3) in auto)
  then show ?thesis using c by (auto dest: set_takeWhileD)
qed

theorem directoryRecord_bounds_witness:
  "linuxDirectoryRecord (replicate 16 0 @ [24, 0, 4, 97, 0, 0, 0, 0]) = Inr ([97], 4, 24) \<and> 20 \<le> (24 :: nat)"
proof -
  have r: "linuxDirectoryRecord (replicate 16 0 @ [24, 0, 4, 97, 0, 0, 0, 0]) = Inr ([97], 4, 24)" by code_simp
  then show ?thesis using directoryRecord_bounds [OF r] by simp
qed

section \<open>The invariant\<close>

text \<open>While an entry is read its stream stays in the table with its file.\<close>

definition DirInv :: "authority2 \<Rightarrow> nat \<Rightarrow> fileid set \<Rightarrow> u32 \<Rightarrow> fileid \<Rightarrow> 'w p2 \<Rightarrow> bool" where
  "DirInv A b F rep f s \<longleftrightarrow> Inv2 A b F s \<and> map_option ds_file (map_of (f_dirs (p_fs s)) rep) = Some f"

abbreviation dirKeeps :: "authority2 \<Rightarrow> nat \<Rightarrow> fileid set \<Rightarrow> u32 \<Rightarrow> fileid \<Rightarrow> ('w p2, 'a) state \<Rightarrow> ('a \<Rightarrow> bool) \<Rightarrow> bool" where
  "dirKeeps A b F rep f m R \<equiv> triple (DirInv A b F rep f) m (\<lambda>_. DirInv A b F rep f) R"

named_theorems dirvcg \<open>triples of the operations on one directory stream\<close>

lemmas [dirvcg] = triple_bind triple_if triple_let triple_case_option triple_case_sum triple_case_prod

lemma dirKeeps_ret [dirvcg]: "R x \<Longrightarrow> dirKeeps A b F rep f (ret x) R"
  by (simp add: triple_def wp_simps)

lemma dirKeeps_p2Call [dirvcg]: "allowed2 A c \<Longrightarrow> dirKeeps A b F rep f (p2Call H c) (\<lambda>_. True)"
  by (auto simp: triple_def wp_simps DirInv_def Inv2_def split: prod.splits)

lemma dirKeeps_outOfFuel [dirvcg]: "dirKeeps A b F rep f outOfFuel (\<lambda>_. True)"
  by (auto simp: triple_def wp_simps DirInv_def Inv2_def outOfFuel_def)

lemma fsOk_putDir:
  assumes "fsOk A b fs" and "map_of (f_dirs fs) rep = Some d" and "ds_file d' = ds_file d"
  shows "fsOk A b (fs\<lparr>f_dirs := AList.update rep d' (f_dirs fs)\<rparr>)"
    "owned2 (fs\<lparr>f_dirs := AList.update rep d' (f_dirs fs)\<rparr>) = owned2 fs"
proof -
  have k: "keyed (f_nextDir fs) (f_dirs fs)" using assms(1) by (simp add: fsOk_def)
  show "fsOk A b (fs\<lparr>f_dirs := AList.update rep d' (f_dirs fs)\<rparr>)"
    using assms(1) keyed_update_same [OF k assms(2)] map_of_in_fst [OF assms(2)] by (simp add: fsOk_def length_AList_update)
  have "(rep, d) \<in> set (f_dirs fs)" using assms(2) by (rule map_of_SomeD)
  then have "ds_file ` snd ` set (AList.update rep d' (f_dirs fs)) = ds_file ` snd ` set (f_dirs fs)"
    using k assms(3) unfolding keyed_set [OF k] keyed_def
    by (auto simp: image_iff) (metis assms(2) eq_key_imp_eq_value fst_conv map_of_eq_Some_iff option.inject snd_conv)+
  then show "owned2 (fs\<lparr>f_dirs := AList.update rep d' (f_dirs fs)\<rparr>) = owned2 fs" by (simp add: owned2_def)
qed

lemma dirKeeps_putDir [dirvcg]: "ds_file d = f \<Longrightarrow> dirKeeps A b F rep f (putDir rep d) (\<lambda>_. True)"
  using fsOk_putDir by (fastforce simp: triple_def wp_simps putDir_def DirInv_def Inv2_def)

lemma dirKeeps_statDirectoryEntry [dirvcg]: "dirKeeps A b F rep g (statDirectoryEntry k H f name) (\<lambda>_. True)"
proof (induction k)
  case (Suc k)
  then show ?case unfolding statDirectoryEntry.simps by - (rule dirvcg | assumption | simp)+
next
  case 0
  show ?case unfolding statDirectoryEntry.simps by (rule dirvcg | simp)+
qed

lemma dirKeeps_refillBuffer [dirvcg]:
  "dirKeeps A b F rep g (refillBuffer H d) (\<lambda>r. ds_file (snd r) = ds_file d)"
  unfolding refillBuffer_def releaseBuffer_def by (rule dirvcg | simp add: Let_def split: prod.split)+

lemma triple_case_refill [dirvcg]:
  "(x = Again \<Longrightarrow> triple P m Q R) \<Longrightarrow> (\<And>e. x = Ended e \<Longrightarrow> triple P (g e) Q R) \<Longrightarrow> (x = Filled \<Longrightarrow> triple P n Q R) \<Longrightarrow>
     triple P (case x of Again \<Rightarrow> m | Ended e \<Rightarrow> g e | Filled \<Rightarrow> n) Q R"
  by (cases x) auto

lemma dirKeeps_readDirectoryEntry:
  "ds_file d = f \<Longrightarrow> dirKeeps A b F rep f (readDirectoryEntry k H rep d maxNameBytes) (\<lambda>_. True)"
proof (induction k arbitrary: d)
  case 0
  show ?case unfolding readDirectoryEntry.simps by (rule dirvcg | simp)+
next
  case (Suc k)
  show ?case
    using Suc.prems unfolding readDirectoryEntry.simps
    apply -
    apply (rule Suc.IH dirvcg | assumption | simp)+
    done
qed

lemma keeps_readEntry:
  assumes "Inv2 A b F s" and "map_of (f_dirs (p_fs s)) rep = Some d"
  shows "Inv2 A b F (snd (run_state (readEntry H rep d maxNameBytes) s))"
proof -
  have "DirInv A b F rep (ds_file d) s" using assms by (simp add: DirInv_def)
  from triple_runD [OF dirKeeps_readDirectoryEntry [OF refl] this]
  have "Inv2 A b F (snd (run_state (readDirectoryEntry (p_fuel s) H rep d maxNameBytes) s))" by (simp add: DirInv_def)
  then show ?thesis by (simp add: readEntry_def split_beta)
qed

section \<open>Delivered names\<close>

fun entryName :: "goerr + (string \<times> u32) \<Rightarrow> bool" where
  "entryName (Inl e) = True"
| "entryName (Inr x) = (fst x \<noteq> [] \<and> fst x \<noteq> ''.'' \<and> fst x \<noteq> ''..'')"

lemma triple_any: "triple (\<lambda>_. True) m (\<lambda>_ _. True) (\<lambda>_. True)"
  by (simp add: triple_def wp_run)

lemma triple_ret_any: "R x \<Longrightarrow> triple (\<lambda>_. True) (ret x) (\<lambda>_ _. True) R"
  by (simp add: triple_def wp_simps)

lemma readDirectoryEntry_name: "triple (\<lambda>_. True) (readDirectoryEntry k H rep d maxNameBytes) (\<lambda>_ _. True) entryName"
proof (induction k arbitrary: d)
  case 0
  show ?case unfolding readDirectoryEntry.simps by (rule triple_bind [OF triple_any] triple_ret_any | simp)+
next
  case (Suc k)
  show ?case
    unfolding readDirectoryEntry.simps
    apply (rule Suc.IH triple_bind [OF triple_any] triple_ret_any triple_case_refill triple_case_sum triple_case_prod triple_let triple_if triple_case_option | simp)+
    done
qed

text \<open>C23: an entry that the guest receives has a non-empty name other than the two dot names, of valid UTF-8 and
  within the configured length.\<close>

theorem readEntry_names:
  assumes "fst (run_state (readEntry H rep d maxNameBytes) s) = okValue (VList [VU32 kind, VStr name])"
  shows "name \<noteq> [] \<and> name \<noteq> ''.'' \<and> name \<noteq> ''..'' \<and> validUtf8 name \<and> of_nat (length name) \<le> maxNameBytes"
proof -
  have "entryName (fst (run_state (readDirectoryEntry (p_fuel s) H rep d maxNameBytes) s))"
    using triple_runD [OF readDirectoryEntry_name TrueI] by blast
  then show ?thesis
    using assms by (auto simp: readEntry_def split_beta okValue_def fsFailure_def not_less split: sum.splits prod.splits if_splits)
qed


definition listingHost :: "nat p2host" where
  "listingHost c w = (case c of
      ReadDirent f n \<Rightarrow> (RHost (RIO (direntBytes (replicate 16 7) 8 [104, 105] [0, 0]) 24 None), w)
    | _ \<Rightarrow> (RErrOpt None, w))"

theorem readEntry_names_witness:
  "fst (run_state (readEntry listingHost 1 \<lparr>ds_file = (1, 0), ds_buffer = None, ds_pos = 0, ds_end = 0\<rparr> 255) ((atTime 0)\<lparr>p_fuel := 1\<rparr>)) =
     okValue (VList [VU32 descriptorRegularFile, VStr ''hi'']) \<and> validUtf8 ''hi''"
proof -
  have rec: "linuxDirectoryRecord (direntBytes (replicate 16 7) 8 [104, 105] [0, 0]) = Inr ([104, 105], 8, 24)"
    by code_simp
  have len: "length (direntBytes (replicate 16 7) 8 [104, 105] [0, 0]) = 24" by code_simp
  have hi: "bytes_string [104, 105] = ''hi''" by code_simp
  have v: "validUtf8 ''hi''" by (simp add: validUtf8.simps)
  have r: "fst (run_state (readEntry listingHost 1 \<lparr>ds_file = (1, 0), ds_buffer = None, ds_pos = 0, ds_end = 0\<rparr> 255) ((atTime 0)\<lparr>p_fuel := 1\<rparr>)) =
     okValue (VList [VU32 descriptorRegularFile, VStr ''hi''])"
    by (simp add: readEntry_def One_nat_def refillBuffer_def listingHost_def putDir_def rec len hi v nativeDirectoryType_def Let_def)
  then show ?thesis using readEntry_names [OF r] by simp
qed

end
