(* ===== verification/Fs_Handlers.thy ===== *)
theory Fs_Handlers
  imports Fs_Directory
begin

text \<open>
  The host functions of \<^verbatim>\<open>wasi:filesystem\<close> that \<^verbatim>\<open>filesystemOptions\<close> (\<^verbatim>\<open>p2/filesystem.go\<close>) binds. The component runtime checks
  the declared types before it calls, so that a handler has its arguments unpacked, a flag word or a handle
  as a word and a path as a string; arguments that the source inspects itself stay dynamically typed. Every
  handler keeps the invariant of \<^verbatim>\<open>P2_Authority\<close>; one that adds a resource moves a counter by one.
\<close>

unbundle bit_operations_syntax

section \<open>Shared steps\<close>

text \<open>The lookup of \<^verbatim>\<open>self\<close>, whose failure is a trap, and the last step of a handler without a result.\<close>

definition withDesc :: "u32 \<Rightarrow> (descriptorNode \<Rightarrow> ('w p2, hostResult) state) \<Rightarrow> ('w p2, hostResult) state" where
  "withDesc rep k = do { n \<leftarrow> desc rep; case n of Inl e \<Rightarrow> ret (Inl e) | Inr n \<Rightarrow> k n }"

definition answer :: "goerr option \<Rightarrow> hostResult" where
  "answer e = (case e of Some e \<Rightarrow> fsFailure e | None \<Rightarrow> okValue VNil)"

definition newOwnResult :: "'w p2host \<Rightarrow> u32 \<Rightarrow> u32 \<Rightarrow> ('w p2, hostResult) state" where
  "newOwnResult H tag rep = do { h \<leftarrow> p2Call H (NewOwn tag rep); ret (okValue (VU32 (asHandle h))) }"

section \<open>Opening\<close>

text \<open>The open flags of \<^verbatim>\<open>open-at\<close>; \<^verbatim>\<open>O_WRITE_ATTRIBUTES\<close> is 0 on Linux.\<close>

definition openAtFlags :: "u32 \<Rightarrow> u32 \<Rightarrow> u64" where
  "openAtFlags openFlags descFlags =
     (let readable = descFlags AND 1 \<noteq> 0;
          writable = descFlags AND 2 \<noteq> 0;
          flags = (if readable \<and> writable then O_RDWR else if writable then O_WRONLY else 0);
          (flags, writable) = (if openFlags AND 2 \<noteq> 0 then (O_DIRECTORY, False) else (flags, writable));
          flags = (if openFlags AND 1 \<noteq> 0 then flags OR O_CREAT else flags);
          flags = (if openFlags AND 4 \<noteq> 0 then flags OR O_EXCL else flags)
      in if openFlags AND 8 \<noteq> 0 \<and> writable then flags OR O_TRUNC else flags)"

definition openAtH :: "'w p2host \<Rightarrow> u32 \<Rightarrow> u32 \<Rightarrow> string \<Rightarrow> u32 \<Rightarrow> u32 \<Rightarrow> ('w p2, hostResult) state" where
  "openAtH H rep pathFlags path openFlags descFlags = withDesc rep (\<lambda>n.
     if \<not> d_isDir n then ret (fsFailure (Errno ENOTDIR))
     else (case validateChildFlags n descFlags openFlags of
         Some e \<Rightarrow> ret (fsFailure e)
       | None \<Rightarrow> do {
           f \<leftarrow> openUnderPathFlags H (d_file n) path (openAtFlags openFlags descFlags) 420 pathFlags;
           case f of
             Inl e \<Rightarrow> ret (fsFailure e)
           | Inr f \<Rightarrow> do {
               info \<leftarrow> osStat H f;
               case info of
                 Inl e \<Rightarrow> do { _ \<leftarrow> osClose H f; ret (fsFailure e) }
               | Inr info \<Rightarrow> do {
                   let node = \<lparr>d_file = f, d_mount = d_mount n, d_flags = descFlags, d_isDir = isDir info,
                     d_append = (if isDir info then None else Some (appendTargetForFile info))\<rparr>;
                   r \<leftarrow> addDesc H node;
                   case r of
                     Inl e \<Rightarrow> do { _ \<leftarrow> osClose H f; ret (fsFailure e) }
                   | Inr rep \<Rightarrow> newOwnResult H descriptorResource rep } } }))"

section \<open>Metadata\<close>

definition getType :: "'w p2host \<Rightarrow> u32 \<Rightarrow> ('w p2, hostResult) state" where
  "getType H rep = withDesc rep (\<lambda>n. do {
     i \<leftarrow> osStat H (d_file n);
     ret (case i of Inl e \<Rightarrow> fsFailure e | Inr i \<Rightarrow> okValue (VU32 (descriptorKind i))) })"

definition getFlags :: "u32 \<Rightarrow> ('w p2, hostResult) state" where
  "getFlags rep = withDesc rep (\<lambda>n. ret (okValue (VU32 (d_flags n))))"

definition statH :: "'w p2host \<Rightarrow> u32 \<Rightarrow> ('w p2, hostResult) state" where
  "statH H rep = withDesc rep (\<lambda>n. do {
     i \<leftarrow> statFile H (d_file n);
     ret (case i of Inl e \<Rightarrow> fsFailure e | Inr i \<Rightarrow> okValue (statValue i)) })"

definition statAt :: "'w p2host \<Rightarrow> u32 \<Rightarrow> u32 \<Rightarrow> string \<Rightarrow> ('w p2, hostResult) state" where
  "statAt H rep pathFlags path = withDesc rep (\<lambda>n. do {
     i \<leftarrow> statUnderPathFlags H (d_file n) path pathFlags;
     ret (case i of Inl e \<Rightarrow> fsFailure e | Inr i \<Rightarrow> okValue (statValue i)) })"

definition hashH :: "'w p2host \<Rightarrow> u32 \<Rightarrow> ('w p2, hostResult) state" where
  "hashH H rep = withDesc rep (\<lambda>n. do {
     i \<leftarrow> osStat H (d_file n);
     ret (case i of Inl e \<Rightarrow> fsFailure e | Inr i \<Rightarrow> okValue (metadataHash i)) })"

definition hashAt :: "'w p2host \<Rightarrow> u32 \<Rightarrow> u32 \<Rightarrow> string \<Rightarrow> ('w p2, hostResult) state" where
  "hashAt H rep pathFlags path = withDesc rep (\<lambda>n. do {
     i \<leftarrow> statUnderPathFlags H (d_file n) path pathFlags;
     ret (case i of Inl e \<Rightarrow> fsFailure e | Inr i \<Rightarrow> okValue (metadataHash i)) })"

definition isSame :: "'w p2host \<Rightarrow> u32 \<Rightarrow> u32 \<Rightarrow> ('w p2, hostResult) state" where
  "isSame H rep rep' = withDesc rep (\<lambda>a. withDesc rep' (\<lambda>b. do {
     ai \<leftarrow> osStat H (d_file a);
     case ai of
       Inl e \<Rightarrow> ret (Inl e)
     | Inr ai \<Rightarrow> do {
         bi \<leftarrow> osStat H (d_file b);
         ret (case bi of Inl e \<Rightarrow> Inl e | Inr bi \<Rightarrow> Inr [VBool (sameFile ai bi)]) } }))"

text \<open>\<^verbatim>\<open>filesystemErrorCode\<close>; \<^verbatim>\<open>ioState\<close> is set when the options of an instance are built.\<close>

definition filesystemErrorCode :: "val list \<Rightarrow> ('w p2, hostResult) state" where
  "filesystemErrorCode args = (case args of
      [a] \<Rightarrow> (case a of
          VU32 rep \<Rightarrow> do {
            h \<leftarrow> gets p_host;
            ret (Inr [case map_of (h_errors h) rep of None \<Rightarrow> VNil | Some e \<Rightarrow> VU32 (fsError e)]) }
        | _ \<Rightarrow> ret (Inl (OtherError ''filesystem-error-code: invalid error resource'')))
    | _ \<Rightarrow> ret (Inr [VNil]))"

section \<open>Streams\<close>

definition openStream :: "'w p2host \<Rightarrow> u32 \<Rightarrow> fileStream \<Rightarrow> ('w p2, hostResult) state" where
  "openStream H tag st = do {
     r \<leftarrow> addStream st;
     case r of
       Inl e \<Rightarrow> do { _ \<leftarrow> osClose H (st_file st); ret (fsFailure e) }
     | Inr rep \<Rightarrow> newOwnResult H tag rep }"

definition readViaStream :: "'w p2host \<Rightarrow> u32 \<Rightarrow> u64 \<Rightarrow> ('w p2, hostResult) state" where
  "readViaStream H rep offset = withDesc rep (\<lambda>n.
     if d_flags n AND 1 = 0 then ret (fsFailure (Errno EBADF))
     else do {
       f \<leftarrow> dupFile H (d_file n);
       case f of
         Inl e \<Rightarrow> ret (fsFailure e)
       | Inr f \<Rightarrow> (case checkedOffset offset of
             Inl e \<Rightarrow> do { _ \<leftarrow> osClose H f; ret (fsFailure e) }
           | Inr off \<Rightarrow> openStream H inputStreamResource
               \<lparr>st_file = f, st_pos = off, st_read = True, st_closed = False, st_append = None\<rparr>) })"

definition writeViaStream :: "'w p2host \<Rightarrow> u32 \<Rightarrow> u64 \<Rightarrow> ('w p2, hostResult) state" where
  "writeViaStream H rep offset = withDesc rep (\<lambda>n.
     if d_flags n AND 2 = 0 then ret (fsFailure (Errno EBADF))
     else do {
       f \<leftarrow> dupFile H (d_file n);
       case f of
         Inl e \<Rightarrow> ret (fsFailure e)
       | Inr f \<Rightarrow> (case checkedOffset offset of
             Inl e \<Rightarrow> do { _ \<leftarrow> osClose H f; ret (fsFailure e) }
           | Inr off \<Rightarrow> openStream H outputStreamResource
               \<lparr>st_file = f, st_pos = off, st_read = False, st_closed = False, st_append = None\<rparr>) })"

definition appendViaStream :: "'w p2host \<Rightarrow> u32 \<Rightarrow> ('w p2, hostResult) state" where
  "appendViaStream H rep = withDesc rep (\<lambda>n.
     if d_flags n AND 2 = 0 then ret (fsFailure (Errno EBADF))
     else do {
       f \<leftarrow> dupFile H (d_file n);
       case f of
         Inl e \<Rightarrow> ret (fsFailure e)
       | Inr f \<Rightarrow> openStream H outputStreamResource
           \<lparr>st_file = f, st_pos = 0, st_read = False, st_closed = False, st_append = d_append n\<rparr> })"

section \<open>Directories\<close>

definition newDirectoryStreamFile :: "'w p2host \<Rightarrow> fileid \<Rightarrow> ('w p2, goerr + fileid) state" where
  "newDirectoryStreamFile H dir = openUnder H dir ''.'' O_DIRECTORY 0"

definition readDirectory :: "'w p2host \<Rightarrow> u32 \<Rightarrow> ('w p2, hostResult) state" where
  "readDirectory H rep = withDesc rep (\<lambda>n.
     if \<not> d_isDir n then ret (fsFailure (Errno ENOTDIR))
     else do {
       f \<leftarrow> newDirectoryStreamFile H (d_file n);
       case f of
         Inl e \<Rightarrow> ret (fsFailure e)
       | Inr f \<Rightarrow> do {
           fs \<leftarrow> gets p_fs;
           if of_nat (length (f_dirs fs)) \<ge> MaxDirectoryStreams (f_limits fs) then do {
             _ \<leftarrow> osClose H f;
             ret (fsFailure (Errno EMFILE)) }
           else do {
             onFs (\<lambda>fs. fs\<lparr>f_nextDir := f_nextDir fs + 1, f_dirs := AList.update (f_nextDir fs)
               \<lparr>ds_file = f, ds_buffer = None, ds_pos = 0, ds_end = 0\<rparr> (f_dirs fs)\<rparr>);
             newOwnResult H directoryStreamResource (f_nextDir fs) } } })"

definition readDirectoryEntryH :: "'w p2host \<Rightarrow> u32 \<Rightarrow> ('w p2, hostResult) state" where
  "readDirectoryEntryH H rep = do {
     fs \<leftarrow> gets p_fs;
     case map_of (f_dirs fs) rep of
       None \<Rightarrow> ret (Inl (OtherError ''unknown directory stream''))
     | Some d \<Rightarrow> readEntry H rep d (MaxDirectoryEntryBytes (f_limits fs)) }"

section \<open>Changes of directories\<close>

definition createDirectoryAt :: "'w p2host \<Rightarrow> u32 \<Rightarrow> string \<Rightarrow> ('w p2, hostResult) state" where
  "createDirectoryAt H rep path = withDesc rep (\<lambda>n.
     if d_flags n AND 32 = 0 then ret (fsFailure (Errno EROFS))
     else do {
       r \<leftarrow> parentUnder H (d_file n) path;
       case r of
         Inl e \<Rightarrow> ret (fsFailure e)
       | Inr (p, name) \<Rightarrow> do {
           e \<leftarrow> osDo H (Os (HMkdirat p name 493));
           _ \<leftarrow> osClose H p;
           ret (answer e) } })"

definition platformUnlinkAt :: "'w p2host \<Rightarrow> fileid \<Rightarrow> string \<Rightarrow> bool \<Rightarrow> ('w p2, goerr option) state" where
  "platformUnlinkAt H parent leaf dir = osDo H (Os (HUnlinkat parent leaf dir))"

definition removeAtH :: "'w p2host \<Rightarrow> bool \<Rightarrow> u32 \<Rightarrow> string \<Rightarrow> ('w p2, hostResult) state" where
  "removeAtH H dir rep path = withDesc rep (\<lambda>n.
     if d_flags n AND 32 = 0 then ret (fsFailure (Errno EROFS))
     else do {
       r \<leftarrow> parentUnderRaw H (d_file n) path;
       case r of
         Inl e \<Rightarrow> ret (fsFailure e)
       | Inr (p, name) \<Rightarrow> do {
           e \<leftarrow> platformUnlinkAt H p name dir;
           _ \<leftarrow> osClose H p;
           ret (answer e) } })"

definition renameat :: "'w p2host \<Rightarrow> fileid \<Rightarrow> string \<Rightarrow> fileid \<Rightarrow> string \<Rightarrow> ('w p2, goerr option) state" where
  "renameat H oldDir oldPath newDir newPath = do {
     err \<leftarrow> osDo H (Os (HRenameat oldDir oldPath newDir newPath));
     ret (if err = Some (Errno EEXIST) then Some (Errno ENOTEMPTY) else err) }"

definition renameAtH :: "'w p2host \<Rightarrow> u32 \<Rightarrow> string \<Rightarrow> u32 \<Rightarrow> string \<Rightarrow> ('w p2, hostResult) state" where
  "renameAtH H rep path rep' path' = withDesc rep (\<lambda>a. withDesc rep' (\<lambda>b.
     if d_flags a AND 32 = 0 \<or> d_flags b AND 32 = 0 then ret (fsFailure (Errno EROFS))
     else if d_mount a \<noteq> d_mount b then ret (fsFailure (Errno EXDEV))
     else do {
       r \<leftarrow> parentUnderRaw H (d_file a) path;
       case r of
         Inl e \<Rightarrow> ret (fsFailure e)
       | Inr (ap, an) \<Rightarrow> do {
           r \<leftarrow> parentUnderRaw H (d_file b) path';
           case r of
             Inl e \<Rightarrow> do { _ \<leftarrow> osClose H ap; ret (fsFailure e) }
           | Inr (bp, bn) \<Rightarrow> do {
               e \<leftarrow> renameat H ap an bp bn;
               _ \<leftarrow> osClose H bp;
               _ \<leftarrow> osClose H ap;
               ret (answer e) } } }))"

definition linkAtH :: "'w p2host \<Rightarrow> u32 \<Rightarrow> u32 \<Rightarrow> string \<Rightarrow> u32 \<Rightarrow> string \<Rightarrow> ('w p2, hostResult) state" where
  "linkAtH H rep pathFlags path rep' path' = withDesc rep (\<lambda>a. withDesc rep' (\<lambda>b.
     (case requireDirectoryMutation b of
        Some e \<Rightarrow> ret (fsFailure e)
      | None \<Rightarrow>
          if d_mount a \<noteq> d_mount b then ret (fsFailure (Errno EXDEV))
          else if pathFlags AND 1 \<noteq> 0 then ret (fsFailure (Errno ENOTSUP))
          else do {
            r \<leftarrow> parentUnder H (d_file a) path;
            case r of
              Inl e \<Rightarrow> ret (fsFailure e)
            | Inr (ap, an) \<Rightarrow> do {
                r \<leftarrow> parentUnder H (d_file b) path';
                case r of
                  Inl e \<Rightarrow> do { _ \<leftarrow> osClose H ap; ret (fsFailure e) }
                | Inr (bp, bn) \<Rightarrow> do {
                    e \<leftarrow> osDo H (Os (HLinkat ap an bp bn));
                    _ \<leftarrow> osClose H bp;
                    _ \<leftarrow> osClose H ap;
                    ret (answer e) } } })))"

definition readlinkAt :: "'w p2host \<Rightarrow> u32 \<Rightarrow> string \<Rightarrow> ('w p2, hostResult) state" where
  "readlinkAt H rep path = withDesc rep (\<lambda>n. do {
     r \<leftarrow> readlinkUnder H (d_file n) path;
     ret (case r of Inl e \<Rightarrow> fsFailure e | Inr target \<Rightarrow> okValue (VStr target)) })"

definition symlinkAtH :: "'w p2host \<Rightarrow> u32 \<Rightarrow> string \<Rightarrow> string \<Rightarrow> ('w p2, hostResult) state" where
  "symlinkAtH H rep oldPath newPath = withDesc rep (\<lambda>n.
     (case requireDirectoryMutation n of
        Some e \<Rightarrow> ret (fsFailure e)
      | None \<Rightarrow> do { e \<leftarrow> symlinkUnder H (d_file n) oldPath newPath; ret (answer e) }))"

section \<open>Contents\<close>

definition syncDescriptor :: "'w p2host \<Rightarrow> descriptorNode \<Rightarrow> bool \<Rightarrow> ('w p2, goerr option) state" where
  "syncDescriptor H n dataOnly =
     (if d_flags n AND 2 = 0 then ret None
      else if dataOnly then osDo H (Fdatasync (d_file n))
      else osDo H (Os (HSync (d_file n))))"

definition syncFile :: "'w p2host \<Rightarrow> u32 \<Rightarrow> ('w p2, hostResult) state" where
  "syncFile H rep = withDesc rep (\<lambda>n. do { e \<leftarrow> syncDescriptor H n False; ret (answer e) })"

definition syncData :: "'w p2host \<Rightarrow> u32 \<Rightarrow> ('w p2, hostResult) state" where
  "syncData H rep = withDesc rep (\<lambda>n. do { e \<leftarrow> syncDescriptor H n True; ret (answer e) })"

definition advise :: "('w p2, hostResult) state" where
  "advise = ret (fsFailure (Errno ENOTSUP))"

definition setSize :: "'w p2host \<Rightarrow> u32 \<Rightarrow> u64 \<Rightarrow> ('w p2, hostResult) state" where
  "setSize H rep len = withDesc rep (\<lambda>n.
     if d_flags n AND 2 = 0 then ret (fsFailure (Errno EROFS))
     else (case checkedOffset len of
         Inl e \<Rightarrow> ret (fsFailure e)
       | Inr len \<Rightarrow> do { e \<leftarrow> osDo H (Os (HTruncate (d_file n) len)); ret (answer e) }))"

definition directRead :: "'w p2host \<Rightarrow> u32 \<Rightarrow> u64 \<Rightarrow> u64 \<Rightarrow> ('w p2, hostResult) state" where
  "directRead H rep len offset = withDesc rep (\<lambda>n.
     if d_flags n AND 1 = 0 then ret (fsFailure (Errno EBADF))
     else do {
       fs \<leftarrow> gets p_fs;
       let len = (if len > ioLimit (f_limits fs) then ioLimit (f_limits fs) else len);
       case checkedOffset offset of
         Inl e \<Rightarrow> ret (fsFailure e)
       | Inr offset \<Rightarrow> do {
           r \<leftarrow> p2Call H (Os (HReadAt (d_file n) (unat len) offset));
           ret (case asIO (asHost r) of (b, got, readErr) \<Rightarrow>
             let buf = take (nat got) (take (unat len) b);
                 eof = (case readErr of None \<Rightarrow> False | Some e \<Rightarrow> errorsIs e EOF) in
             case readErr of
               Some e \<Rightarrow> if eof then okValue (VList [VBytes buf, VBool eof]) else fsFailure e
             | None \<Rightarrow> okValue (VList [VBytes buf, VBool eof])) } })"

definition directWrite :: "'w p2host \<Rightarrow> u32 \<Rightarrow> val \<Rightarrow> u64 \<Rightarrow> ('w p2, hostResult) state" where
  "directWrite H rep contents offset = withDesc rep (\<lambda>n.
     if d_flags n AND 2 = 0 then ret (fsFailure (Errno EROFS))
     else (case bytesValue contents of
         Inl e \<Rightarrow> ret (Inl e)
       | Inr buf \<Rightarrow> (case checkedOffset offset of
             Inl e \<Rightarrow> ret (fsFailure e)
           | Inr offset \<Rightarrow> do {
               r \<leftarrow> p2Call H (WriteAt (d_file n) buf offset);
               ret (case asIO (asHost r) of (b, got, e) \<Rightarrow>
                 case (if e = None \<and> got \<noteq> int (length buf) then Some ErrShortWrite else e) of
                   Some e \<Rightarrow> fsFailure e
                 | None \<Rightarrow> okValue (VU64 (of_int got))) })))"

definition setTimesH :: "'w p2host \<Rightarrow> u32 \<Rightarrow> val \<Rightarrow> val \<Rightarrow> ('w p2, hostResult) state" where
  "setTimesH H rep access modification = withDesc rep (\<lambda>n.
     if d_flags n AND 2 = 0 then ret (fsFailure (Errno EROFS))
     else do { e \<leftarrow> setDescriptorTimes H (d_file n) access modification; ret (answer e) })"

definition setTimesAt :: "'w p2host \<Rightarrow> u32 \<Rightarrow> u32 \<Rightarrow> string \<Rightarrow> val \<Rightarrow> val \<Rightarrow> ('w p2, hostResult) state" where
  "setTimesAt H rep pathFlags path access modification = withDesc rep (\<lambda>n.
     (case requireDirectoryMutation n of
        Some e \<Rightarrow> ret (fsFailure e)
      | None \<Rightarrow> do {
          e \<leftarrow> setTimesUnderPathFlags H (d_file n) path pathFlags access modification;
          ret (answer e) }))"

section \<open>Rights of a descriptor\<close>

lemma and_exp_subset:
  assumes "(w AND 0x23) AND NOT g = (0 :: u32)" and "w AND 2 ^ k \<noteq> 0" and "bit (0x23 :: u32) k"
  shows "g AND 2 ^ k = 2 ^ k"
proof -
  have k: "bit w k" using assms(2) and_exp_eq_0_iff_not_bit [of w k] by simp
  then have "k < 32" by (auto dest: bit_imp_le_length)
  have "\<not> bit ((w AND 0x23) AND NOT g) k" using assms(1) by simp
  then have "bit g k" using k assms(3) \<open>k < 32\<close> by (simp only: bit_and_iff bit_not_iff possible_bit_word) simp
  then show ?thesis by (auto intro!: bit_word_eqI simp: bit_simps)
qed

lemma nodeOk_grants:
  assumes "nodeOk A n"
  shows "d_flags n AND 1 \<noteq> 0 \<Longrightarrow> grants A (d_file n) 1" "d_flags n AND 2 \<noteq> 0 \<Longrightarrow> grants A (d_file n) 2"
    "d_flags n AND 32 \<noteq> 0 \<Longrightarrow> grants A (d_file n) 32"
  using and_exp_subset [of "d_flags n" "a2_flags A (Suc (d_mount n))" 0]
    and_exp_subset [of "d_flags n" "a2_flags A (Suc (d_mount n))" 1]
    and_exp_subset [of "d_flags n" "a2_flags A (Suc (d_mount n))" 5] assms
  by (simp_all add: nodeOk_def grants_def)

lemma grants_or: "grants A f v \<Longrightarrow> grants A f w \<Longrightarrow> grants A f (v OR w)"
  by (simp add: grants_def bit.conj_disj_distrib)

lemma openAtFlags_allowed:
  assumes "nodeOk A n" and "validateChildFlags n descFlags openFlags = None"
  shows "openOk2 A (d_file n) (openAtFlags openFlags descFlags)"
proof -
  have w: "d_flags n AND 2 \<noteq> 0 \<and> d_flags n AND 32 \<noteq> 0" if "descFlags AND 2 \<noteq> 0"
    using assms(2) that by (auto simp: validateChildFlags_def requireDirectoryMutation_def split: if_splits)
  have c: "d_flags n AND 32 \<noteq> 0" if "openFlags AND 1 \<noteq> 0"
    using childFlags_narrow [OF assms(2)] that by (metis bit.conj_disj_distrib or_eq_0_iff)
  show ?thesis
    using w c nodeOk_grants(2,3) [OF assms(1)] grants_or [of A "d_file n" 2 32]
    by (auto simp: openOk2_def openAtFlags_def Let_def)
qed

lemma nodeOk_child:
  assumes "nodeOk A n" and "validateChildFlags n descFlags openFlags = None" and "fst f = fst (d_file n)"
  shows "nodeOk A \<lparr>d_file = f, d_mount = d_mount n, d_flags = descFlags, d_isDir = x, d_append = y\<rparr>"
proof -
  have "(v AND 0x23) AND NOT w = 0 \<Longrightarrow> (w AND 0x23) AND NOT g = 0 \<Longrightarrow> (v AND 0x23) AND NOT g = 0" for v w g :: u32
  proof (rule bit_word_eqI)
    fix k assume v: "(v AND 0x23) AND NOT w = 0" and w: "(w AND 0x23) AND NOT g = 0" and k: "k < LENGTH(32)"
    have "\<not> bit ((v AND 0x23) AND NOT w) k" "\<not> bit ((w AND 0x23) AND NOT g) k" unfolding v w by simp_all
    then show "bit ((v AND 0x23) AND NOT g) k = bit 0 k" by (simp only: bit_and_iff bit_not_iff bit_0_eq) auto
  qed
  from this [OF conjunct1 [OF childFlags_narrow [OF assms(2)]]]
  show ?thesis using assms(1,3) by (simp add: nodeOk_def)
qed

section \<open>Every handler keeps the invariant\<close>

lemma nodeOk_root: "nodeOk A n \<Longrightarrow> fst (d_file n) = Suc (d_mount n)"
  by (simp add: nodeOk_def)

lemma nodeOk_mount:
  "nodeOk A n \<Longrightarrow> d_flags n AND 1 \<noteq> 0 \<Longrightarrow> a2_flags A (Suc (d_mount n)) AND 1 = 1"
  "nodeOk A n \<Longrightarrow> d_flags n AND 2 \<noteq> 0 \<Longrightarrow> a2_flags A (Suc (d_mount n)) AND 2 = 2"
  "nodeOk A n \<Longrightarrow> d_flags n AND 32 \<noteq> 0 \<Longrightarrow> a2_flags A (Suc (d_mount n)) AND 32 = 32"
  using nodeOk_grants [of A n] by (simp_all add: grants_def nodeOk_root)

lemma triple_withDesc [p2vcg]:
  assumes "\<And>n. nodeOk A n \<Longrightarrow> triple (Inv2 A b F) (k n) (\<lambda>_. Inv2 A b' F) (\<lambda>_. True)" and "b \<le> b'" and "b' < 2 ^ 32 \<or> b' = b"
  shows "triple (Inv2 A b F) (withDesc rep k) (\<lambda>_. Inv2 A b' F) (\<lambda>_. True)"
  using assms unfolding withDesc_def
  apply -
  apply (rule assms(1) p2vcg | assumption | simp)+
  done

lemma opens_parentUnderRaw [p2vcg]:
  "triple (Inv2 A b F) (parentUnderRaw H dir name) (\<lambda>r. Inv2 A b (heldLeaf r F)) (leafRoot (fst dir))"
  using opens_parentUnder unfolding parentUnder_def .

lemma keeps_newOwnResult [p2vcg]: "keeps A b F (newOwnResult H tag rep) (\<lambda>_. True)"
  unfolding newOwnResult_def by (rule p2vcg | simp)+

lemma opens_newDirectoryStreamFile [p2vcg]: "opens A b F (fst dir) (newDirectoryStreamFile H dir)"
proof -
  have "splitRelative ''.'' = Inr []" by code_simp
  then show ?thesis unfolding newDirectoryStreamFile_def openUnder_def by (simp add: opens_osOpenat)
qed

lemma keeps_syncDescriptor [p2vcg]: "nodeOk A n \<Longrightarrow> keeps A b F (syncDescriptor H n dataOnly) (\<lambda>_. True)"
  unfolding syncDescriptor_def by (rule p2vcg | simp add: nodeOk_grants)+

lemma keeps_getType [p2vcg]: "keeps A b F (getType H rep) (\<lambda>_. True)"
  unfolding getType_def by (rule p2vcg | simp)+

lemma keeps_getFlags [p2vcg]: "keeps A b F (getFlags rep) (\<lambda>_. True)"
  unfolding getFlags_def by (rule p2vcg | simp)+

lemma keeps_statH [p2vcg]: "keeps A b F (statH H rep) (\<lambda>_. True)"
  unfolding statH_def by (rule p2vcg | simp)+

lemma keeps_statAt [p2vcg]: "keeps A b F (statAt H rep pathFlags path) (\<lambda>_. True)"
  unfolding statAt_def by (rule p2vcg | simp)+

lemma keeps_hashH [p2vcg]: "keeps A b F (hashH H rep) (\<lambda>_. True)"
  unfolding hashH_def by (rule p2vcg | simp)+

lemma keeps_hashAt [p2vcg]: "keeps A b F (hashAt H rep pathFlags path) (\<lambda>_. True)"
  unfolding hashAt_def by (rule p2vcg | simp)+

lemma keeps_isSame [p2vcg]: "keeps A b F (isSame H rep rep') (\<lambda>_. True)"
  unfolding isSame_def by (rule p2vcg | simp)+

lemma keeps_filesystemErrorCode [p2vcg]: "keeps A b F (filesystemErrorCode args) (\<lambda>_. True)"
  unfolding filesystemErrorCode_def by (auto simp: triple_def wp_simps split: list.split val.split)

lemma keeps_createDirectoryAt [p2vcg]: "keeps A b F (createDirectoryAt H rep path) (\<lambda>_. True)"
  unfolding createDirectoryAt_def by (rule p2vcg | simp add: nodeOk_mount grants_def nodeOk_root | blast)+

lemma keeps_readlinkAt [p2vcg]: "keeps A b F (readlinkAt H rep path) (\<lambda>_. True)"
  unfolding readlinkAt_def by (rule p2vcg | simp)+

lemma keeps_syncFile [p2vcg]: "keeps A b F (syncFile H rep) (\<lambda>_. True)"
  unfolding syncFile_def by (rule p2vcg | assumption | simp)+

lemma keeps_syncData [p2vcg]: "keeps A b F (syncData H rep) (\<lambda>_. True)"
  unfolding syncData_def by (rule p2vcg | assumption | simp)+

lemma keeps_advise [p2vcg]: "keeps A b F advise (\<lambda>_. True)"
  unfolding advise_def by (rule keeps_ret)

lemma keeps_setSize [p2vcg]: "keeps A b F (setSize H rep len) (\<lambda>_. True)"
  unfolding setSize_def by (rule p2vcg | simp add: nodeOk_grants)+

lemma keeps_directRead [p2vcg]: "keeps A b F (directRead H rep len offset) (\<lambda>_. True)"
  unfolding directRead_def by (rule p2vcg | simp add: nodeOk_grants)+

lemma keeps_directWrite [p2vcg]: "keeps A b F (directWrite H rep contents offset) (\<lambda>_. True)"
  unfolding directWrite_def by (rule p2vcg | simp add: nodeOk_grants)+

lemma keeps_setTimesH [p2vcg]: "keeps A b F (setTimesH H rep access modification) (\<lambda>_. True)"
  unfolding setTimesH_def by (rule p2vcg | simp add: nodeOk_grants)+

lemma keeps_setTimesAt [p2vcg]: "keeps A b F (setTimesAt H rep pathFlags path access modification) (\<lambda>_. True)"
  unfolding setTimesAt_def by (rule p2vcg | simp add: nodeOk_grants requireDirectoryMutation_def split: if_splits)+

lemma keeps_symlinkAtH [p2vcg]: "keeps A b F (symlinkAtH H rep oldPath newPath) (\<lambda>_. True)"
  unfolding symlinkAtH_def by (rule p2vcg | simp add: nodeOk_grants requireDirectoryMutation_def split: if_splits)+

lemma keeps_removeAtH [p2vcg]: "keeps A b F (removeAtH H dir rep path) (\<lambda>_. True)"
  unfolding removeAtH_def platformUnlinkAt_def by (rule p2vcg | simp add: nodeOk_mount grants_def nodeOk_root | blast)+

lemma keeps_renameat [p2vcg]: "allowedOs A (HRenameat d p e q) \<Longrightarrow> keeps A b F (renameat H d p e q) (\<lambda>_. True)"
  unfolding renameat_def by (rule p2vcg | simp)+

lemma keeps_renameAtH [p2vcg]: "keeps A b F (renameAtH H rep path rep' path') (\<lambda>_. True)"
  unfolding renameAtH_def
  apply (rule p2vcg | simp add: nodeOk_mount grants_def nodeOk_root | blast)+
  done

lemma keeps_linkAtH [p2vcg]: "keeps A b F (linkAtH H rep pathFlags path rep' path') (\<lambda>_. True)"
  unfolding linkAtH_def
  apply (rule p2vcg | simp add: nodeOk_mount grants_def nodeOk_root requireDirectoryMutation_def split: if_splits | blast)+
  done

lemma keeps_readDirectoryEntryH [p2vcg]: "keeps A b F (readDirectoryEntryH H rep) (\<lambda>_. True)"
proof -
  have "wp (readDirectoryEntryH H rep) (\<lambda>_ t. Inv2 A b F t) s" if "Inv2 A b F s" for s :: "'a p2"
    using keeps_readEntry [OF that] that unfolding readDirectoryEntryH_def
    by (auto simp: wp_run split: option.split)
  then show ?thesis by (simp add: triple_def)
qed

section \<open>Handlers that add a resource\<close>

abbreviation adds :: "authority2 \<Rightarrow> nat \<Rightarrow> fileid set \<Rightarrow> ('w p2, hostResult) state \<Rightarrow> bool" where
  "adds A b F m \<equiv> triple (Inv2 A b F) m (\<lambda>_. Inv2 A (Suc b) F) (\<lambda>_. True)"

lemma adds_openStream:
  assumes "streamOk2 A st" and "Suc b < 2 ^ 32"
  shows "triple (Inv2 A b (insert (st_file st) F)) (openStream H tag st) (\<lambda>_. Inv2 A (Suc b) F) (\<lambda>_. True)"
  using assms unfolding openStream_def
  apply -
  apply (rule triple_addStream p2vcg | assumption | simp | blast)+
  done

lemma adds_readViaStream:
  assumes "Suc b < 2 ^ 32"
  shows "adds A b F (readViaStream H rep offset)"
  using assms unfolding readViaStream_def
  apply -
  apply (rule triple_pre2 [OF adds_openStream] p2vcg | assumption | simp add: streamOk2_def nodeOk_mount grants_def nodeOk_root | blast)+
  done

lemma adds_writeViaStream:
  assumes "Suc b < 2 ^ 32"
  shows "adds A b F (writeViaStream H rep offset)"
  using assms unfolding writeViaStream_def
  apply -
  apply (rule triple_pre2 [OF adds_openStream] p2vcg | assumption | simp add: streamOk2_def nodeOk_mount grants_def nodeOk_root | blast)+
  done

lemma adds_appendViaStream:
  assumes "Suc b < 2 ^ 32"
  shows "adds A b F (appendViaStream H rep)"
  using assms unfolding appendViaStream_def
  apply -
  apply (rule triple_pre2 [OF adds_openStream] p2vcg | assumption | simp add: streamOk2_def nodeOk_mount grants_def nodeOk_root | blast)+
  done

lemma Inv2_addDir:
  assumes "Inv2 A b (insert f F) s" and "Suc b < 2 ^ 32"
    and "length (f_dirs (p_fs s)) < unat (MaxDirectoryStreams (a2_limits A))" and "ds_file d = f"
  shows "Inv2 A (Suc b) F (s\<lparr>p_fs := (p_fs s)\<lparr>f_nextDir := f_nextDir (p_fs s) + 1,
    f_dirs := AList.update (f_nextDir (p_fs s)) d (f_dirs (p_fs s))\<rparr>\<rparr>)"
proof -
  let ?fs = "p_fs s"
  have ok: "fsOk A b ?fs" using assms(1) by (rule Inv2_fsOk)
  have k: "keyed (f_nextDir ?fs) (f_dirs ?fs)" "unat (f_nextDir ?fs) \<le> b" using ok by (simp_all add: fsOk_def)
  have ins: "keyed (f_nextDir ?fs + 1) (AList.update (f_nextDir ?fs) d (f_dirs ?fs))" "f_nextDir ?fs \<notin> fst ` set (f_dirs ?fs)"
    using keyed_insert [OF k(1), of d] k(2) assms(2) by simp_all
  have suc: "unat (f_nextDir ?fs + 1) \<le> Suc b" using k(2) assms(2) by (simp add: unat_word_ariths)
  have snd: "snd ` set (AList.update (f_nextDir ?fs) d (f_dirs ?fs)) = insert d (snd ` set (f_dirs ?fs))"
    using k(1) ins(2) by (intro snd_update) (simp_all add: keyed_def)
  have "fsOk A (Suc b) (?fs\<lparr>f_nextDir := f_nextDir ?fs + 1, f_dirs := AList.update (f_nextDir ?fs) d (f_dirs ?fs)\<rparr>)"
    using ok ins suc assms(2,3) unfolding fsOk_def by (simp add: length_AList_update)
  then show ?thesis using assms(1,4) by (simp add: Inv2_def owned2_def snd)
qed

lemma triple_addDir:
  assumes "Suc b < 2 ^ 32"
  shows "triple (Inv2 A b (insert f F)) (do {
      fs \<leftarrow> gets p_fs;
      if of_nat (length (f_dirs fs)) \<ge> MaxDirectoryStreams (f_limits fs) then do { _ \<leftarrow> osClose H f; ret (fsFailure (Errno EMFILE)) }
      else do {
        onFs (\<lambda>fs. fs\<lparr>f_nextDir := f_nextDir fs + 1, f_dirs := AList.update (f_nextDir fs)
          \<lparr>ds_file = f, ds_buffer = None, ds_pos = 0, ds_end = 0\<rparr> (f_dirs fs)\<rparr>);
        newOwnResult H directoryStreamResource (f_nextDir fs) } }) (\<lambda>_. Inv2 A (Suc b) F) (\<lambda>_. True)"
proof -
  let ?d = "\<lparr>ds_file = f, ds_buffer = None, ds_pos = 0, ds_end = 0\<rparr>"
  have own: "wp (newOwnResult H tag rep) (\<lambda>_ t. Inv2 A (Suc b) F t) t" if "Inv2 A (Suc b) F t" for tag rep and t :: "'a p2"
    using keeps_newOwnResult [of A "Suc b" F H tag rep] that by (simp add: triple_def)
  have close: "wp (osClose H f) (\<lambda>_. wp (ret x) (\<lambda>_. Inv2 A (Suc b) F)) s" if "Inv2 A b (insert f F) s" for x :: hostResult and s :: "'a p2"
    using keeps_close [OF Inv2_Suc [OF that assms]] by (rule wp_mono) (simp add: wp_return)
  have add: "Inv2 A (Suc b) F (s\<lparr>p_fs := (p_fs s)\<lparr>f_nextDir := f_nextDir (p_fs s) + 1, f_dirs := AList.update (f_nextDir (p_fs s)) ?d (f_dirs (p_fs s))\<rparr>\<rparr>)"
    if "Inv2 A b (insert f F) s" "\<not> of_nat (length (f_dirs (p_fs s))) \<ge> MaxDirectoryStreams (f_limits (p_fs s))" for s :: "'a p2"
    using Inv2_addDir [OF that(1) assms fsOk_room(3) [OF Inv2_fsOk [OF that(1)] that(2)], of ?d] by simp
  show ?thesis
    unfolding triple_def
    by (simp add: wp_bind wp_gets wp_if wp_onFs wp_return close add own)
qed

lemma adds_readDirectory:
  assumes "Suc b < 2 ^ 32"
  shows "adds A b F (readDirectory H rep)"
  using assms unfolding readDirectory_def
  apply -
  apply (rule triple_pre2 [OF triple_addDir] opens_newDirectoryStreamFile triple_withDesc triple_if triple_bind triple_case_sum triple_return2 | assumption | simp)+
  done

lemma adds_openAtH:
  assumes "Suc b < 2 ^ 32"
  shows "adds A b F (openAtH H rep pathFlags path openFlags descFlags)"
proof -
  let ?node = "\<lambda>n f info. \<lparr>d_file = f, d_mount = d_mount n, d_flags = descFlags, d_isDir = isDir info,
     d_append = (if isDir info then None else Some (appendTargetForFile info))\<rparr>"
  have add: "triple (Inv2 A b (insert f F)) (addDesc H (?node n f info)) (\<lambda>r. Inv2 A (Suc b) (refused r f F)) (\<lambda>_. True)"
    if "nodeOk A n" "validateChildFlags n descFlags openFlags = None" "atRoot (fst (d_file n)) (Inr f)" for n f info
    using triple_addDesc [OF nodeOk_child [OF that(1,2), of f] assms] that(3) by (simp split del: if_split)
  have go: "triple (Inv2 A b (held a F)) (do {
        r \<leftarrow> addDesc H (?node n f info);
        case r of Inl e \<Rightarrow> do { _ \<leftarrow> osClose H f; ret (fsFailure e) } | Inr rep \<Rightarrow> newOwnResult H descriptorResource rep })
        (\<lambda>_. Inv2 A (Suc b) F) (\<lambda>_. True)"
    if "nodeOk A n" "validateChildFlags n descFlags openFlags = None" "atRoot (fst (d_file n)) a" "a = Inr f" for n a f info
    using that unfolding that(4) held.simps by - (rule add p2vcg | assumption | simp split del: if_split | blast)+
  show ?thesis
    using assms unfolding openAtH_def Let_def
    apply -
    apply (rule go p2vcg | assumption | simp add: openAtFlags_allowed split del: if_split | blast)+
    done
qed

end
