(* ===== verification/P2_Bindings.thy ===== *)
theory P2_Bindings
  imports Fs_Handlers
begin

text \<open>
  The imports that Preview 2 binds: the tables of \<^verbatim>\<open>instanceOptions\<close> (\<^verbatim>\<open>p2.go\<close>), \<^verbatim>\<open>clockOptions\<close> (\<^verbatim>\<open>clocks.go\<close>), \<^verbatim>\<open>filesystemOptions\<close>
  (\<^verbatim>\<open>filesystem.go\<close>) and \<^verbatim>\<open>socketOptions\<close> (\<^verbatim>\<open>sockets.go\<close>) as lists of a pair of interface and function name with the host
  function, and the destructors of the resources. The declared types of \<^verbatim>\<open>custom\<close> are checked by the component
  runtime; the assertions of a handler on its arguments, made where they
  are first used, stand together before its body, and one that fails is a panic, which becomes a trap.
\<close>

section \<open>Names\<close>

definition ifaceEnvironment :: string where "ifaceEnvironment = ''wasi:cli/environment@0.2.0''"
definition ifaceExit :: string where "ifaceExit = ''wasi:cli/exit@0.2.0''"
definition ifaceStdin :: string where "ifaceStdin = ''wasi:cli/stdin@0.2.0''"
definition ifaceStdout :: string where "ifaceStdout = ''wasi:cli/stdout@0.2.0''"
definition ifaceStderr :: string where "ifaceStderr = ''wasi:cli/stderr@0.2.0''"
definition ifaceTermStdin :: string where "ifaceTermStdin = ''wasi:cli/terminal-stdin@0.2.0''"
definition ifaceTermStdout :: string where "ifaceTermStdout = ''wasi:cli/terminal-stdout@0.2.0''"
definition ifaceTermStderr :: string where "ifaceTermStderr = ''wasi:cli/terminal-stderr@0.2.0''"
definition ifaceStreams :: string where "ifaceStreams = ''wasi:io/streams@0.2.0''"
definition ifacePoll :: string where "ifacePoll = ''wasi:io/poll@0.2.0''"
definition ifacePreopens :: string where "ifacePreopens = ''wasi:filesystem/preopens@0.2.0''"
definition ifaceFilesystem :: string where "ifaceFilesystem = ''wasi:filesystem/types@0.2.0''"
definition ifaceRandom :: string where "ifaceRandom = ''wasi:random/random@0.2.0''"
definition ifaceInsecure :: string where "ifaceInsecure = ''wasi:random/insecure@0.2.0''"
definition ifaceSeed :: string where "ifaceSeed = ''wasi:random/insecure-seed@0.2.0''"
definition ifaceMonoClock :: string where "ifaceMonoClock = ''wasi:clocks/monotonic-clock@0.2.0''"
definition ifaceWallClock :: string where "ifaceWallClock = ''wasi:clocks/wall-clock@0.2.0''"
definition ifaceNetwork :: string where "ifaceNetwork = ''wasi:sockets/network@0.2.0''"
definition ifaceInstanceNetwork :: string where "ifaceInstanceNetwork = ''wasi:sockets/instance-network@0.2.0''"
definition ifaceTCPCreate :: string where "ifaceTCPCreate = ''wasi:sockets/tcp-create-socket@0.2.0''"
definition ifaceUDPCreate :: string where "ifaceUDPCreate = ''wasi:sockets/udp-create-socket@0.2.0''"
definition ifaceIPNameLookup :: string where "ifaceIPNameLookup = ''wasi:sockets/ip-name-lookup@0.2.0''"
definition ifaceTCP :: string where "ifaceTCP = ''wasi:sockets/tcp@0.2.0''"
definition ifaceUDP :: string where "ifaceUDP = ''wasi:sockets/udp@0.2.0''"

lemmas iface_defs = ifaceEnvironment_def ifaceExit_def ifaceStdin_def ifaceStdout_def ifaceStderr_def ifaceTermStdin_def ifaceTermStdout_def ifaceTermStderr_def ifaceStreams_def ifacePoll_def ifacePreopens_def ifaceFilesystem_def ifaceRandom_def ifaceInsecure_def ifaceSeed_def ifaceMonoClock_def ifaceWallClock_def ifaceNetwork_def ifaceInstanceNetwork_def ifaceTCPCreate_def ifaceUDPCreate_def ifaceIPNameLookup_def ifaceTCP_def ifaceUDP_def

definition networkResource :: u32 where "networkResource = 9"

section \<open>Arguments\<close>

type_synonym 'w hostFunc = "val list \<Rightarrow> ('w p2, hostResult) state"

definition conversionPanic :: "('w p2, hostResult) state" where
  "conversionPanic = ret (Inl (OtherError ''panic: interface conversion''))"

definition argAt :: "val list \<Rightarrow> nat \<Rightarrow> val" where
  "argAt args i = (if i < length args then args ! i else VNil)"

text \<open>\<^verbatim>\<open>args[i].(uint32)\<close>, \<^verbatim>\<open>args[i].(uint64)\<close> and \<^verbatim>\<open>args[i].(string)\<close>.\<close>

definition u32At :: "val list \<Rightarrow> nat \<Rightarrow> (u32 \<Rightarrow> ('w p2, hostResult) state) \<Rightarrow> ('w p2, hostResult) state" where
  "u32At args i k = (case argAt args i of VU32 u \<Rightarrow> k u | _ \<Rightarrow> conversionPanic)"

definition u64At :: "val list \<Rightarrow> nat \<Rightarrow> (u64 \<Rightarrow> ('w p2, hostResult) state) \<Rightarrow> ('w p2, hostResult) state" where
  "u64At args i k = (case argAt args i of VU64 u \<Rightarrow> k u | _ \<Rightarrow> conversionPanic)"

definition strAt :: "val list \<Rightarrow> nat \<Rightarrow> (string \<Rightarrow> ('w p2, hostResult) state) \<Rightarrow> ('w p2, hostResult) state" where
  "strAt args i k = (case argAt args i of VStr u \<Rightarrow> k u | _ \<Rightarrow> conversionPanic)"

section \<open>Functions without state\<close>

definition initialCWD :: "'w hostFunc" where
  "initialCWD args = ret (Inr [VNil])"

definition none :: "'w hostFunc" where
  "none args = ret (Inr [VNil])"

definition unreachable :: "'w hostFunc" where
  "unreachable args = ret (Inl CtxCanceled)"

definition falseValue :: "'w hostFunc" where
  "falseValue args = ret (Inr [VBool False])"

definition zeroValue :: "'w hostFunc" where
  "zeroValue args = ret (Inr [VU32 0])"

definition instanceNetwork :: "'w hostFunc" where
  "instanceNetwork args = acquireNetwork"

section \<open>Tables\<close>

text \<open>The part of a configuration that the functions read; \<open>c_describe\<close> is the text of an error.\<close>

record p2Config =
  c_Args :: "string list"
  c_Env :: "string list"
  c_describe :: "goerr \<Rightarrow> string"

type_synonym 'w p2binding = "(string \<times> string) \<times> 'w hostFunc"

definition clockOptions :: "'w p2host \<Rightarrow> 'w p2binding list" where
  "clockOptions H =
    [((ifaceMonoClock, ''now''), mono H),
     ((ifaceMonoClock, ''resolution''), resolution),
     ((ifaceMonoClock, ''subscribe-duration''), subscribeTimer H False),
     ((ifaceMonoClock, ''subscribe-instant''), subscribeTimer H True),
     ((ifaceWallClock, ''now''), wall H),
     ((ifaceWallClock, ''resolution''), wallRes),
     ((ifacePoll, ''[method]pollable.ready''), readyMethod H),
     ((ifacePoll, ''[method]pollable.block''), block H),
     ((ifacePoll, ''poll''), poll H),
     ((ifaceStreams, ''[method]input-stream.subscribe''), subscribeInput),
     ((ifaceStreams, ''[method]output-stream.subscribe''), subscribeOutput)]"

definition filesystemOptions :: "'w p2host \<Rightarrow> 'w p2binding list" where
  "filesystemOptions H =
    [((ifacePreopens, ''get-directories''), \<lambda>args. getDirectories H),
     ((ifaceFilesystem, ''filesystem-error-code''), filesystemErrorCode),
     ((ifaceFilesystem, ''[method]descriptor.open-at''), \<lambda>args. u32At args 0 (\<lambda>rep. u32At args 3 (\<lambda>openFlags. u32At args 4 (\<lambda>descFlags.
        strAt args 2 (\<lambda>path. u32At args 1 (\<lambda>pathFlags. openAtH H rep pathFlags path openFlags descFlags)))))),
     ((ifaceFilesystem, ''[method]descriptor.get-type''), \<lambda>args. u32At args 0 (getType H)),
     ((ifaceFilesystem, ''[method]descriptor.get-flags''), \<lambda>args. u32At args 0 getFlags),
     ((ifaceFilesystem, ''[method]descriptor.stat''), \<lambda>args. u32At args 0 (statH H)),
     ((ifaceFilesystem, ''[method]descriptor.stat-at''), \<lambda>args. u32At args 0 (\<lambda>rep. strAt args 2 (\<lambda>path. u32At args 1 (\<lambda>flags. statAt H rep flags path)))),
     ((ifaceFilesystem, ''[method]descriptor.metadata-hash''), \<lambda>args. u32At args 0 (hashH H)),
     ((ifaceFilesystem, ''[method]descriptor.metadata-hash-at''), \<lambda>args. u32At args 0 (\<lambda>rep. strAt args 2 (\<lambda>path. u32At args 1 (\<lambda>flags. hashAt H rep flags path)))),
     ((ifaceFilesystem, ''[method]descriptor.read-via-stream''), \<lambda>args. u32At args 0 (\<lambda>rep. u64At args 1 (readViaStream H rep))),
     ((ifaceFilesystem, ''[method]descriptor.write-via-stream''), \<lambda>args. u32At args 0 (\<lambda>rep. u64At args 1 (writeViaStream H rep))),
     ((ifaceFilesystem, ''[method]descriptor.append-via-stream''), \<lambda>args. u32At args 0 (appendViaStream H)),
     ((ifaceFilesystem, ''[method]descriptor.read-directory''), \<lambda>args. u32At args 0 (readDirectory H)),
     ((ifaceFilesystem, ''[method]directory-entry-stream.read-directory-entry''), \<lambda>args. u32At args 0 (readDirectoryEntryH H)),
     ((ifaceFilesystem, ''[method]descriptor.create-directory-at''), \<lambda>args. u32At args 0 (\<lambda>rep. strAt args 1 (createDirectoryAt H rep))),
     ((ifaceFilesystem, ''[method]descriptor.unlink-file-at''), \<lambda>args. u32At args 0 (\<lambda>rep. strAt args 1 (removeAtH H False rep))),
     ((ifaceFilesystem, ''[method]descriptor.remove-directory-at''), \<lambda>args. u32At args 0 (\<lambda>rep. strAt args 1 (removeAtH H True rep))),
     ((ifaceFilesystem, ''[method]descriptor.rename-at''), \<lambda>args. u32At args 0 (\<lambda>rep. u32At args 2 (\<lambda>rep'. strAt args 1 (\<lambda>path. strAt args 3 (\<lambda>path'.
        renameAtH H rep path rep' path'))))),
     ((ifaceFilesystem, ''[method]descriptor.sync''), \<lambda>args. u32At args 0 (syncFile H)),
     ((ifaceFilesystem, ''[method]descriptor.sync-data''), \<lambda>args. u32At args 0 (syncData H)),
     ((ifaceFilesystem, ''[method]descriptor.advise''), \<lambda>args. advise),
     ((ifaceFilesystem, ''[method]descriptor.set-size''), \<lambda>args. u32At args 0 (\<lambda>rep. u64At args 1 (setSize H rep))),
     ((ifaceFilesystem, ''[method]descriptor.set-times''), \<lambda>args. u32At args 0 (\<lambda>rep. setTimesH H rep (argAt args 1) (argAt args 2))),
     ((ifaceFilesystem, ''[method]descriptor.read''), \<lambda>args. u32At args 0 (\<lambda>rep. u64At args 1 (\<lambda>len. u64At args 2 (directRead H rep len)))),
     ((ifaceFilesystem, ''[method]descriptor.write''), \<lambda>args. u32At args 0 (\<lambda>rep. u64At args 2 (directWrite H rep (argAt args 1)))),
     ((ifaceFilesystem, ''[method]descriptor.set-times-at''), \<lambda>args. u32At args 0 (\<lambda>rep. strAt args 2 (\<lambda>path. u32At args 1 (\<lambda>flags.
        setTimesAt H rep flags path (argAt args 3) (argAt args 4))))),
     ((ifaceFilesystem, ''[method]descriptor.link-at''), \<lambda>args. u32At args 0 (\<lambda>rep. u32At args 3 (\<lambda>rep'. u32At args 1 (\<lambda>flags. strAt args 2 (\<lambda>path.
        strAt args 4 (linkAtH H rep flags path rep')))))),
     ((ifaceFilesystem, ''[method]descriptor.readlink-at''), \<lambda>args. u32At args 0 (\<lambda>rep. strAt args 1 (readlinkAt H rep))),
     ((ifaceFilesystem, ''[method]descriptor.symlink-at''), \<lambda>args. u32At args 0 (\<lambda>rep. strAt args 1 (\<lambda>path. strAt args 2 (symlinkAtH H rep path)))),
     ((ifaceFilesystem, ''[method]descriptor.is-same-object''), \<lambda>args. u32At args 0 (\<lambda>rep. u32At args 1 (isSame H rep)))]"

text \<open>The functions of the two socket resources that are denied.\<close>

definition tcpDenied :: "string list" where
  "tcpDenied = [''start-bind'', ''finish-bind'', ''start-connect'', ''finish-connect'', ''start-listen'', ''finish-listen'', ''accept'', ''local-address'', ''remote-address'', ''set-listen-backlog-size'', ''keep-alive-enabled'', ''set-keep-alive-enabled'', ''keep-alive-idle-time'', ''set-keep-alive-idle-time'', ''keep-alive-interval'', ''set-keep-alive-interval'', ''keep-alive-count'', ''set-keep-alive-count'', ''hop-limit'', ''set-hop-limit'', ''receive-buffer-size'', ''set-receive-buffer-size'', ''send-buffer-size'', ''set-send-buffer-size'', ''shutdown'']"

definition udpDenied :: "string list" where
  "udpDenied = [''start-bind'', ''finish-bind'', ''stream'', ''local-address'', ''remote-address'', ''unicast-hop-limit'', ''set-unicast-hop-limit'', ''receive-buffer-size'', ''set-receive-buffer-size'', ''send-buffer-size'', ''set-send-buffer-size'']"

definition socketOptions :: "'w p2binding list" where
  "socketOptions =
    [((ifaceInstanceNetwork, ''instance-network''), instanceNetwork),
     ((ifaceTCPCreate, ''create-tcp-socket''), denied),
     ((ifaceUDPCreate, ''create-udp-socket''), denied),
     ((ifaceIPNameLookup, ''resolve-addresses''), denied)] @
    map (\<lambda>name. ((ifaceTCP, ''[method]tcp-socket.'' @ name), denied)) tcpDenied @
    [((ifaceTCP, ''[method]tcp-socket.is-listening''), falseValue),
     ((ifaceTCP, ''[method]tcp-socket.address-family''), zeroValue),
     ((ifaceTCP, ''[method]tcp-socket.subscribe''), unreachable)] @
    map (\<lambda>name. ((ifaceUDP, ''[method]udp-socket.'' @ name), denied)) udpDenied @
    [((ifaceUDP, ''[method]udp-socket.address-family''), zeroValue),
     ((ifaceUDP, ''[method]udp-socket.subscribe''), unreachable),
     ((ifaceUDP, ''[method]incoming-datagram-stream.receive''), denied),
     ((ifaceUDP, ''[method]incoming-datagram-stream.subscribe''), unreachable),
     ((ifaceUDP, ''[method]outgoing-datagram-stream.check-send''), denied),
     ((ifaceUDP, ''[method]outgoing-datagram-stream.send''), denied),
     ((ifaceUDP, ''[method]outgoing-datagram-stream.subscribe''), unreachable),
     ((ifaceIPNameLookup, ''[method]resolve-address-stream.resolve-next-address''), denied),
     ((ifaceIPNameLookup, ''[method]resolve-address-stream.subscribe''), unreachable)]"

definition instanceOptions :: "'w p2host \<Rightarrow> p2Config \<Rightarrow> 'w p2binding list" where
  "instanceOptions H cfg =
    [((ifaceStdout, ''get-stdout''), \<lambda>args. getOutput stdoutRep),
     ((ifaceStderr, ''get-stderr''), \<lambda>args. getOutput stderrRep),
     ((ifaceStdin, ''get-stdin''), \<lambda>args. getStdin),
     ((ifaceEnvironment, ''get-arguments''), getArgs (c_Args cfg)),
     ((ifaceExit, ''exit''), exit),
     ((ifaceEnvironment, ''get-environment''), getEnv (c_Env cfg)),
     ((ifaceEnvironment, ''initial-cwd''), initialCWD),
     ((''wasi:io/error@0.2.0'', ''[method]error.to-debug-string''), errorDebug (c_describe cfg)),
     ((ifaceStreams, ''[method]output-stream.check-write''), checkWriteH H),
     ((ifaceStreams, ''[method]output-stream.write''), writeH H),
     ((ifaceStreams, ''[method]output-stream.blocking-write-and-flush''), blockingWriteAndFlush H),
     ((ifaceStreams, ''[method]output-stream.blocking-flush''), blockingFlush H),
     ((ifaceStreams, ''[method]output-stream.flush''), flush H),
     ((ifaceStreams, ''[method]output-stream.write-zeroes''), writeZeroes H),
     ((ifaceStreams, ''[method]output-stream.blocking-write-zeroes-and-flush''), blockingWriteZeroes H),
     ((ifaceStreams, ''[method]output-stream.splice''), splice H False),
     ((ifaceStreams, ''[method]output-stream.blocking-splice''), splice H True),
     ((ifaceStreams, ''[method]input-stream.read''), readH H),
     ((ifaceStreams, ''[method]input-stream.blocking-read''), blockingRead H),
     ((ifaceStreams, ''[method]input-stream.skip''), skip H False),
     ((ifaceStreams, ''[method]input-stream.blocking-skip''), skip H True),
     ((ifaceRandom, ''get-random-bytes''), getRandom H),
     ((ifaceInsecure, ''get-insecure-random-bytes''), getRandom H),
     ((ifaceRandom, ''get-random-u64''), randU64 H),
     ((ifaceInsecure, ''get-insecure-random-u64''), randU64 H),
     ((ifaceSeed, ''insecure-seed''), seed H)] @
    clockOptions H @ filesystemOptions H @ socketOptions @
    [((ifaceTermStdin, ''get-terminal-stdin''), none),
     ((ifaceTermStdout, ''get-terminal-stdout''), none),
     ((ifaceTermStderr, ''get-terminal-stderr''), none)]"

text \<open>The destructors, by the tag of the resource.\<close>

definition hostResourceDtor :: "'w p2host \<Rightarrow> u32 \<Rightarrow> u32 \<Rightarrow> ('w p2, goerr option) state" where
  "hostResourceDtor H tag rep =
     (if tag = errorResource then do { dropError rep; ret None }
      else if tag = pollableResource then do { dropPollable rep; ret None }
      else if tag = descriptorResource then dropDescriptor H rep
      else if tag = inputStreamResource then dropInput H rep
      else if tag = outputStreamResource then dropOutput H rep
      else if tag = directoryStreamResource then dropDirectory H rep
      else if tag = networkResource then do { releaseNetwork rep; ret None }
      else ret None)"

section \<open>Every function keeps the invariant\<close>

abbreviation steps64 :: "authority2 \<Rightarrow> nat \<Rightarrow> fileid set \<Rightarrow> ('w p2, 'a) state \<Rightarrow> bool" where
  "steps64 A b F m \<equiv> triple (Inv2 A b F) m (\<lambda>_. Inv2 A (b + 64) F) (\<lambda>_. True)"

lemma steps64_keeps: "keeps A b F m R \<Longrightarrow> b + 64 < 2 ^ 32 \<Longrightarrow> steps64 A b F m"
  by (erule triple_weaken) (auto intro: Inv2_mono)

lemma steps64_adds: "adds A b F m \<Longrightarrow> b + 64 < 2 ^ 32 \<Longrightarrow> steps64 A b F m"
  by (erule triple_weaken) (auto intro: Inv2_mono)

lemma keeps_conversionPanic: "keeps A b F conversionPanic (\<lambda>_. True)"
  unfolding conversionPanic_def by (rule keeps_ret)

lemma steps64_args:
  "(\<And>u. steps64 A b F (k u)) \<Longrightarrow> b + 64 < 2 ^ 32 \<Longrightarrow> steps64 A b F (u32At args i k)"
  "(\<And>u. steps64 A b F (k' u)) \<Longrightarrow> b + 64 < 2 ^ 32 \<Longrightarrow> steps64 A b F (u64At args i k')"
  "(\<And>u. steps64 A b F (k'' u)) \<Longrightarrow> b + 64 < 2 ^ 32 \<Longrightarrow> steps64 A b F (strAt args i k'')"
  unfolding u32At_def u64At_def strAt_def
  by (cases "argAt args i"; simp add: steps64_keeps [OF keeps_conversionPanic])+

definition argsOk :: "val list \<Rightarrow> bool" where
  "argsOk args \<longleftrightarrow> (\<forall>x\<in>set args. \<forall>c. bytesValue x = Inr c \<longrightarrow> length c < 2 ^ 64)"

lemma steps64_filesystem:
  assumes "b + 64 < 2 ^ 32"
  shows "\<forall>f\<in>snd ` set (filesystemOptions H). steps64 A b F (f args)"
proof -
  have b: "Suc b < 2 ^ 32" using assms by simp
  note more = adds_openAtH [OF b] adds_readViaStream [OF b] adds_writeViaStream [OF b] adds_appendViaStream [OF b] adds_readDirectory [OF b]
  show ?thesis
    unfolding filesystemOptions_def
    by (simp, intro conjI; (rule triple_getDirectories [OF assms] steps64_args [OF _ assms] steps64_adds [OF _ assms, OF more(1)] steps64_adds [OF _ assms, OF more(2)]
      steps64_adds [OF _ assms, OF more(3)] steps64_adds [OF _ assms, OF more(4)] steps64_adds [OF _ assms, OF more(5)]
      | rule steps64_keeps [OF _ assms], rule keeps_getType keeps_getFlags keeps_statH keeps_statAt keeps_hashH keeps_hashAt keeps_isSame keeps_filesystemErrorCode
        keeps_createDirectoryAt keeps_readlinkAt keeps_syncFile keeps_syncData keeps_advise keeps_setSize keeps_directRead keeps_directWrite keeps_setTimesH
        keeps_setTimesAt keeps_symlinkAtH keeps_removeAtH keeps_renameAtH keeps_linkAtH keeps_readDirectoryEntryH)+)
qed

lemma steps64_clocks:
  assumes "b + 64 < 2 ^ 32"
  shows "\<forall>f\<in>snd ` set (clockOptions H). steps64 A b F (f args)"
  unfolding clockOptions_def
  by (simp, intro conjI; rule steps64_keeps [OF _ assms], rule keeps_plain keeps_subscribe keeps_polling)

lemma keeps_constants:
  "keeps A b F (initialCWD args) (\<lambda>_. True)" "keeps A b F (none args) (\<lambda>_. True)" "keeps A b F (unreachable args) (\<lambda>_. True)"
  "keeps A b F (falseValue args) (\<lambda>_. True)" "keeps A b F (zeroValue args) (\<lambda>_. True)" "keeps A b F (instanceNetwork args) (\<lambda>_. True)"
  unfolding initialCWD_def none_def unreachable_def falseValue_def zeroValue_def instanceNetwork_def by (rule keeps_ret keeps_network)+

lemma steps64_sockets:
  assumes "b + 64 < 2 ^ 32"
  shows "\<forall>f\<in>snd ` set socketOptions. steps64 A b F (f args)"
proof -
  note k = steps64_keeps [OF keeps_plain(9) assms] steps64_keeps [OF keeps_constants(3) assms] steps64_keeps [OF keeps_constants(4) assms]
    steps64_keeps [OF keeps_constants(5) assms] steps64_keeps [OF keeps_constants(6) assms]
  show ?thesis unfolding socketOptions_def by (auto intro: k)
qed

lemma steps64_bindings:
  assumes "b + 64 < 2 ^ 32" and "argsOk args" and "f \<in> snd ` set (instanceOptions H cfg)"
  shows "steps64 A b F (f args)"
proof -
  have w: "keeps A b F (writeH H args) (\<lambda>_. True)" using assms(2) unfolding argsOk_def by (rule keeps_writeH)
  note own = keeps_getOutput keeps_getStdin keeps_plain keeps_constants keeps_checkWriteH w keeps_blockingWriteAndFlush keeps_blockingFlush
    keeps_flush keeps_writeZeroes keeps_blockingWriteZeroes keeps_splice keeps_readH keeps_blockingRead keeps_skip keeps_random
  have "\<forall>f\<in>snd ` set (instanceOptions H cfg). steps64 A b F (f args)"
    using steps64_filesystem [OF assms(1), of H A F args] steps64_clocks [OF assms(1), of H A F args] steps64_sockets [OF assms(1), of A F args]
    unfolding instanceOptions_def image_Un ball_Un set_append
    by - (simp, intro conjI; (rule steps64_keeps [OF _ assms(1)], rule own)?)
  then show ?thesis using assms(3) by blast
qed

section \<open>Networking is disabled\<close>

text \<open>Nothing is called outside, no file is opened or closed, no table of the filesystem changes.\<close>

definition quiet :: "('w p2, 'a) state \<Rightarrow> bool" where
  "quiet m \<longleftrightarrow> (\<forall>s. p_log (snd (run_state m s)) = p_log s \<and> p_fs (snd (run_state m s)) = p_fs s \<and> p_live (snd (run_state m s)) = p_live s)"

lemma quiet_sockets: "\<forall>f\<in>snd ` set socketOptions. quiet (f args)"
  unfolding socketOptions_def quiet_def
  by (auto simp: denied_def unreachable_def falseValue_def zeroValue_def instanceNetwork_def acquireNetwork_def)

lemma iface_sockets:
  "\<not> hasPrefix ifaceEnvironment ''wasi:sockets/''"
  "\<not> hasPrefix ifaceExit ''wasi:sockets/''"
  "\<not> hasPrefix ifaceStdin ''wasi:sockets/''"
  "\<not> hasPrefix ifaceStdout ''wasi:sockets/''"
  "\<not> hasPrefix ifaceStderr ''wasi:sockets/''"
  "\<not> hasPrefix ifaceTermStdin ''wasi:sockets/''"
  "\<not> hasPrefix ifaceTermStdout ''wasi:sockets/''"
  "\<not> hasPrefix ifaceTermStderr ''wasi:sockets/''"
  "\<not> hasPrefix ifaceStreams ''wasi:sockets/''"
  "\<not> hasPrefix ifacePoll ''wasi:sockets/''"
  "\<not> hasPrefix ifacePreopens ''wasi:sockets/''"
  "\<not> hasPrefix ifaceFilesystem ''wasi:sockets/''"
  "\<not> hasPrefix ifaceRandom ''wasi:sockets/''"
  "\<not> hasPrefix ifaceInsecure ''wasi:sockets/''"
  "\<not> hasPrefix ifaceSeed ''wasi:sockets/''"
  "\<not> hasPrefix ifaceMonoClock ''wasi:sockets/''"
  "\<not> hasPrefix ifaceWallClock ''wasi:sockets/''"
  "\<not> hasPrefix ''wasi:io/error@0.2.0'' ''wasi:sockets/''"
  "hasPrefix ifaceNetwork ''wasi:sockets/''"
  "hasPrefix ifaceInstanceNetwork ''wasi:sockets/''"
  "hasPrefix ifaceTCPCreate ''wasi:sockets/''"
  "hasPrefix ifaceUDPCreate ''wasi:sockets/''"
  "hasPrefix ifaceIPNameLookup ''wasi:sockets/''"
  "hasPrefix ifaceTCP ''wasi:sockets/''"
  "hasPrefix ifaceUDP ''wasi:sockets/''"
  by code_simp+

lemma sockets_only:
  "filter (\<lambda>b. hasPrefix (fst (fst b)) ''wasi:sockets/'') (instanceOptions H cfg) = socketOptions"
  by (simp add: instanceOptions_def clockOptions_def filesystemOptions_def socketOptions_def iface_sockets filter_map o_def)

text \<open>C22: No function of a socket interface reaches the network or anything else outside: it answers from the state
  of the instance alone, whatever it is called with.\<close>

theorem sockets_isolated:
  assumes "((iface, name), f) \<in> set (instanceOptions H cfg)" and "hasPrefix iface ''wasi:sockets/''"
  shows "p_log (snd (run_state (f args) s)) = p_log s \<and> p_fs (snd (run_state (f args) s)) = p_fs s \<and>
    p_live (snd (run_state (f args) s)) = p_live s"
proof -
  have "((iface, name), f) \<in> set (filter (\<lambda>b. hasPrefix (fst (fst b)) ''wasi:sockets/'') (instanceOptions H cfg))"
    using assms by simp
  then have "f \<in> snd ` set socketOptions" unfolding sockets_only by force
  then show ?thesis using quiet_sockets [of args] by (auto simp: quiet_def)
qed

theorem sockets_isolated_witness:
  "((ifaceTCPCreate, ''create-tcp-socket''), denied) \<in> set (instanceOptions tickingHost \<lparr>c_Args = [], c_Env = [], c_describe = (\<lambda>_. [])\<rparr>) \<and>
   p_log (snd (run_state (denied [VU32 0]) (atTime 0))) = p_log (atTime 0)"
proof -
  let ?cfg = "\<lparr>c_Args = [], c_Env = [], c_describe = (\<lambda>_. [])\<rparr>"
  have m: "((ifaceTCPCreate, ''create-tcp-socket''), denied) \<in> set (instanceOptions tickingHost ?cfg)"
    by (simp add: instanceOptions_def socketOptions_def)
  have "hasPrefix ifaceTCPCreate ''wasi:sockets/''" by code_simp
  from sockets_isolated [OF m this, of "[VU32 0]" "atTime 0"] m show ?thesis by simp
qed

end
