(* ===== verification/P2_Runs.thy ===== *)
theory P2_Runs
  imports P2_Bindings Mount_Policy
begin

text \<open>
  A run of a command component under Preview 2: \<^verbatim>\<open>Run\<close> of \<^verbatim>\<open>p2/p2.go\<close> validates limits and mounts, opens the preopens, lets
  the component runtime call the bound functions and destructors in any order, and closes the preopens. The
  runtime and the guest are arbitrary: a step is a call of any function of \<open>instanceOptions\<close> with any arguments, the
  destruction of a resource, or a write of the goroutine behind a file stream.
\<close>

section \<open>Steps\<close>

text \<open>The write of the adapter of a file stream, made by its goroutine between two calls.\<close>

definition adapterWrite :: "'w p2host \<Rightarrow> u32 \<Rightarrow> bytes \<Rightarrow> ('w p2, unit) state" where
  "adapterWrite H rep p = do {
     fs \<leftarrow> gets p_fs;
     case map_of (f_streams fs) rep of
       None \<Rightarrow> ret ()
     | Some st \<Rightarrow>
         if st_read st then ret ()
         else do { (r, st') \<leftarrow> fileStreamWrite H st p; putStream rep st' } }"

text \<open>Own handles of the standard streams are counted by the reservation; the runtime destroys a handle once.\<close>

definition standardRep :: "u32 \<Rightarrow> u32 \<Rightarrow> bool" where
  "standardRep tag rep \<longleftrightarrow> tag = inputStreamResource \<and> rep = stdinRep \<or>
     tag = outputStreamResource \<and> (rep = stdoutRep \<or> rep = stderrRep)"

inductive step2 :: "'w p2host \<Rightarrow> p2Config \<Rightarrow> 'w p2 \<Rightarrow> 'w p2 \<Rightarrow> bool" for H cfg where
  call2: "((iface, name), f) \<in> set (instanceOptions H cfg) \<Longrightarrow> argsOk args \<Longrightarrow>
    step2 H cfg s (snd (run_state (f args) s))"
| destroy2: "(standardRep tag rep \<Longrightarrow> f_stdStreams (p_fs s) \<noteq> 0) \<Longrightarrow>
    step2 H cfg s (snd (run_state (hostResourceDtor H tag rep) s))"
| adapter2: "step2 H cfg s (snd (run_state (adapterWrite H rep p) s))"

text \<open>A run counts its steps, because the counters of the tables are bounded.\<close>

definition stepN :: "'w p2host \<Rightarrow> p2Config \<Rightarrow> nat \<times> 'w p2 \<Rightarrow> nat \<times> 'w p2 \<Rightarrow> bool" where
  "stepN H cfg x y \<longleftrightarrow> fst y = Suc (fst x) \<and> step2 H cfg (snd x) (snd y)"

section \<open>Run\<close>

text \<open>What the callback of \<^verbatim>\<open>Run\<close> does with an instance: it calls \<^verbatim>\<open>run\<close> of the first export, in the order of the names, that
  is a \<^verbatim>\<open>wasi:cli/run\<close> interface, and interprets the result. \<open>callExport\<close> is the call into the guest.\<close>

definition runResult :: "goerr + val list \<Rightarrow> goerr option" where
  "runResult r = (case r of
      Inl e \<Rightarrow> Some e
    | Inr [v] \<Rightarrow> (case v of
          VResult isErr p \<Rightarrow> if isErr then Some (exitError 1) else None
        | _ \<Rightarrow> Some (OtherError ''wasi p2: run returned no result''))
    | Inr vs \<Rightarrow> Some (OtherError ''wasi p2: run returned values, want 1''))"

definition runExport :: "(string \<Rightarrow> ('w p2, goerr + val list) state) \<Rightarrow> string list \<Rightarrow> ('w p2, goerr option) state" where
  "runExport callExport exports = (case find (\<lambda>name. hasPrefix name ''wasi:cli/run@'') (sort exports) of
      Some name \<Rightarrow> do { r \<leftarrow> callExport name; ret (runResult r) }
    | None \<Rightarrow> ret (Some (OtherError ''wasi p2: component does not export wasi:cli/run'')))"

text \<open>\<open>withInstance\<close> is the component service: it instantiates the component, runs the callback and destroys the instance.\<close>

definition Run :: "'w p2host \<Rightarrow> preopen list \<Rightarrow> limits \<Rightarrow>
    (((string \<Rightarrow> ('w p2, goerr + val list) state) \<Rightarrow> string list \<Rightarrow> ('w p2, goerr option) state) \<Rightarrow> ('w p2, goerr option) state) option \<Rightarrow>
    ('w p2, goerr option) state" where
  "Run H mounts limits components = (case components of
      None \<Rightarrow> ret (Some (OtherError ''wasi p2: nil component service''))
    | Some withInstance \<Rightarrow>
        if \<not> validateLimits limits then ret (Some (OtherError ''wasi p2: limit exceeded''))
        else if \<not> validateMounts mounts then ret (Some (OtherError ''wasi p2: invalid mount''))
        else do {
          e \<leftarrow> prepareFilesystem H mounts limits;
          case e of
            Some e \<Rightarrow> ret (Some e)
          | None \<Rightarrow> do { r \<leftarrow> withInstance runExport; closeMounts H; ret r } })"

text \<open>Nothing is touched before limits and mounts are valid.\<close>

lemma Run_invalid:
  "\<not> validateLimits limits \<or> \<not> validateMounts mounts \<Longrightarrow> snd (run_state (Run H mounts limits components) s) = s"
  by (auto simp: Run_def split: option.split)

section \<open>The authority of a configuration\<close>

text \<open>The files opened beneath the mount with index \<open>i\<close>, in the order of the guest paths, have the root \<open>Suc i\<close>; other roots
  have no rights and no path.\<close>

definition authorityOf :: "preopen list \<Rightarrow> limits \<Rightarrow> authority2" where
  "authorityOf mounts limits = \<lparr>a2_flags = (\<lambda>k. case rootMount mounts k of None \<Rightarrow> 0 | Some m \<Rightarrow> mountFlags m),
     a2_host = map_option HostPath \<circ> rootMount mounts, a2_limits = normalized limits\<rparr>"

text \<open>The state in which a run starts: nothing open, no call made.\<close>

definition startState :: "limits \<Rightarrow> nat \<Rightarrow> 'w \<Rightarrow> 'w p2" where
  "startState limits fuel w = \<lparr>p_host = newHostState (normalized limits), p_fs = newFilesystem [] limits, p_world = w, p_log = [],
     p_live = {}, p_next = 0, p_fuel = fuel, p_stuck = False\<rparr>"

text \<open>An instance starts when limits and mounts are valid and the preopens could be opened.\<close>

definition opened :: "'w p2host \<Rightarrow> preopen list \<Rightarrow> limits \<Rightarrow> nat \<times> 'w p2 \<Rightarrow> bool" where
  "opened H mounts limits x \<longleftrightarrow> fst x = 0 \<and> validateLimits limits \<and> validateMounts mounts \<and>
     (\<exists>fuel w. run_state (prepareFilesystem H mounts limits) (startState limits fuel w) = (None, snd x))"

definition run2 :: "'w p2host \<Rightarrow> p2Config \<Rightarrow> preopen list \<Rightarrow> limits \<Rightarrow> nat \<Rightarrow> 'w p2 \<Rightarrow> bool" where
  "run2 H cfg mounts limits n s \<longleftrightarrow> (\<exists>x. opened H mounts limits x \<and> (stepN H cfg)\<^sup>*\<^sup>* x (n, s))"

section \<open>Preparation and closing of the preopens\<close>

lemma newFilesystem_mounts: "f_mounts (newFilesystem mounts limits) =
  map (\<lambda>mount. \<lparr>m_guest = GuestPath mount, m_host = HostPath mount, m_flags = mountFlags mount, m_base = None\<rparr>) (sort_key GuestPath mounts)"
proof -
  let ?g = "\<lambda>mount. \<lparr>m_guest = GuestPath mount, m_host = HostPath mount, m_flags = mountFlags mount, m_base = None\<rparr>"
  have ins: "insort_key m_guest (?g x) (map ?g xs) = map ?g (insort_key GuestPath x xs)" for x xs
    by (induction xs) auto
  have "sort_key m_guest (map ?g xs) = map ?g (sort_key GuestPath xs)" for xs
    by (induction xs) (simp_all add: ins)
  then show ?thesis by (simp add: newFilesystem_def)
qed

lemma Inv2_start:
  assumes "validateMounts mounts"
  shows "Inv2 (authorityOf mounts limits) 65536 {} ((startState limits fuel w)\<lparr>p_fs := newFilesystem mounts limits\<rparr>)"
proof -
  have "length mounts \<le> 64" using assms by (simp add: validateMounts_def split: if_splits)
  then show ?thesis
    unfolding Inv2_def fsOk_def newFilesystem_mounts
    by (simp add: startState_def newHostState_def hostOk_def authorityOf_def newFilesystem_def keyed_def mountOk2_def rootMount_def fileStreamRepMin_def
        newFilesystem_mounts [unfolded newFilesystem_def, simplified])
qed

lemma fsOk_setBase:
  assumes "fsOk A b fs" and "\<forall>f\<in>set_option x. fst f = Suc i" and "i < length (f_mounts fs)"
  shows "fsOk A b (fs\<lparr>f_mounts := (f_mounts fs)[i := (f_mounts fs ! i)\<lparr>m_base := x\<rparr>]\<rparr>)"
  using assms unfolding fsOk_def by (auto simp: nth_list_update mountOk2_def)

lemma bases_setBase:
  assumes "i < length ms"
  shows "bases ms \<subseteq> bases (ms[i := (ms ! i)\<lparr>m_base := x\<rparr>]) \<union> set_option (m_base (ms ! i))"
    "set_option x \<subseteq> bases (ms[i := (ms ! i)\<lparr>m_base := x\<rparr>])"
  using assms unfolding bases_nth by (force simp: nth_list_update)+

lemma owned2_bases: "owned2 fs = d_file ` snd ` set (f_descs fs) \<union> st_file ` snd ` set (f_streams fs) \<union>
    ds_file ` snd ` set (f_dirs fs) \<union> bases (f_mounts fs)"
  by (simp add: owned2_def bases_def)

text \<open>A new directory for the mount with index \<open>i\<close>: the file that it had must be closed.\<close>

lemma Inv2_setBase:
  assumes "Inv2 A b F s" and "i < length (f_mounts (p_fs s))" and "\<forall>f\<in>set_option x. fst f = Suc i"
    and "p_host t = p_host s" and "p_fs t = (p_fs s)\<lparr>f_mounts := (f_mounts (p_fs s))[i := (f_mounts (p_fs s) ! i)\<lparr>m_base := x\<rparr>]\<rparr>"
    and "\<forall>c\<in>set (p_log t). allowed2 A c"
    and "p_live t \<subseteq> (p_live s - set_option (m_base (f_mounts (p_fs s) ! i))) \<union> set_option x"
  shows "Inv2 A b F t"
proof -
  let ?fs = "p_fs s"
  define X where "X = d_file ` snd ` set (f_descs ?fs) \<union> st_file ` snd ` set (f_streams ?fs) \<union> ds_file ` snd ` set (f_dirs ?fs)"
  define B where "B = bases ((f_mounts ?fs)[i := (f_mounts ?fs ! i)\<lparr>m_base := x\<rparr>])"
  have t: "owned2 (p_fs t) = X \<union> B" by (simp add: assms(5) owned2_bases X_def B_def)
  have "p_live s \<subseteq> (X \<union> bases (f_mounts ?fs)) \<union> F" using assms(1) unfolding Inv2_def owned2_bases X_def by blast
  then have "p_live t \<subseteq> owned2 (p_fs t) \<union> F" using assms(7) bases_setBase [OF assms(2), of x, folded B_def] unfolding t by blast
  moreover have "fsOk A b (p_fs t)" unfolding assms(5) using fsOk_setBase [OF Inv2_fsOk [OF assms(1)] assms(3,2)] .
  moreover have "hostOk A (p_host t)" using assms(1,4) by (simp add: Inv2_def)
  ultimately show ?thesis using assms(6) unfolding Inv2_def by blast
qed

lemma Inv2_log: "Inv2 A b F s \<Longrightarrow> \<forall>c\<in>set (p_log s). allowed2 A c"
  by (simp add: Inv2_def)

lemma wp_closeMountsLoop:
  "i + n \<le> length (f_mounts (p_fs s)) \<Longrightarrow> Inv2 A b F s \<Longrightarrow> wp (closeMountsLoop H i n) (\<lambda>_ t. Inv2 A b F t) s"
proof (induction n arbitrary: i s)
  case 0
  then show ?case by (simp add: wp_simps)
next
  case (Suc n)
  have i: "i < length (f_mounts (p_fs s))" using Suc.prems by simp
  show ?case
  proof (cases "m_base (f_mounts (p_fs s) ! i)")
    case None
    then show ?thesis using Suc by (simp add: wp_simps)
  next
    case (Some f)
    show ?thesis
      using Suc.prems(1) i Some Inv2_log [OF Suc.prems(2)]
      by (auto simp: wp_simps osClose_def setBase_def split: prod.split intro!: Suc.IH Inv2_setBase [OF Suc.prems(2) i, of None])
  qed
qed

lemma keeps_closeMounts: "keeps A b F (closeMounts H) (\<lambda>_. True)"
  unfolding closeMounts_def by (auto simp: triple_def wp_simps intro: wp_closeMountsLoop)

lemma wp_prepareMounts_inv:
  "i + n = length (f_mounts (p_fs s)) \<Longrightarrow> Inv2 A b F s \<Longrightarrow> \<forall>j<length (f_mounts (p_fs s)). i \<le> j \<longrightarrow> m_base (f_mounts (p_fs s) ! j) = None \<Longrightarrow>
     wp (prepareMounts H i n) (\<lambda>_ t. Inv2 A b F t) s"
proof (induction n arbitrary: i s)
  case 0
  then show ?case by (simp add: wp_simps)
next
  case (Suc n)
  have i: "i < length (f_mounts (p_fs s))" "m_base (f_mounts (p_fs s) ! i) = None" using Suc.prems(1,3) by simp_all
  have host: "a2_host A (Suc i) = Some (m_host (f_mounts (p_fs s) ! i))"
    using mountOk_root [OF Inv2_fsOk [OF Suc.prems(2)] i(1)] by (simp add: mountOk2_def)
  have close: "wp (closeMounts H) (\<lambda>_ t. Inv2 A b F t) t"
    if "p_host t = p_host s" "p_fs t = p_fs s" "\<forall>c\<in>set (p_log t). allowed2 A c" "p_live t \<subseteq> p_live s" for t
    using keeps_closeMounts [of A b F H] Suc.prems(2) that by (auto simp: triple_def Inv2_def)
  have go: "wp (prepareMounts H (Suc i) n) (\<lambda>_ t. Inv2 A b F t) t"
    if "p_host t = p_host s" "p_fs t = (p_fs s)\<lparr>f_mounts := (f_mounts (p_fs s))[i := (f_mounts (p_fs s) ! i)\<lparr>m_base := Some f\<rparr>]\<rparr>"
      "\<forall>c\<in>set (p_log t). allowed2 A c" "p_live t = insert f (p_live s)" "fst f = Suc i" for f t
    using Suc.prems that i
    by (intro Suc.IH Inv2_setBase [OF Suc.prems(2) i(1), of "Some f" t]) (auto simp: nth_list_update)
  show ?case
    unfolding prepareMounts.simps openPreopenDirectory_def osOpen_def osStat_def osClose_def setBase_def wp_simps
    using host Inv2_log [OF Suc.prems(2)]
    by (auto simp: wp_simps split: prod.splits sum.splits option.splits intro!: close go)
qed

section \<open>Steps keep the invariant\<close>

lemma Inv2_release:
  assumes "Inv2 A b F s" and "f_stdStreams (p_fs s) \<noteq> 0"
  shows "Inv2 A b F (s\<lparr>p_fs := (p_fs s)\<lparr>f_stdStreams := f_stdStreams (p_fs s) - 1\<rparr>\<rparr>)"
proof -
  have "unat (f_stdStreams (p_fs s) - 1) \<le> unat (f_stdStreams (p_fs s))" using assms(2) by (simp add: unat_minus_one)
  then show ?thesis using assms(1) by (simp add: Inv2_def fsOk_def owned2_def)
qed

lemma Inv2_destroy:
  assumes i: "Inv2 A b F s" and std: "standardRep tag rep \<Longrightarrow> f_stdStreams (p_fs s) \<noteq> 0"
  shows "Inv2 A b F (snd (run_state (hostResourceDtor H tag rep) s))"
proof (cases "standardRep tag rep")
  case True
  have "snd (run_state (hostResourceDtor H tag rep) s) = s\<lparr>p_fs := (p_fs s)\<lparr>f_stdStreams := f_stdStreams (p_fs s) - 1\<rparr>\<rparr>"
    using True unfolding standardRep_def
    by (elim disjE conjE) (simp_all add: hostResourceDtor_def dropInput_def dropOutput_def releaseStandardStream_def errorResource_def pollableResource_def
        descriptorResource_def inputStreamResource_def outputStreamResource_def)
  then show ?thesis using Inv2_release [OF i std [OF True]] by simp
next
  case False
  have "dropInput H rep = dropStream H rep" if "tag = inputStreamResource" using False that by (simp add: dropInput_def standardRep_def)
  moreover have "dropOutput H rep = dropStream H rep" if "tag = outputStreamResource" using False that by (simp add: dropOutput_def standardRep_def)
  moreover have "keeps A b F (do { m; ret None } :: ('a p2, goerr option) state) (\<lambda>_. True)" if "keeps A b F m (\<lambda>_. True)" for m :: "('a p2, unit) state"
    using triple_bind [OF that keeps_ret] by simp
  ultimately have "keeps A b F (hostResourceDtor H tag rep :: ('a p2, goerr option) state) (\<lambda>_. True)"
    by (simp add: hostResourceDtor_def keeps_drops keeps_network keeps_dropDescriptor keeps_dropStream keeps_dropDirectory keeps_ret)
  from triple_runD [OF this i] show ?thesis by simp
qed

lemma Inv2_adapter:
  assumes i: "Inv2 A b F s"
  shows "Inv2 A b F (snd (run_state (adapterWrite H rep p) s))"
proof (cases "map_of (f_streams (p_fs s)) rep")
  case None
  then show ?thesis using i by (simp add: adapterWrite_def)
next
  case (Some st)
  have ok: "allowed2 A (WriteAt (st_file st) c off)" if "\<not> st_read st" for c off
    using fsOk_stream [OF Inv2_fsOk [OF i] Some] that by (simp add: streamOk2_def)
  have put: "fsOk A b ((p_fs s)\<lparr>f_streams := AList.update rep st' (f_streams (p_fs s))\<rparr>)"
    "owned2 ((p_fs s)\<lparr>f_streams := AList.update rep st' (f_streams (p_fs s))\<rparr>) = owned2 (p_fs s)"
    if "st_file st' = st_file st" "st_read st' = st_read st" for st'
    using fsOk_putStream [OF Inv2_fsOk [OF i] Some that] by simp_all
  show ?thesis
    using i Some ok
    by (simp add: adapterWrite_def fileStreamWrite_def osStat_def putStream_def split_beta Inv2_def put split: sum.split)
qed

lemma Inv2_step:
  assumes "step2 H cfg s t" and "Inv2 A b F s" and "b + 64 < 2 ^ 32"
  shows "Inv2 A (b + 64) F t"
  using assms(1)
proof cases
  case (call2 iface name f args)
  have "f \<in> snd ` set (instanceOptions H cfg)" using call2(2) by force
  from triple_runD [OF steps64_bindings [OF assms(3) call2(3) this] assms(2)] show ?thesis unfolding call2(1) by simp
next
  case (destroy2 tag rep)
  have "Inv2 A b F t" unfolding destroy2(1) using destroy2(2) by (rule Inv2_destroy [OF assms(2)])
  then show ?thesis by (rule Inv2_mono) (use assms(3) in simp_all)
next
  case (adapter2 rep p)
  have "Inv2 A b F t" unfolding adapter2 by (rule Inv2_adapter [OF assms(2)])
  then show ?thesis by (rule Inv2_mono) (use assms(3) in simp_all)
qed

lemma Inv2_opened:
  assumes "opened H mounts limits x"
  shows "Inv2 (authorityOf mounts limits) 65536 {} (snd x)"
proof -
  from assms obtain fuel w where v: "validateMounts mounts"
    and p: "run_state (prepareFilesystem H mounts limits) (startState limits fuel w) = (None, snd x)" by (auto simp: opened_def)
  let ?s = "(startState limits fuel w)\<lparr>p_fs := newFilesystem mounts limits\<rparr>"
  have len: "length (f_mounts (p_fs ?s)) = length mounts" by (simp add: newFilesystem_mounts)
  have none: "\<forall>j<length (f_mounts (p_fs ?s)). 0 \<le> j \<longrightarrow> m_base (f_mounts (p_fs ?s) ! j) = None" by (simp add: newFilesystem_mounts)
  have r: "run_state (prepareMounts H 0 (length mounts)) ?s = (None, snd x)" using p by (simp add: prepareFilesystem_def)
  show ?thesis using wp_runI [OF wp_prepareMounts_inv [OF _ Inv2_start [OF v] none] r] len by simp
qed

definition countedInv :: "authority2 \<Rightarrow> nat \<times> 'w p2 \<Rightarrow> bool" where
  "countedInv A x \<longleftrightarrow> (65536 + 64 * fst x < 2 ^ 32 \<longrightarrow> Inv2 A (65536 + 64 * fst x) {} (snd x))"

interpretation command: invariant_system "opened H mounts limits" "stepN H cfg" "countedInv (authorityOf mounts limits)"
proof unfold_locales
  show "countedInv (authorityOf mounts limits) x" if "opened H mounts limits x" for x
    using Inv2_opened [OF that] that by (simp add: countedInv_def opened_def)
  show "countedInv (authorityOf mounts limits) y" if "countedInv (authorityOf mounts limits) x" "stepN H cfg x y" for x y
    using that Inv2_step [of H cfg "snd x" "snd y" "authorityOf mounts limits" "65536 + 64 * fst x" "{}"]
    by (auto simp: countedInv_def stepN_def algebra_simps)
qed

lemma Inv2_run:
  assumes "run2 H cfg mounts limits n s" and "65536 + 64 * n < 2 ^ 32"
  shows "Inv2 (authorityOf mounts limits) (65536 + 64 * n) {} s"
proof -
  from assms(1) obtain x where "opened H mounts limits x" "(stepN H cfg)\<^sup>*\<^sup>* x (n, s)" by (auto simp: run2_def)
  from command.inv_run [OF this] assms(2) show ?thesis by (simp add: countedInv_def)
qed

section \<open>What a run shows\<close>

definition sampleMount :: preopen where
  "sampleMount = \<lparr>GuestPath = ''/a'', HostPath = ''/x'', Read = True, Write = False, MutateDirectory = False\<rparr>"

text \<open>A host on which every call succeeds and every file is a directory.\<close>

definition obligingHost :: "nat p2host" where
  "obligingHost c w = (case c of
      Os (HStat f) \<Rightarrow> (RHost (RInfo \<lparr>fi_mode = modeDir, fi_size = 0, fi_mtime = 0, fi_sys = None\<rparr>), w)
    | NewOwn tag rep \<Rightarrow> (RHandle (rep + 100), w)
    | _ \<Rightarrow> (RErrOpt None, w))"

definition plainConfig :: p2Config where
  "plainConfig = \<lparr>c_Args = [], c_Env = [], c_describe = (\<lambda>_. [])\<rparr>"

definition sampleStart :: "nat p2" where
  "sampleStart = snd (run_state (prepareFilesystem obligingHost [sampleMount] zeroLimits) (startState zeroLimits 5 0))"

definition sampleEnd :: "nat p2" where
  "sampleEnd = snd (run_state (getDirectories obligingHost) sampleStart)"

lemma sample_run: "run2 obligingHost plainConfig [sampleMount] zeroLimits (Suc 0) sampleEnd"
proof -
  have "validateLimits zeroLimits" "validateMounts [sampleMount]" by code_simp+
  moreover have "run_state (prepareFilesystem obligingHost [sampleMount] zeroLimits) (startState zeroLimits 5 0) = (None, sampleStart)"
    by (simp add: sampleStart_def prepareFilesystem_def sampleMount_def newFilesystem_def openPreopenDirectory_def osOpen_def osStat_def
        obligingHost_def setBase_def isDir_def split_beta)
  ultimately have start: "opened obligingHost [sampleMount] zeroLimits (0, sampleStart)" by (auto simp: opened_def)
  have "((ifacePreopens, ''get-directories''), \<lambda>args. getDirectories obligingHost) \<in> set (instanceOptions obligingHost plainConfig)"
    by (simp add: instanceOptions_def filesystemOptions_def)
  from step2.call2 [OF this, of "[]" sampleStart]
  have "stepN obligingHost plainConfig (0, sampleStart) (Suc 0, sampleEnd)" by (simp add: stepN_def argsOk_def sampleEnd_def)
  with start show ?thesis unfolding run2_def by blast
qed

lemma sample_log: "Os (HOsOpen ''/x'' (1, 0)) \<in> set (p_log sampleEnd) \<and> map_option d_flags (map_of (f_descs (p_fs sampleEnd)) 1) = Some 1"
  by (simp add: sampleEnd_def sampleStart_def prepareFilesystem_def sampleMount_def newFilesystem_def openPreopenDirectory_def osOpen_def osStat_def
      obligingHost_def setBase_def isDir_def split_beta startState_def getDirectories_def dupFile_def addDesc_def mountFlags_def zeroLimits_def normalized_def orDefault_def)

section \<open>The policy of a configuration\<close>

text \<open>What the configured mounts permit, on their flags. Contents are read where the mount is readable and
  written, truncated and synchronised where it is writable; names are created, removed, renamed and linked where its
  directories may be changed; times where one of the two holds. A host path is opened only for the mount that names it, every other
  file in a directory of the same mount. An open stays beneath its directory or names one component without following it; other
  names that reach the kernel are one component, possibly followed by \<^verbatim>\<open>.\<close> or empty components, with which the
  kernel does follow the component if it is a link. Metadata, the entries of a directory and the targets of links
  need no right.\<close>

fun permittedOs :: "(nat \<Rightarrow> preopen option) \<Rightarrow> hostcall \<Rightarrow> bool" where
  "permittedOs mounts (HStat f) = True"
| "permittedOs mounts (HClose f) = True"
| "permittedOs mounts (HReadAt f n off) = onMount mounts f preopen.Read"
| "permittedOs mounts (HSync f) = onMount mounts f preopen.Write"
| "permittedOs mounts (HTruncate f n) = onMount mounts f preopen.Write"
| "permittedOs mounts (HOsOpen name n) = onMount mounts n (\<lambda>m. name = HostPath m)"
| "permittedOs mounts (HDup d n) = (fst n = fst d)"
| "permittedOs mounts (HOpenat2 d name flags mode how n) = (fst n = fst d \<and> how = secureResolve \<and>
     (flags AND (O_CREAT OR O_TRUNC) \<noteq> 0 \<longrightarrow> onMount mounts d MutateDirectory) \<and>
     (flags AND (O_ACCMODE OR O_TRUNC) \<noteq> 0 \<longrightarrow> onMount mounts d preopen.Write))"
| "permittedOs mounts (HOpenat d name flags mode n) = (fst n = fst d \<and> component name \<and> flags AND O_NOFOLLOW \<noteq> 0 \<and>
     (flags AND (O_CREAT OR O_TRUNC) \<noteq> 0 \<longrightarrow> onMount mounts d MutateDirectory) \<and>
     (flags AND (O_ACCMODE OR O_TRUNC) \<noteq> 0 \<longrightarrow> onMount mounts d preopen.Write))"
| "permittedOs mounts (HReadlinkat d name n) = dotted name"
| "permittedOs mounts (HMkdirat d name mode) = (dotted name \<and> onMount mounts d MutateDirectory)"
| "permittedOs mounts (HLinkat d name e name') = (dotted name \<and> dotted name' \<and> fst d = fst e \<and> onMount mounts e MutateDirectory)"
| "permittedOs mounts (HUnlinkat d name dir) = (dotted name \<and> onMount mounts d MutateDirectory)"
| "permittedOs mounts (HRenameat d name e name') = (dotted name \<and> dotted name' \<and> fst d = fst e \<and> onMount mounts d MutateDirectory)"
| "permittedOs mounts (HSymlinkat target d name) = (dotted name \<and> \<not> hasPrefix target ''/'' \<and> onMount mounts d MutateDirectory)"
| "permittedOs mounts (HUtimes f name a m nofollow) =
     (if name = [] then onMount mounts f (\<lambda>m. preopen.Write m \<or> MutateDirectory m)
      else component name \<and> nofollow \<and> onMount mounts f MutateDirectory)"
| "permittedOs mounts _ = False"

text \<open>One write to a standard stream is at most as long as the configured buffer limit, 16 MiB if there is none.\<close>

fun permitted2 :: "preopen list \<Rightarrow> limits \<Rightarrow> p2call \<Rightarrow> bool" where
  "permitted2 mounts limits (Os c) = permittedOs (rootMount mounts) c"
| "permitted2 mounts limits (WriteAt f b off) = onMount (rootMount mounts) f preopen.Write"
| "permitted2 mounts limits (Fdatasync f) = onMount (rootMount mounts) f preopen.Write"
| "permitted2 mounts limits (TryW d b) =
     (length b \<le> (if MaxAggregateBufferBytes limits = 0 then 16777216 else unat (MaxAggregateBufferBytes limits)))"
| "permitted2 mounts limits _ = True"

text \<open>Which flag of a mount a right comes from.\<close>

lemma mountFlags_bits:
  "mountFlags m AND 1 = 1 \<Longrightarrow> preopen.Read m" "mountFlags m AND 2 = 2 \<Longrightarrow> preopen.Write m" "mountFlags m AND 32 = 32 \<Longrightarrow> MutateDirectory m"
  "mountFlags m AND 34 = 34 \<Longrightarrow> preopen.Write m \<and> MutateDirectory m"
  by (auto simp: mountFlags_def Let_def split: if_splits)

lemma grants_mount:
  assumes "grants (authorityOf mounts limits) f w" and "w \<noteq> 0" and "\<And>m. mountFlags m AND w = w \<Longrightarrow> P m"
  shows "onMount (rootMount mounts) f P"
  using assms by (auto simp: grants_def authorityOf_def onMount_def split: option.splits)

lemma grants_flags:
  "grants (authorityOf mounts limits) f 1 \<Longrightarrow> onMount (rootMount mounts) f preopen.Read"
  "grants (authorityOf mounts limits) f 2 \<Longrightarrow> onMount (rootMount mounts) f preopen.Write"
  "grants (authorityOf mounts limits) f 32 \<Longrightarrow> onMount (rootMount mounts) f MutateDirectory"
  "grants (authorityOf mounts limits) f 34 \<Longrightarrow> onMount (rootMount mounts) f preopen.Write"
  by (erule grants_mount; simp add: mountFlags_bits)+

lemma allowedOs_permitted:
  assumes "allowedOs (authorityOf mounts limits) c"
  shows "permittedOs (rootMount mounts) c"
proof -
  have host: "onMount (rootMount mounts) n (\<lambda>m. name = HostPath m)" if "a2_host (authorityOf mounts limits) (fst n) = Some name" for n name
    using that by (auto simp: authorityOf_def onMount_def)
  show ?thesis
    using assms by (cases c) (auto simp: openOk2_def dest: grants_flags host elim: onMount_mono [OF grants_flags(2)] onMount_mono [OF grants_flags(3)])
qed

lemma allowed2_permitted:
  assumes "allowed2 (authorityOf mounts limits) c" and "validateLimits limits"
  shows "permitted2 mounts limits c"
proof -
  have "unat (ioLimit (normalized limits)) \<le> (if MaxAggregateBufferBytes limits = 0 then 16777216 else unat (MaxAggregateBufferBytes limits))"
    using assms(2)
    by (auto simp: ioLimit_def normalized_def orDefault_def maxIO_def Let_def validateLimits_iff limitsWithin_def word_less_nat_alt)
  then show ?thesis
    using assms(1) by (cases c) (auto simp: allowedOs_permitted authorityOf_def dest: grants_flags [unfolded authorityOf_def])
qed



text \<open>C5: In every state of a run the tables of descriptors, streams, directory streams, errors, pollables and network handles
  are within their limits; the numbers of descriptors, of file streams and of directory streams are distinct; and a descriptor or
  file stream holds a right only if its preopen has the flag for it. The 32-bit counters do not wrap
  within the stated number of calls.\<close>

theorem p2_tables:
  assumes "run2 H cfg mounts limits n s" and "65536 + 64 * n < 2 ^ 32"
  shows "length (f_descs (p_fs s)) \<le> unat (MaxDescriptors (normalized limits)) \<and>
    length (f_streams (p_fs s)) + unat (f_stdStreams (p_fs s)) \<le> unat (MaxStreams (normalized limits)) \<and>
    length (f_dirs (p_fs s)) \<le> unat (MaxDirectoryStreams (normalized limits)) \<and>
    length (h_errors (p_host s)) \<le> unat (MaxErrors (normalized limits)) \<and>
    length (h_pollables (p_host s)) \<le> unat (MaxPollables (normalized limits)) \<and>
    h_networks (p_host s) \<le> MaxNetworkHandles (normalized limits) \<and>
    distinct (map fst (f_descs (p_fs s))) \<and> distinct (map fst (f_streams (p_fs s))) \<and> distinct (map fst (f_dirs (p_fs s))) \<and>
    (\<forall>rep node. map_of (f_descs (p_fs s)) rep = Some node \<longrightarrow>
      (d_flags node AND 1 \<noteq> 0 \<longrightarrow> onMount (rootMount mounts) (d_file node) preopen.Read) \<and>
      (d_flags node AND 2 \<noteq> 0 \<longrightarrow> onMount (rootMount mounts) (d_file node) preopen.Write) \<and>
      (d_flags node AND 32 \<noteq> 0 \<longrightarrow> onMount (rootMount mounts) (d_file node) MutateDirectory)) \<and>
    (\<forall>rep st. map_of (f_streams (p_fs s)) rep = Some st \<longrightarrow>
      onMount (rootMount mounts) (st_file st) (if st_read st then preopen.Read else preopen.Write))"
proof -
  let ?A = "authorityOf mounts limits"
  have i: "Inv2 ?A (65536 + 64 * n) {} s" using assms by (rule Inv2_run)
  have fs: "fsOk ?A (65536 + 64 * n) (p_fs s)" using i by (rule Inv2_fsOk)
  have "hostOk ?A (p_host s)" using i by (simp add: Inv2_def)
  moreover have "(d_flags node AND 1 \<noteq> 0 \<longrightarrow> onMount (rootMount mounts) (d_file node) preopen.Read) \<and>
      (d_flags node AND 2 \<noteq> 0 \<longrightarrow> onMount (rootMount mounts) (d_file node) preopen.Write) \<and>
      (d_flags node AND 32 \<noteq> 0 \<longrightarrow> onMount (rootMount mounts) (d_file node) MutateDirectory)"
    if "map_of (f_descs (p_fs s)) rep = Some node" for rep node
  proof -
    have ok: "nodeOk ?A node" using fs that by (force simp: fsOk_def dest: map_of_SomeD)
    then have "fst (d_file node) = Suc (d_mount node)" by (simp add: nodeOk_def)
    then show ?thesis using nodeOk_mount [OF ok] by (auto simp: grants_def intro!: grants_flags(1-3) [of mounts limits])
  qed
  moreover have "onMount (rootMount mounts) (st_file st) (if st_read st then preopen.Read else preopen.Write)"
    if "map_of (f_streams (p_fs s)) rep = Some st" for rep st
    using fsOk_stream [OF fs that] grants_flags(1,2) by (auto simp: streamOk2_def split: if_splits)
  ultimately show ?thesis
    using fs unfolding fsOk_def
    by (auto simp: hostOk_def authorityOf_def dest: keyed_distinct)
qed

theorem p2_tables_witness:
  "map_option d_flags (map_of (f_descs (p_fs sampleEnd)) 1) = Some 1 \<and>
   length (f_descs (p_fs sampleEnd)) \<le> unat (MaxDescriptors (normalized zeroLimits)) \<and>
   onMount (rootMount [sampleMount]) (d_file (the (map_of (f_descs (p_fs sampleEnd)) 1))) preopen.Read"
  using p2_tables [OF sample_run] sample_log by (auto simp: map_option_eq_Some)

text \<open>C6: When a run ends the preopens are closed. Every file that is still open then belongs to a resource that the
  guest holds; once the runtime has destroyed those, nothing is open.\<close>

theorem p2_no_leak:
  assumes "run2 H cfg mounts limits n s" and "65536 + 64 * n < 2 ^ 32" and "t = snd (run_state (closeMounts H) s)"
  shows "p_live t \<subseteq> d_file ` snd ` set (f_descs (p_fs s)) \<union> st_file ` snd ` set (f_streams (p_fs s)) \<union> ds_file ` snd ` set (f_dirs (p_fs s)) \<and>
    (\<forall>m\<in>set (f_mounts (p_fs t)). m_base m = None)"
proof -
  have r: "p_fs t = (p_fs s)\<lparr>f_mounts := map unbased (f_mounts (p_fs s))\<rparr>" "p_live t = p_live s - bases (f_mounts (p_fs s))"
    using closeMountsLoop_result [of 0 "length (f_mounts (p_fs s))" s H] assms(3) by (simp_all add: closeMounts_def)
  have "p_live s \<subseteq> owned2 (p_fs s)" using Inv2_run [OF assms(1,2)] by (simp add: Inv2_def)
  then show ?thesis using r by (auto simp: owned2_bases unbased_def)
qed

theorem p2_no_leak_witness:
  "p_live (snd (run_state (closeMounts obligingHost) sampleEnd)) \<subseteq> d_file ` snd ` set (f_descs (p_fs sampleEnd)) \<union>
     st_file ` snd ` set (f_streams (p_fs sampleEnd)) \<union> ds_file ` snd ` set (f_dirs (p_fs sampleEnd))"
  using p2_no_leak [OF sample_run _ refl] by simp

section \<open>Two limits of the code\<close>

text \<open>A leaf keeps its trailing \<^verbatim>\<open>.\<close> components when it reaches the kernel: the calls of \<open>P2_Paths\<close> that take a leaf take such a
  name (\<open>dotted\<close>), and for a link \<^verbatim>\<open>l\<close> the kernel resolves \<^verbatim>\<open>l/.\<close> through the link, wherever it points.\<close>

lemma leaf_keeps_dot: "splitLeaf ''d/l/.'' = Inr (''d'', ''l/.'') \<and> dotted ''l/.''"
  by code_simp

text \<open>The counter of descriptors is not checked against the table: once it has gone round, an insertion replaces a
  live entry, whose file nothing closes any more.\<close>

lemma addDesc_replaces:
  assumes "map_of (f_descs (p_fs s)) (f_nextDesc (p_fs s)) = Some old" and "d_isDir n"
    and "of_nat (length (f_descs (p_fs s))) < MaxDescriptors (f_limits (p_fs s))"
  shows "fst (run_state (addDesc H n) s) = Inr (f_nextDesc (p_fs s)) \<and>
    map_of (f_descs (p_fs (snd (run_state (addDesc H n) s)))) (f_nextDesc (p_fs s)) = Some n \<and>
    p_live (snd (run_state (addDesc H n) s)) = p_live s"
  using assms by (simp add: addDesc_def not_le update_conv')

end
