(* ===== verification/Providers.thy ===== *)
theory Providers
  imports Plugin_Runs P2_Runs
begin

text \<open>
  How the two providers get from their configuration to a running guest: decoding, start and stop of the
  Preview 1 plugin and the separate callback of its argument imports (\<^verbatim>\<open>core.go\<close>), and \<^verbatim>\<open>Register\<close> and \<^verbatim>\<open>Run\<close> of the Preview 2
  provider (\<^verbatim>\<open>p2.go\<close>). The runtime's registrar and the decoder of \<^verbatim>\<open>encoding/json\<close> are parameters.
\<close>

section \<open>Preview 1: configuration\<close>

definition maxConfigBytes :: nat where "maxConfigBytes = 256 * 1024"

text \<open>\<^verbatim>\<open>bytes.TrimSpace\<close>: the encodings of the runes of \<^verbatim>\<open>unicode.IsSpace\<close>, removed from both ends.\<close>

definition spaceRunes :: "string list" where
  "spaceRunes = [
     [CHR 0x20], [CHR 0x09], [CHR 0x0A], [CHR 0x0B], [CHR 0x0C], [CHR 0x0D],
     [CHR 0xC2, CHR 0x85], [CHR 0xC2, CHR 0xA0], [CHR 0xE1, CHR 0x9A, CHR 0x80], [CHR 0xE2, CHR 0x80, CHR 0x80], [CHR 0xE2, CHR 0x80, CHR 0x81], [CHR 0xE2, CHR 0x80, CHR 0x82],
     [CHR 0xE2, CHR 0x80, CHR 0x83], [CHR 0xE2, CHR 0x80, CHR 0x84], [CHR 0xE2, CHR 0x80, CHR 0x85], [CHR 0xE2, CHR 0x80, CHR 0x86], [CHR 0xE2, CHR 0x80, CHR 0x87], [CHR 0xE2, CHR 0x80, CHR 0x88],
     [CHR 0xE2, CHR 0x80, CHR 0x89], [CHR 0xE2, CHR 0x80, CHR 0x8A], [CHR 0xE2, CHR 0x80, CHR 0xA8], [CHR 0xE2, CHR 0x80, CHR 0xA9], [CHR 0xE2, CHR 0x80, CHR 0xAF], [CHR 0xE2, CHR 0x81, CHR 0x9F],
     [CHR 0xE3, CHR 0x80, CHR 0x80]]"

fun trimFront :: "nat \<Rightarrow> string list \<Rightarrow> string \<Rightarrow> string" where
  "trimFront 0 runes s = s"
| "trimFront (Suc n) runes s = (case find (\<lambda>r. hasPrefix s r) runes of None \<Rightarrow> s | Some r \<Rightarrow> trimFront n runes (drop (length r) s))"

definition trimSpace :: "string \<Rightarrow> string" where
  "trimSpace s = (let t = trimFront (length s) spaceRunes s in rev (trimFront (length t) (map rev spaceRunes) (rev t)))"

text \<open>\<open>toks\<close> are the tokens of a text (\<open>None\<close>: it is not a sequence of tokens), \<open>decode\<close> is the strict decoder applied to it with
  the information whether nothing follows the value.\<close>

definition decodePluginConfig :: "(string \<Rightarrow> jtok list option) \<Rightarrow> (string \<Rightarrow> (pluginConfig \<times> bool) option) \<Rightarrow> string \<Rightarrow> string + pluginConfig" where
  "decodePluginConfig toks decode raw =
     (let raw = (if raw = [] then ''{}'' else raw) in
      if length raw > maxConfigBytes then Inl ''wasi: config exceeds bytes''
      else (let trimmed = trimSpace raw in
        if trimmed = [] \<or> trimmed ! 0 \<noteq> CHR 0x7B then Inl ''wasi: config must be a JSON object''
        else if \<not> validUtf8 trimmed then Inl ''wasi: config is not valid UTF-8''
        else if \<not> validateConfigSurrogateEscapes trimmed then Inl ''wasi: config has an unpaired surrogate escape''
        else (case toks trimmed of
            None \<Rightarrow> Inl ''wasi: config: syntax''
          | Some ts \<Rightarrow>
              if \<not> validateConfigJSON ts then Inl ''wasi: config: shape''
              else (case decode trimmed of
                  None \<Rightarrow> Inl ''wasi: config: decode''
                | Some (cfg, alone) \<Rightarrow>
                    if \<not> alone then Inl ''wasi: config has a trailing JSON value''
                    else (case configFromPluginConfig cfg of Inl e \<Rightarrow> Inl e | Inr c \<Rightarrow> Inr cfg)))))"

definition validatePluginConfig :: "(string \<Rightarrow> jtok list option) \<Rightarrow> (string \<Rightarrow> (pluginConfig \<times> bool) option) \<Rightarrow> string \<Rightarrow> string option" where
  "validatePluginConfig toks decode raw = (case decodePluginConfig toks decode raw of Inl e \<Rightarrow> Some e | Inr cfg \<Rightarrow> None)"

section \<open>Preview 1: start, stop, callbacks\<close>

text \<open>\<^verbatim>\<open>start\<close> with the state of its context and the arguments that the runtime hands out; the configuration with the
  arguments is the one the plugin continues with.\<close>

definition startPlugin :: "'w host \<Rightarrow> config \<Rightarrow> string option \<Rightarrow> string + string list \<Rightarrow> ('w rt, config \<times> string option) state" where
  "startPlugin H cfg ctxError arguments = (case ctxError of
      Some e \<Rightarrow> ret (cfg, Some e)
    | None \<Rightarrow> (case arguments of
          Inl e \<Rightarrow> ret (cfg, Some e)
        | Inr args \<Rightarrow> do {
            let cfg = cfg\<lparr>config.c_Args := args\<rparr>;
            r \<leftarrow> initFS H cfg True;
            ret (cfg, r) }))"

definition stopPlugin :: "'w host \<Rightarrow> ('w rt, unit) state" where
  "stopPlugin H = closeAll H"

text \<open>The raw imports of an embedder: one table, initialized without reporting errors of its mounts.\<close>

definition rawImports :: "'w host \<Rightarrow> config \<Rightarrow> ('w rt, config) state" where
  "rawImports H cfg = do {
     let cfg = cloneConfig cfg;
     resetFS False;
     _ \<leftarrow> initFS H cfg False;
     ret cfg }"

text \<open>The callback of the four argument imports, which does not copy the plugin; any other handler would panic.\<close>

definition argumentCallback :: "'w host \<Rightarrow> config \<Rightarrow> binding \<Rightarrow> goerr + nat \<Rightarrow> bytes \<Rightarrow> u64 list \<Rightarrow> ('w rt, outcome) state" where
  "argumentCallback H cfg b caller mem p = do {
     st \<leftarrow> stateFor H cfg caller;
     case st of None \<Rightarrow> ret NoResult | Some res \<Rightarrow> (case res of
       Inl code \<Rightarrow> ret (setStateError (b_results b) code)
     | Inr i \<Rightarrow> onTable i mem (case b_handler b of
           dispatchargsSizesGet \<Rightarrow> coded (argsSizesGet cfg p)
         | dispatchargsGet \<Rightarrow> coded (argsGet cfg p)
         | dispatchenvironSizesGet \<Rightarrow> coded (environSizesGet cfg p)
         | dispatchenvironGet \<Rightarrow> coded (environGet cfg p)
         | _ \<Rightarrow> do { modify (\<lambda>s. s\<lparr>s_panic := True\<rparr>); ret NoResult })) }"

definition argumentHandlers :: "handlerID set" where
  "argumentHandlers = {dispatchargsSizesGet, dispatchargsGet, dispatchenvironSizesGet, dispatchenvironGet}"

text \<open>The separate callback of the argument imports does what the general one does: for the four imports that
  \<^verbatim>\<open>binding.callback\<close> gives to it, its behaviour is the same on every input and every state.\<close>

theorem argumentCallback_agrees:
  assumes "b_handler b \<in> argumentHandlers"
  shows "argumentCallback H cfg b caller mem p = callback H cfg b caller mem p"
  using assms unfolding argumentCallback_def callback_def argumentHandlers_def
  by (elim insertE) (simp_all cong: sum.case_cong option.case_cong)

theorem argumentCallback_agrees_witness:
  "dispatchargsGet \<in> argumentHandlers \<and>
   run_state (argumentCallback sampleHost mountedConfig (binding.make ''args_get'' dispatchargsGet 2 True CapArgumentsRead) (Inr 7) [] [0, 0]) started =
     run_state (callback sampleHost mountedConfig (binding.make ''args_get'' dispatchargsGet 2 True CapArgumentsRead) (Inr 7) [] [0, 0]) started"
  by (simp add: argumentCallback_agrees binding.make_def argumentHandlers_def)

section \<open>Preview 2: configuration\<close>

text \<open>The configuration that \<^verbatim>\<open>Register\<close> stores: the choice of the standard streams, and environment, mounts and limits.\<close>

datatype standardStream = InheritStream | EndOfInput | DiscardOutput

record providerConfig =
  v_Stdin :: standardStream
  v_Stdout :: standardStream
  v_Stderr :: standardStream
  v_Env :: "string list"
  v_Mounts :: "preopen list"
  v_Limits :: limits

definition registerConfig :: "pluginConfig2 \<Rightarrow> providerConfig" where
  "registerConfig raw =
     \<lparr>v_Stdin = (if p2_Stdin raw = Some ''eof'' then EndOfInput else InheritStream),
      v_Stdout = (if p2_Stdout raw = Some ''discard'' then DiscardOutput else InheritStream),
      v_Stderr = (if p2_Stderr raw = Some ''discard'' then DiscardOutput else InheritStream),
      v_Env = (case p2_Env raw of None \<Rightarrow> [] | Some e \<Rightarrow> e),
      v_Mounts = (case p2_Mounts raw of None \<Rightarrow> [] | Some m \<Rightarrow> m),
      v_Limits = (case p2_Limits raw of None \<Rightarrow> zeroLimits | Some l \<Rightarrow> l)\<rparr>"

text \<open>\<^verbatim>\<open>Register\<close> itself: what the registrar answers to its four requests, in the order of the calls; the service is
  provided only after the other three.\<close>

definition Register :: "goerr + pluginConfig2 \<Rightarrow> goerr option \<Rightarrow> goerr option \<Rightarrow> (providerConfig \<Rightarrow> goerr option) \<Rightarrow> goerr + providerConfig" where
  "Register decoded components arguments provide = (case decoded of
      Inl e \<Rightarrow> Inl e
    | Inr raw \<Rightarrow> (case components of Some e \<Rightarrow> Inl e
      | None \<Rightarrow> (case arguments of Some e \<Rightarrow> Inl e
        | None \<Rightarrow> (case provide (registerConfig raw) of Some e \<Rightarrow> Inl e | None \<Rightarrow> Inr (registerConfig raw)))))"

text \<open>\<^verbatim>\<open>providerPlugin.Run\<close>: the arguments of the runtime, then \<^verbatim>\<open>Run\<close> under a lease of the component service.\<close>

definition providerRun :: "'w p2host \<Rightarrow> providerConfig \<Rightarrow> goerr + string list \<Rightarrow>
    (string list \<Rightarrow> ((string \<Rightarrow> ('w p2, goerr + val list) state) \<Rightarrow> string list \<Rightarrow> ('w p2, goerr option) state) \<Rightarrow> ('w p2, goerr option) state) \<Rightarrow>
    ('w p2, goerr option) state" where
  "providerRun H cfg arguments withInstance = (case arguments of
      Inl e \<Rightarrow> ret (Some e)
    | Inr args \<Rightarrow> Run H (v_Mounts cfg) (v_Limits cfg) (Some (withInstance args)))"

lemma validate_defaults: "validateLimits zeroLimits" "validateMounts []"
  by code_simp+

text \<open>C37: A configuration that the provider has accepted and registered, with or without mounts and limits, is never rejected when
  a command runs: \<^verbatim>\<open>Run\<close> goes on to open the preopens, and what it then answers is the error of a preopen or the result
  of the component. Limits that are not configured leave the documented defaults in force.\<close>

theorem accepted_config_runs:
  assumes "validateConfig raw j (Some cfg)" "Register (Inr cfg) components arguments provide = Inr v"
  shows "run_state (providerRun H v (Inr args) withInstance) s =
    (case run_state (prepareFilesystem H (v_Mounts v) (v_Limits v)) s of
       (Some e, t) \<Rightarrow> (Some e, t)
     | (None, t) \<Rightarrow> run_state (do { r \<leftarrow> withInstance args runExport; closeMounts H; ret r }) t) \<and>
    (p2_Limits cfg = None \<longrightarrow> normalized (v_Limits v) =
       \<lparr>MaxDescriptors = 256, MaxStreams = 256, MaxErrors = 256, MaxDirectoryStreams = 64, MaxNetworkHandles = 256, MaxPollables = 1024,
        MaxPollInputs = 1024, MaxDirectoryEntryBytes = 1048576, MaxAggregateBufferBytes = 16777216\<rparr>)"
proof -
  have "v = registerConfig cfg" using assms(2) by (simp add: Register_def split: option.splits)
  then have "validateLimits (v_Limits v)" "validateMounts (v_Mounts v)"
    using assms(1) validate_defaults by (auto simp: validateConfig_def registerConfig_def split: option.splits if_splits)
  moreover have "p2_Limits cfg = None \<Longrightarrow> normalized (v_Limits v) = normalized zeroLimits"
    using \<open>v = registerConfig cfg\<close> by (simp add: registerConfig_def)
  ultimately show ?thesis
    by (simp add: providerRun_def Run_def normalized_def orDefault_def zeroLimits_def split: prod.split option.split)
qed

definition eofConfig :: pluginConfig2 where
  "eofConfig = \<lparr>p2_Stdin = Some ''eof'', p2_Stdout = None, p2_Stderr = None, p2_Env = None, p2_Mounts = None, p2_Limits = None\<rparr>"

definition exitWithOk :: "string list \<Rightarrow> ((string \<Rightarrow> (nat p2, goerr + val list) state) \<Rightarrow> string list \<Rightarrow> (nat p2, goerr option) state) \<Rightarrow> (nat p2, goerr option) state" where
  "exitWithOk args body = body (\<lambda>name. ret (Inr [VResult False VNil])) [''wasi:cli/run@0.2.0'']"

theorem accepted_config_runs_witness:
  "validateConfig ''{}'' (Obj []) (Some eofConfig) \<and> Register (Inr eofConfig) None None (\<lambda>v. None) = Inr (registerConfig eofConfig) \<and>
   fst (run_state (providerRun obligingHost (registerConfig eofConfig) (Inr [''prog'']) exitWithOk) (atTime 0)) = None"
proof -
  have v: "validateConfig ''{}'' (Obj []) (Some eofConfig)" unfolding eofConfig_def by code_simp
  have r: "Register (Inr eofConfig) None None (\<lambda>v. None) = Inr (registerConfig eofConfig)" by (simp add: Register_def)
  have x: "run_state (exitWithOk [''prog''] runExport) t = (None, t)" for t
    by (simp add: exitWithOk_def runExport_def runResult_def hasPrefix_def)
  have "fst (run_state (providerRun obligingHost (registerConfig eofConfig) (Inr [''prog'']) exitWithOk) (atTime 0)) = None"
    unfolding conjunct1 [OF accepted_config_runs [OF v r]]
    by (simp add: x registerConfig_def eofConfig_def prepareFilesystem_def newFilesystem_def closeMounts_def split_beta)
  with v r show ?thesis by simp
qed

end
