(* ===== verification/Spec2Isabelle.thy ===== *)
theory Spec2Isabelle
  imports Preview1 Stdin_Probe Providers
begin

text \<open>
  Verification of the WASI host of this repository: the Preview 1 plugin (package \<^verbatim>\<open>internal/core\<close>, which \<^verbatim>\<open>wasi.go\<close> and \<^verbatim>\<open>p1\<close>
  publish) and the Preview 2 provider (package \<^verbatim>\<open>p2\<close>), both in their Linux build. Preview 1 serves core modules:
  an import reads numbers and guest memory and answers with an error number. Preview 2 serves components: a
  host function receives and returns typed values, and resources (descriptors, streams, pollables, errors) are
  entries of tables that the component runtime refers to by number. The two providers share no state and no
  code; their models share the prelude, the model of Go's standard library and the vocabulary of system calls.

  \<^bold>\<open>How the code is modelled.\<close> A Go function is a function in the state monad, with the record of the state that its
  receiver points to; an \<^verbatim>\<open>error\<close> is a value of type \<open>goerr\<close> and a result with an error is a sum; machine integers
  are words. Everything outside the repository is one parameter \<open>H\<close>, a function from a call and a world \<open>'w\<close> to an
  answer and the next world: the kernel and \<^verbatim>\<open>golang.org/x/sys\<close>, the methods of \<^verbatim>\<open>os.File\<close>, configured readers, writers and
  clocks, timers and contexts, randomness, and for Preview 2 the handle table of the component runtime. Each
  call is recorded in a log and every opened file object in a set of live files, so that claims about authority and
  leaks are claims about log and set. No assumption is made about \<open>H\<close> unless a theorem states it: the safety
  theorems hold for every behaviour of the operating system. A file object is named by the preopen it was
  reached from and a serial number.

  \<^bold>\<open>Preview 1.\<close>
  \<^item> \<open>Wasi_Prelude\<close>, \<open>Go_Std\<close>, \<open>Interfaces\<close>: words, bytes, little-endian codecs, maps, weakest preconditions; strings, paths and
    errors of Go; the shared contracts as locales (systems with an invariant, handle tables with a quota).
  \<^item> \<open>Abi\<close>, \<open>Wasi_State\<close>, \<open>Guest_Memory\<close>: \<^verbatim>\<open>abi.go\<close>, the state of \<^verbatim>\<open>fs.go\<close>, bounds-checked guest memory.
  \<^item> \<open>Authority\<close>: the permitted host calls and the invariant of every handler.
  \<^item> \<open>Fd_Table\<close>, \<open>Fd_Io\<close>, \<open>Fd_Meta\<close>, \<open>Readdir\<close>: descriptors, reading and writing, metadata, listings of \<^verbatim>\<open>fs.go\<close> and \<^verbatim>\<open>core.go\<close>.
  \<^item> \<open>Path_Resolve\<close>, \<open>Path_Open\<close>, \<open>Path_Ops\<close>: confined path resolution (\<^verbatim>\<open>fs.go\<close>, \<^verbatim>\<open>fs_linux.go\<close>) and the path imports.
  \<^item> \<open>Clock\<close>, \<open>Poll\<close>, \<open>Dispatch\<close>, \<open>Config\<close>, \<open>Config_Json\<close>, \<open>Lifecycle\<close>: \<^verbatim>\<open>clock.go\<close>, \<^verbatim>\<open>poll.go\<close>, the import table, the configuration and
    the plugin object with the tables of its instances.
  \<^item> \<open>Mount_Policy\<close>: the configured mount that a file object belongs to, with which the policies of both previews are stated.
  \<^item> \<open>Preview1\<close>, \<open>Plugin_Runs\<close>: the properties. For every sequence of starts, calls, instance closes, stops and restarts (\<open>pstep\<close>; a
    start follows the registration or a stop): every host call is one that the flags of the configured mounts permit
    (\<open>permitted\<close>), quotas hold, instances do not see each other's descriptors, and a stopped plugin has released every file.
    No slice expression of a handler goes out of range. The one Go panic is that of a plugin which is called after it was
    stopped and started again (\<open>restart_panics\<close>): it leaves the guard locked and ends the run; without a stop there is
    none (\<open>reachable_no_panic\<close>). And what single imports compute.

  \<^bold>\<open>Preview 2.\<close>
  \<^item> \<open>Async_Input\<close>, \<open>Output_Adapter\<close>, \<open>Poll_Safe\<close>: the adapters of \<^verbatim>\<open>io.go\<close> with the steps of their goroutines interleaved. Bytes
    arrive once and in order, a flush covers what was accepted before it, a readiness probe is invisible.
  \<^item> \<open>P2_Config\<close>: limits, mounts and the checks of the raw JSON in \<^verbatim>\<open>p2.go\<close>.
  \<^item> \<open>P2_State\<close>, \<open>P2_Authority\<close>: values, tables and the outside; the permitted calls (\<open>allowed2\<close>) and the invariant \<open>Inv2\<close> with the rules
    that carry the proofs of all functions.
  \<^item> \<open>P2_Streams\<close>, \<open>P2_Clocks\<close>: the stream functions of \<^verbatim>\<open>p2.go\<close>; clocks, pollables, command line, randomness and the socket
    stubs of \<^verbatim>\<open>clocks.go\<close>, \<^verbatim>\<open>p2.go\<close> and \<^verbatim>\<open>sockets.go\<close>. \<open>Stream_Props\<close> and \<open>Stdin_Probe\<close> have their properties.
  \<^item> \<open>P2_Paths\<close>, \<open>Path_Walk\<close>: \<^verbatim>\<open>path.go\<close>, \<^verbatim>\<open>path_linux.go\<close> and the path functions of \<^verbatim>\<open>filesystem.go\<close>; the walk terminates.
  \<^item> \<open>Fs_Values\<close>, \<open>Fs_Tables\<close>, \<open>Fs_Directory\<close>, \<open>Fs_Handlers\<close>: \<^verbatim>\<open>filesystem.go\<close> and \<^verbatim>\<open>directory*.go\<close>: codes and metadata, tables and
    destructors, directory streams, every function of \<^verbatim>\<open>wasi:filesystem\<close>.
  \<^item> \<open>P2_Bindings\<close>, \<open>P2_Runs\<close>: the tables of bound functions and destructors, and \<^verbatim>\<open>Run\<close>. For every sequence of calls with any
    arguments, destructions and writes of adapter goroutines: every call is one that the flags of the preopens permit
    (\<open>permitted2\<close>), the tables stay within their limits, and no error path leaves a file open that no table owns.
  \<^item> \<open>Providers\<close>: the configuration text of the Preview 1 plugin, its start, stop, raw imports and argument callback (\<^verbatim>\<open>core.go\<close>);
    \<^verbatim>\<open>Register\<close> and \<^verbatim>\<open>Run\<close> of the Preview 2 provider (\<^verbatim>\<open>p2.go\<close>): an accepted configuration is not rejected when a command runs.

  \<^bold>\<open>Bounds and fuel.\<close> A loop that ends only when the outside lets it (a retry after \<^verbatim>\<open>EINTR\<close>, a wait for a stream) makes as many
  rounds as the state has fuel and then sets a flag; safety theorems hold for every amount. Theorems that such
  a loop returns state what the outside must do and which fuel suffices. The monotonic clock of Preview 2 is that of
  \<^verbatim>\<open>time.Since\<close>, which stays at \<open>2 ^ 63 - 1\<close> nanoseconds; a wait for a later instant does not end (\<open>waitMonotonic_ends\<close>). The walk of a path needs no
  assumption: 163840 rounds and one per byte of the path are enough, for 40 links of less than 4096 bytes. The counters of
  the Preview 2 tables have 32 bits and are not checked; the theorems about runs are for runs of fewer than about
  67 million steps, which raise a counter by at most 64 each, and \<open>addDesc_replaces\<close> shows what happens beyond. Lengths of
  arguments are below \<open>2 ^ 64\<close>. Functions that Go runs under a mutex are one step; what happens between two
  lock operations is interleaved where goroutines of the repository take part (the adapters), and calls of one
  Preview 2 instance are taken one after the other, as the component runtime makes them.

  \<^bold>\<open>What the policies say.\<close> They name the flags \<open>Read\<close>, \<open>Write\<close> and \<open>MutateDirectory\<close> of the configured mounts and their host
  paths, and are proved from the descriptor rights (\<open>Authority\<close>, \<open>P2_Authority\<close>) that the handlers check. A name that reaches the
  kernel in a call on a directory is a single component; in Preview 2 it may be followed by empty and \<^verbatim>\<open>.\<close> components
  (\<open>dotted\<close>), with which the kernel follows a link in front of the dot (\<open>leaf_keeps_dot\<close>). Opens are confined by
  \<^verbatim>\<open>RESOLVE_BENEATH\<close> or by \<^verbatim>\<open>O_NOFOLLOW\<close> on a single component. Metadata and link targets need no right, and neither does the listing of a
  directory in Preview 2.

  \<^bold>\<open>Not modelled.\<close> The Darwin and Windows builds of the same functions, with \<^verbatim>\<open>internal/winfs\<close>; plugin metadata and registration
  (\<^verbatim>\<open>Definition\<close>, \<^verbatim>\<open>Provider\<close>, the \<^verbatim>\<open>Register\<close> of Preview 1), which hand the modelled functions to the runtime; the builders of declared types (the
  \<^verbatim>\<open>Desc\<close> functions), which are data for the component runtime; the wait of \<^verbatim>\<open>poll_unix.go\<close> on file descriptors, which is a
  call to the outside; error texts; data races inside a single host call; the tool \<^verbatim>\<open>cmd/wit-surface\<close>.
\<close>

end
